(* ===== verification/Prelude.thy ===== *)
theory Prelude
  imports
    Main
    "HOL-Library.Char_ord"
    "HOL-Library.List_Lexorder"
    "HOL-Library.AList"
    "HOL-Library.Sublist"
    "HOL-Library.Multiset"
begin

text \<open>
  Shared vocabulary of the development: the Go standard-library operations the modelled
  packages use on strings, slices and maps, and the lemmas the component theories rest on.

  A Go string is a list of bytes, so \<open>string\<close> (a \<open>char list\<close>) is its model, and the
  lexicographic order of \<open>List_Lexorder\<close> over \<open>Char_ord\<close> is Go's \<open><\<close> on
  strings. White space is the ASCII part of \<open>unicode.IsSpace\<close>. A Go map is an
  association list with distinct keys: insertion is \<open>AList.update\<close>, deletion
  \<open>AList.delete\<close>, lookup \<open>map_of\<close>; the list order stands for one of the iteration
  orders the runtime may choose, and every function that ranges over a map and sorts is shown
  not to depend on it.
\<close>

named_theorems go_defs \<open>definitions of the modelled library operations, for evaluation\<close>

type_synonym 'v gomap = "(string \<times> 'v) list"


section \<open>Strings\<close>

text \<open>The white space \<open>strings.TrimSpace\<close> removes, on ASCII text; the model's strings are
  ASCII.\<close>

definition is_space :: "char \<Rightarrow> bool" where
  [go_defs]: "is_space c \<longleftrightarrow> c \<in> {CHR 0x09, CHR 0x0A, CHR 0x0B, CHR 0x0C, CHR 0x0D, CHR '' ''}"

definition TrimSpace :: "string \<Rightarrow> string" where
  [go_defs]: "TrimSpace s = rev (dropWhile is_space (rev (dropWhile is_space s)))"

lemma dropWhile_id: "(xs \<noteq> [] \<Longrightarrow> \<not> P (hd xs)) \<Longrightarrow> dropWhile P xs = xs"
  by (cases xs) auto

lemma hd_dropWhile': "dropWhile P xs \<noteq> [] \<Longrightarrow> \<not> P (hd (dropWhile P xs))"
  by (rule hd_dropWhile)

lemma TrimSpace_ends:
  assumes "TrimSpace s \<noteq> []"
  shows "\<not> is_space (hd (TrimSpace s))" and "\<not> is_space (last (TrimSpace s))"
proof -
  let ?l = "dropWhile is_space s"
  let ?t = "dropWhile is_space (rev ?l)"
  have ne: "?t \<noteq> []" using assms by (auto simp: TrimSpace_def)
  then have l: "?l \<noteq> []" by (metis dropWhile.simps(1) rev.simps(1))
  obtain u where u: "rev ?l = u @ ?t"
    using takeWhile_dropWhile_id [of is_space "rev ?l"] by metis
  then have "?l = rev ?t @ rev u" by (metis rev_append rev_rev_ident)
  then have "hd (TrimSpace s) = hd ?l"
    unfolding TrimSpace_def using ne by (metis hd_append2 rev_is_Nil_conv)
  then show "\<not> is_space (hd (TrimSpace s))"
    using hd_dropWhile [OF l] by simp
  show "\<not> is_space (last (TrimSpace s))"
    using hd_dropWhile [OF ne] by (simp add: TrimSpace_def last_rev)
qed

text \<open>Trimming is idempotent, so a trimmed key is found again under its own spelling.\<close>

lemma TrimSpace_idem [simp]: "TrimSpace (TrimSpace s) = TrimSpace s"
proof (cases "TrimSpace s = []")
  case True
  show ?thesis unfolding True by (simp add: TrimSpace_def)
next
  case False
  let ?t = "TrimSpace s"
  have "dropWhile is_space ?t = ?t"
    using TrimSpace_ends(1) [OF False] by (simp add: dropWhile_id)
  moreover have "dropWhile is_space (rev ?t) = rev ?t"
    using TrimSpace_ends(2) [OF False] False by (simp add: dropWhile_id hd_rev)
  ultimately have "TrimSpace ?t = rev (rev ?t)"
    by (subst TrimSpace_def) simp
  then show ?thesis by simp
qed

lemma TrimSpace_Nil [simp]: "TrimSpace [] = []"
  by (simp add: TrimSpace_def)

definition HasPrefix :: "string \<Rightarrow> string \<Rightarrow> bool" where
  [go_defs]: "HasPrefix s p \<longleftrightarrow> take (length p) s = p"

definition HasSuffix :: "string \<Rightarrow> string \<Rightarrow> bool" where
  [go_defs]: "HasSuffix s p \<longleftrightarrow> HasPrefix (rev s) (rev p)"

definition TrimPrefix :: "string \<Rightarrow> string \<Rightarrow> string" where
  [go_defs]: "TrimPrefix s p = (if HasPrefix s p then drop (length p) s else s)"

lemma HasPrefix_iff: "HasPrefix s p \<longleftrightarrow> (\<exists>t. s = p @ t)"
  unfolding HasPrefix_def by (metis append_eq_conv_conj append_take_drop_id)

lemma HasPrefix_append [simp]: "HasPrefix (p @ t) p"
  by (auto simp: HasPrefix_iff)

fun strings_Join :: "string list \<Rightarrow> string \<Rightarrow> string" where
  "strings_Join [] sep = []"
| "strings_Join [x] sep = x"
| "strings_Join (x # y # ys) sep = x @ sep @ strings_Join (y # ys) sep"

text \<open>\<open>strings.Split\<close> with a one-byte separator.\<close>

fun strings_Split :: "string \<Rightarrow> char \<Rightarrow> string list" where
  "strings_Split [] c = [[]]"
| "strings_Split (x # xs) c =
     (if x = c then [] # strings_Split xs c
      else case strings_Split xs c of
             [] \<Rightarrow> [[x]]
           | y # ys \<Rightarrow> (x # y) # ys)"

fun strings_Contains :: "string \<Rightarrow> string \<Rightarrow> bool" where
  "strings_Contains [] p = (p = [])"
| "strings_Contains (x # xs) p = (HasPrefix (x # xs) p \<or> strings_Contains xs p)"

text \<open>\<open>strings.Fields\<close>: the maximal runs of bytes that are not white space.\<close>

fun fields_from :: "string \<Rightarrow> string \<Rightarrow> string list" where
  "fields_from cur [] = (if cur = [] then [] else [cur])"
| "fields_from cur (c # cs) =
     (if is_space c then (if cur = [] then [] else [cur]) @ fields_from [] cs
      else fields_from (cur @ [c]) cs)"

definition strings_Fields :: "string \<Rightarrow> string list" where
  [go_defs]: "strings_Fields s = fields_from [] s"

text \<open>\<open>strings.ReplaceAll\<close> with a one-byte old string.\<close>

definition ReplaceAll_char :: "string \<Rightarrow> char \<Rightarrow> string \<Rightarrow> string" where
  [go_defs]: "ReplaceAll_char s c new = concat (map (\<lambda>x. if x = c then new else [x]) s)"

lemma Split_not_Nil [simp]: "strings_Split s c \<noteq> []"
  by (induction s) (auto split: list.splits)

lemma Join_Split: "strings_Join (strings_Split s c) [c] = s"
proof (induction s)
  case Nil
  then show ?case by simp
next
  case (Cons x xs)
  show ?case
  proof (cases "strings_Split xs c")
    case Nil
    then show ?thesis by simp
  next
    case (Cons y ys)
    then show ?thesis using Cons.IH by (cases ys) auto
  qed
qed

text \<open>Decimal digits, as \<open>%d\<close> prints a non-negative number.\<close>

definition digit_char :: "nat \<Rightarrow> char" where
  [go_defs]: "digit_char n = char_of (48 + n)"

fun itoa :: "nat \<Rightarrow> string" where
  "itoa n = (if n < 10 then [digit_char n] else itoa (n div 10) @ [digit_char (n mod 10)])"

declare itoa.simps [simp del]

fun atoi_acc :: "nat \<Rightarrow> string \<Rightarrow> nat" where
  "atoi_acc a [] = a"
| "atoi_acc a (c # cs) = atoi_acc (10 * a + (of_char c - 48)) cs"

lemma atoi_acc_append: "atoi_acc a (s @ t) = atoi_acc (atoi_acc a s) t"
  by (induction s arbitrary: a) auto

lemma of_digit_char: "n < 10 \<Longrightarrow> (of_char (digit_char n) :: nat) = 48 + n"
  by (simp add: digit_char_def)

lemma atoi_itoa: "atoi_acc 0 (itoa n) = n"
proof (induction n rule: itoa.induct)
  case (1 n)
  then show ?case
    by (cases "n < 10") (simp_all add: itoa.simps [of n] atoi_acc_append of_digit_char)
qed

lemma itoa_inj [simp]: "itoa m = itoa n \<longleftrightarrow> m = n"
  by (metis atoi_itoa)

lemma itoa_not_Nil [simp]: "itoa n \<noteq> []"
  by (subst itoa.simps) simp

definition int_text :: "int \<Rightarrow> string" where
  "int_text i = (if i < 0 then ''-'' @ itoa (nat (- i)) else itoa (nat i))"

text \<open>The verb \<open>%q\<close> on an ASCII string.\<close>

definition hex_digit :: "nat \<Rightarrow> char" where
  "hex_digit n = ''0123456789abcdef'' ! (n mod 16)"

definition quote_char :: "char \<Rightarrow> string" where
  "quote_char c =
     (let n = of_char c :: nat in
      if c = CHR 0x22 then [CHR 0x5C, CHR 0x22] else if c = CHR 0x5C then [CHR 0x5C, CHR 0x5C]
      else if n = 7 then CHR 0x5C # ''a'' else if n = 8 then CHR 0x5C # ''b''
      else if n = 12 then CHR 0x5C # ''f'' else if n = 10 then CHR 0x5C # ''n''
      else if n = 13 then CHR 0x5C # ''r'' else if n = 9 then CHR 0x5C # ''t''
      else if n = 11 then CHR 0x5C # ''v''
      else if n < 32 \<or> 126 < n then [CHR 0x5C, CHR ''x'', hex_digit (n div 16), hex_digit n]
      else [c])"

definition strconv_Quote :: "string \<Rightarrow> string" where
  "strconv_Quote s = CHR 0x22 # concat (map quote_char s) @ [CHR 0x22]"


section \<open>Maps\<close>

lemma map_of_update [simp]: "map_of (AList.update k v m) = (map_of m)(k \<mapsto> v)"
  by (rule update_conv')

lemma map_of_delete [simp]: "map_of (AList.delete k m) = (map_of m)(k := None)"
  by (rule delete_conv')

lemma distinct_keys_update [simp]:
  "distinct (map fst m) \<Longrightarrow> distinct (map fst (AList.update k v m))"
  by (rule distinct_update)

lemma distinct_keys_delete [simp]:
  "distinct (map fst m) \<Longrightarrow> distinct (map fst (AList.delete k m))"
  by (rule distinct_delete)

lemma keys_update [simp]: "fst ` set (AList.update k v m) = insert k (fst ` set m)"
  by (metis dom_map_of_conv_image_fst dom_update update_conv' map_of_update dom_fun_upd option.simps(3))

lemma keys_delete [simp]: "fst ` set (AList.delete k m) = fst ` set m - {k}"
  by (metis delete_keys dom_map_of_conv_image_fst dom_fun_upd map_of_delete)

lemma map_of_None_iff_key: "map_of m k = None \<longleftrightarrow> k \<notin> fst ` set m"
  by (rule map_of_eq_None_iff)

text \<open>Appending a pair under a fresh key is what \<open>AList.update\<close> does.\<close>

lemma update_fresh: "k \<notin> fst ` set m \<Longrightarrow> AList.update k v m = m @ [(k, v)]"
  by (induction m) auto

text \<open>The names of a map in sorted order: the \<open>for name := range m\<close> and
  \<open>sort.Strings\<close> idiom.\<close>

definition sorted_names :: "'v gomap \<Rightarrow> string list" where
  [go_defs]: "sorted_names m = sort (map fst m)"

lemma set_sorted_names [simp]: "set (sorted_names m) = fst ` set m"
  by (simp add: sorted_names_def)

lemma sorted_sorted_names [simp]: "sorted (sorted_names m)"
  by (simp add: sorted_names_def)

lemma distinct_sorted_names [simp]: "distinct (sorted_names m) = distinct (map fst m)"
  by (simp add: sorted_names_def)

lemma sorted_names_perm: "mset m = mset m' \<Longrightarrow> sorted_names m = sorted_names m'"
proof -
  assume "mset m = mset m'"
  then have "mset (map fst m) = mset (map fst m')" by simp
  then show ?thesis
    unfolding sorted_names_def by (metis properties_for_sort sorted_sort mset_sort)
qed

lemma map_of_perm:
  assumes "distinct (map fst m)" and "mset m = mset m'"
  shows "map_of m = map_of m'"
proof -
  have d: "distinct (map fst m')"
    using assms by (metis mset_map mset_eq_imp_distinct_iff)
  have "set m = set m'" using assms(2) by (rule mset_eq_setD)
  then show ?thesis
    by (metis assms(1) d map_of_eqI map_of_inject_set)
qed

end
