(* ===== verification/Errors.thy ===== *)
theory Errors
  imports Prelude
begin

text \<open>
  Go errors as the repository builds them: the constant-string sentinels of
  \<open>apperrors.Error\<close>, errors made by \<open>fmt.Errorf\<close> whose \<open>%w\<close> operands they wrap,
  and \<open>errors.Join\<close>. A formatted message is kept as the list of its parts, so what was
  quoted, numbered or wrapped stays visible; \<open>errors_is\<close> is \<open>errors.Is\<close>.
\<close>

datatype gerror =
    Sentinel string
  | Errorf "msg_part list"
  | Joined "gerror list"
and msg_part =
    Lit string
  | Quoted string
  | Num int
  | Wrapped gerror

type_synonym 'a result = "gerror + 'a"

text \<open>\<open>errors.Is\<close>: equality with the target, or a match in what the error wraps.\<close>

fun errors_is :: "gerror \<Rightarrow> gerror \<Rightarrow> bool"
and part_is :: "msg_part \<Rightarrow> gerror \<Rightarrow> bool" where
  "errors_is (Sentinel s) t = (Sentinel s = t)"
| "errors_is (Errorf ps) t = (Errorf ps = t \<or> list_ex (\<lambda>p. part_is p t) ps)"
| "errors_is (Joined es) t = (Joined es = t \<or> list_ex (\<lambda>e. errors_is e t) es)"
| "part_is (Lit s) t = False"
| "part_is (Quoted s) t = False"
| "part_is (Num i) t = False"
| "part_is (Wrapped e) t = errors_is e t"

text \<open>The text of an error, as \<open>Error()\<close> and the verb \<open>%v\<close> give it.\<close>

fun error_text :: "gerror \<Rightarrow> string"
and part_text :: "msg_part \<Rightarrow> string" where
  "error_text (Sentinel s) = s"
| "error_text (Errorf ps) = concat (map part_text ps)"
| "error_text (Joined es) = strings_Join (map error_text es) [CHR 0x0A]"
| "part_text (Lit s) = s"
| "part_text (Quoted s) = strconv_Quote s"
| "part_text (Num i) = int_text i"
| "part_text (Wrapped e) = error_text e"

text \<open>\<open>errors.Join\<close> drops nil errors and returns nil when nothing is left; a nil error is
  \<open>None\<close>.\<close>

definition errors_Join :: "gerror option list \<Rightarrow> gerror option" where
  "errors_Join es = (case List.map_filter id es of [] \<Rightarrow> None | e # es' \<Rightarrow> Some (Joined (e # es')))"

definition errors_Join_all :: "gerror list \<Rightarrow> gerror option" where
  "errors_Join_all es = errors_Join (map Some es)"

lemma map_filter_id_Some [simp]: "List.map_filter id (map Some es) = es"
  by (induction es) (simp_all add: List.map_filter_def)

lemma errors_Join_all_eq:
  "errors_Join_all es = (if es = [] then None else Some (Joined es))"
  by (cases es) (simp_all add: errors_Join_all_def errors_Join_def)

lemma errors_Join_all_None [simp]: "errors_Join_all es = None \<longleftrightarrow> es = []"
  by (simp add: errors_Join_all_eq)

lemma errors_Join_two [simp]: "errors_Join [Some a, Some b] = Some (Joined [a, b])"
  by (simp add: errors_Join_def List.map_filter_def)

lemma errors_is_refl [simp]: "errors_is e e"
  by (cases e) auto

lemma errors_is_Joined: "e \<in> set es \<Longrightarrow> errors_is e t \<Longrightarrow> errors_is (Joined es) t"
  by (auto simp: list_ex_iff)

lemma errors_is_Wrapped: "Wrapped e \<in> set ps \<Longrightarrow> errors_is e t \<Longrightarrow> errors_is (Errorf ps) t"
  by (auto simp: list_ex_iff intro!: bexI [where x = "Wrapped e"])

text \<open>An \<open>apperrors.Error\<close> is comparable by its text: two sentinels match exactly when
  their texts agree.\<close>

lemma errors_is_Sentinel [simp]: "errors_is (Sentinel s) (Sentinel t) \<longleftrightarrow> s = t"
  by simp

end
