(* ===== verification/Modules.thy ===== *)
theory Modules
  imports Errors
begin

text \<open>
  The vocabulary of \<open>src/modulex.go\<close> that several components share: the sentinel errors,
  the lifecycle states, interface values, and modules.

  A module is foreign code that the manager calls. Its \<open>Init\<close>, \<open>Start\<close> and
  \<open>Stop\<close> methods are programs over the \<open>Registry\<close> interface: a \<open>prog\<close> either
  returns, or calls one registry operation and continues with its answer, or sees a supervised
  task of the manager finish while it runs (the task goroutines run concurrently with the
  module's code, so a completion may fall between any two of its registry calls). Theorems
  that quantify over modules therefore cover every module and every such interleaving.
\<close>

section \<open>Sentinel errors\<close>

definition ErrCircularDependency :: gerror where
  "ErrCircularDependency = Sentinel ''circular dependency detected''"

definition ErrServiceNotFound :: gerror where
  "ErrServiceNotFound = Sentinel ''service not found''"

definition ErrRegistryLocked :: gerror where
  "ErrRegistryLocked = Sentinel ''registry is locked: cannot register services after initialization''"

definition ErrModuleNil :: gerror where
  "ErrModuleNil = Sentinel ''module must not be nil''"

definition ErrInvalidModuleName :: gerror where
  "ErrInvalidModuleName = Sentinel ''module name must not be empty''"

definition ErrDuplicateModule :: gerror where
  "ErrDuplicateModule = Sentinel ''module already registered''"

definition ErrDuplicateService :: gerror where
  "ErrDuplicateService = Sentinel ''service already registered''"

definition ErrDuplicateTask :: gerror where
  "ErrDuplicateTask = Sentinel ''task already exists''"

definition ErrInvalidTaskName :: gerror where
  "ErrInvalidTaskName = Sentinel ''task name must not be empty''"

definition ErrDependencyNotFound :: gerror where
  "ErrDependencyNotFound = Sentinel ''module dependency not found''"

definition ErrSelfDependency :: gerror where
  "ErrSelfDependency = Sentinel ''module cannot depend on itself''"

definition ErrInvalidDependencyName :: gerror where
  "ErrInvalidDependencyName = Sentinel ''module dependency name must not be empty''"

definition ErrInvalidServiceName :: gerror where
  "ErrInvalidServiceName = Sentinel ''service name must not be empty''"

definition ErrServiceTypeMismatch :: gerror where
  "ErrServiceTypeMismatch = Sentinel ''service type mismatch''"

definition ErrServiceNil :: gerror where
  "ErrServiceNil = Sentinel ''service must not be nil''"

definition ErrInvalidLifecycleState :: gerror where
  "ErrInvalidLifecycleState = Sentinel ''invalid lifecycle state''"

definition ErrNoConfigLoader :: gerror where
  "ErrNoConfigLoader = Sentinel ''no config loader configured''"

definition ErrInvalidPanicPolicy :: gerror where
  "ErrInvalidPanicPolicy = Sentinel ''invalid panic policy''"

definition ErrInvalidHealthCheckName :: gerror where
  "ErrInvalidHealthCheckName = Sentinel ''health check name must not be empty''"

definition ErrInvalidReadinessCheckName :: gerror where
  "ErrInvalidReadinessCheckName = Sentinel ''readiness check name must not be empty''"

definition ErrHealthCheckNil :: gerror where
  "ErrHealthCheckNil = Sentinel ''health check function must not be nil''"

definition ErrReadinessCheckNil :: gerror where
  "ErrReadinessCheckNil = Sentinel ''readiness check function must not be nil''"

definition ErrTaskHandleNotStarted :: gerror where
  "ErrTaskHandleNotStarted = Sentinel ''modulex: task handle has no backing task to wait for''"

lemmas sentinel_defs =
  ErrCircularDependency_def ErrServiceNotFound_def ErrRegistryLocked_def ErrModuleNil_def
  ErrInvalidModuleName_def ErrDuplicateModule_def ErrDuplicateService_def ErrDuplicateTask_def
  ErrInvalidTaskName_def ErrDependencyNotFound_def ErrSelfDependency_def
  ErrInvalidDependencyName_def ErrInvalidServiceName_def ErrServiceTypeMismatch_def
  ErrServiceNil_def ErrInvalidLifecycleState_def ErrNoConfigLoader_def ErrInvalidPanicPolicy_def
  ErrInvalidHealthCheckName_def ErrInvalidReadinessCheckName_def ErrHealthCheckNil_def
  ErrReadinessCheckNil_def ErrTaskHandleNotStarted_def


section \<open>Lifecycle states\<close>

datatype lifecycle_state =
    StateConfiguring
  | StateInitializing
  | StateInitialized
  | StateStarting
  | StateRunning
  | StateStopping
  | StateStopped

fun lifecycle_state_String :: "lifecycle_state \<Rightarrow> string" where
  "lifecycle_state_String StateConfiguring = ''configuring''"
| "lifecycle_state_String StateInitializing = ''initializing''"
| "lifecycle_state_String StateInitialized = ''initialized''"
| "lifecycle_state_String StateStarting = ''starting''"
| "lifecycle_state_String StateRunning = ''running''"
| "lifecycle_state_String StateStopping = ''stopping''"
| "lifecycle_state_String StateStopped = ''stopped''"

text \<open>The \<open>iota\<close> value of a state; the states are ordered by it, so that the order of the
  lifecycle is available to the library's automation on linear orders.\<close>

fun state_rank :: "lifecycle_state \<Rightarrow> nat" where
  "state_rank StateConfiguring = 0"
| "state_rank StateInitializing = 1"
| "state_rank StateInitialized = 2"
| "state_rank StateStarting = 3"
| "state_rank StateRunning = 4"
| "state_rank StateStopping = 5"
| "state_rank StateStopped = 6"

lemma state_rank_inj [simp]: "state_rank a = state_rank b \<longleftrightarrow> a = b"
  by (cases a; cases b) simp_all

instantiation lifecycle_state :: linorder
begin

definition less_eq_lifecycle_state :: "lifecycle_state \<Rightarrow> lifecycle_state \<Rightarrow> bool" where
  "less_eq_lifecycle_state a b \<longleftrightarrow> state_rank a \<le> state_rank b"

definition less_lifecycle_state :: "lifecycle_state \<Rightarrow> lifecycle_state \<Rightarrow> bool" where
  "less_lifecycle_state a b \<longleftrightarrow> state_rank a < state_rank b"

instance
  by standard (auto simp: less_eq_lifecycle_state_def less_lifecycle_state_def)

end

lemmas state_order_defs = less_eq_lifecycle_state_def less_lifecycle_state_def

lemma StateStopped_greatest [simp]: "s \<le> StateStopped"
  by (cases s) (simp_all add: state_order_defs)

lemma StateConfiguring_least [simp]: "StateConfiguring \<le> s"
  by (cases s) (simp_all add: state_order_defs)


section \<open>Interface values\<close>

text \<open>The reflection kinds \<open>isNilServiceValue\<close> distinguishes; \<open>KindOther\<close> is any kind
  whose values are never nil (numbers, strings, structs, arrays).\<close>

datatype kind =
    KindChan | KindFunc | KindInterface | KindMap | KindPointer | KindSlice | KindUnsafePointer
  | KindOther

text \<open>An \<open>interface{}\<close> value: nil, or a dynamic type (its name and kind), whether the
  concrete value is nil, and an identity.\<close>

datatype iface =
    INil
  | IVal (dyn_type: string) (dyn_kind: kind) (dyn_nil: bool) (dyn_id: nat)


section \<open>Modules\<close>

type_synonym check_fn = nat

text \<open>How a call of user code ends: it returns an error value or panics.\<close>

datatype outcome =
    Returns "gerror option"
  | Panics string

datatype reg_op =
    OpRegisterService string iface
  | OpResolveService string
  | OpGetConfig iface
  | OpGo string bool  \<comment> \<open>task name, and whether a function is given\<close>
  | OpRegisterHealthCheck string "check_fn option"
  | OpRegisterReadinessCheck string "check_fn option"

datatype reg_resp =
    RespErr "gerror option"
  | RespService "gerror + iface"
  | RespTask "gerror + nat"

datatype prog =
    Ret "gerror option"
  | Call reg_op "reg_resp \<Rightarrow> prog"
  | Finish string outcome prog

record gomodule =
  mod_Name :: string
  mod_DependsOn :: "string list"
  mod_Init :: prog
  mod_Start :: "prog option"  \<comment> \<open>\<open>None\<close>: the module is not a \<open>Starter\<close>\<close>
  mod_Stop :: "prog option"   \<comment> \<open>\<open>None\<close>: the module is not a \<open>Stopper\<close>\<close>

text \<open>The key a module is registered under.\<close>

abbreviation mod_key :: "gomodule \<Rightarrow> string" where
  "mod_key md \<equiv> TrimSpace (mod_Name md)"

end
