(* ===== verification/Topo.thy ===== *)
theory Topo
  imports Modules
begin

text \<open>
  The topological sort of \<open>src/modulex.go\<close> (\<open>topoSorter\<close> and
  \<open>Manager.sortModules\<close>): a depth-first traversal with three visit states that emits a
  module after its dependencies, reports empty, self and missing dependencies, and reports a
  cycle with the path that closes it.

  The traversal's state is a record passed through the calls; the nested recursion terminates
  because every call that goes deeper marks one more registered module as visiting
  (\<open>unvisited\<close> decreases). The lemmas show that a successful sort lists every module
  exactly once with its dependencies before it, that it fails only with evidence of a defect
  of the dependency graph, and that it keeps a registration order that is already
  topological.
\<close>

section \<open>The traversal\<close>

datatype visitState = stateUnvisited | stateVisiting | stateVisited

record topoSorter =
  ts_modules :: "gomodule gomap"
  ts_state :: "string \<Rightarrow> visitState"
  ts_order :: "gomodule list"
  ts_path :: "string list"

fun cycleStart :: "nat \<Rightarrow> string list \<Rightarrow> string \<Rightarrow> nat" where
  "cycleStart i [] name = 0"
| "cycleStart i (n # ns) name = (if n = name then i else cycleStart (Suc i) ns name)"

definition circularError :: "string list \<Rightarrow> gerror" where
  "circularError cycle =
     Errorf [Wrapped ErrCircularDependency, Lit '': '', Lit (strings_Join cycle '' -> '')]"

definition cycleError :: "topoSorter \<Rightarrow> string \<Rightarrow> gerror" where
  "cycleError ts name =
     (let start = cycleStart 0 (ts_path ts) name;
          cycle = drop start (ts_path ts) @ [name]
      in circularError cycle)"

definition notFoundError :: "string \<Rightarrow> gerror" where
  "notFoundError name = Errorf [Wrapped ErrDependencyNotFound, Lit '': '', Quoted name]"

definition selfError :: "string \<Rightarrow> gerror" where
  "selfError name = Errorf [Wrapped ErrSelfDependency, Lit '': '', Quoted name]"

definition emptyDepError :: "string \<Rightarrow> gerror" where
  "emptyDepError name =
     Errorf [Wrapped ErrInvalidDependencyName, Lit '': module '', Quoted name,
             Lit '' has an empty dependency name'']"

definition unvisited :: "topoSorter \<Rightarrow> nat" where
  "unvisited ts = length (filter (\<lambda>k. ts_state ts k = stateUnvisited) (map fst (ts_modules ts)))"

definition enter :: "string \<Rightarrow> topoSorter \<Rightarrow> topoSorter" where
  "enter name ts = ts\<lparr>ts_state := (ts_state ts)(name := stateVisiting), ts_path := ts_path ts @ [name]\<rparr>"

definition leave :: "string \<Rightarrow> topoSorter \<Rightarrow> topoSorter" where
  "leave name ts = ts\<lparr>ts_path := butlast (ts_path ts), ts_state := (ts_state ts)(name := stateVisited)\<rparr>"

definition emit :: "gomodule \<Rightarrow> topoSorter \<Rightarrow> topoSorter" where
  "emit md ts = ts\<lparr>ts_order := ts_order ts @ [md]\<rparr>"

function (sequential)
    visit :: "string \<Rightarrow> topoSorter \<Rightarrow> gerror option \<times> topoSorter"
and visitDependency :: "string \<Rightarrow> string \<Rightarrow> topoSorter \<Rightarrow> gerror option \<times> topoSorter"
and visitDependencies :: "string \<Rightarrow> string list \<Rightarrow> topoSorter \<Rightarrow> gerror option \<times> topoSorter" where
  "visit name ts =
     (case ts_state ts name of
        stateVisiting \<Rightarrow> (Some (cycleError ts name), ts)
      | stateVisited \<Rightarrow> (None, ts)
      | stateUnvisited \<Rightarrow>
          (case map_of (ts_modules ts) name of
             None \<Rightarrow> (Some (notFoundError name), ts)
           | Some md \<Rightarrow>
               (case visitDependencies name (mod_DependsOn md) (enter name ts) of
                  (Some e, ts') \<Rightarrow> (Some e, leave name ts')
                | (None, ts') \<Rightarrow> (None, leave name (emit md ts')))))"
| "visitDependency name depName ts =
     (if depName = [] then (Some (emptyDepError name), ts)
      else if depName = name then (Some (selfError name), ts)
      else visit depName ts)"
| "visitDependencies name [] ts = (None, ts)"
| "visitDependencies name (d # ds) ts =
     (case visitDependency name (TrimSpace d) ts of
        (Some e, ts') \<Rightarrow> (Some e, ts')
      | (None, ts') \<Rightarrow> visitDependencies name ds ts')"
  by pat_completeness auto

definition shrinks :: "topoSorter \<Rightarrow> topoSorter \<Rightarrow> bool" where
  "shrinks ts ts' \<longleftrightarrow> ts_modules ts' = ts_modules ts
     \<and> (\<forall>k. ts_state ts' k = stateUnvisited \<longrightarrow> ts_state ts k = stateUnvisited)"

lemma shrinks_refl [simp, intro]: "shrinks ts ts"
  by (simp add: shrinks_def)

lemma shrinks_trans: "shrinks a b \<Longrightarrow> shrinks b c \<Longrightarrow> shrinks a c"
  by (auto simp: shrinks_def)

lemma shrinks_enter [simp]: "shrinks ts (enter name ts)"
  by (auto simp: shrinks_def enter_def)

lemma shrinks_leave [simp]: "shrinks ts (leave name ts)"
  by (auto simp: shrinks_def leave_def)

lemma shrinks_emit [simp]: "shrinks ts (emit md ts)"
  by (auto simp: shrinks_def emit_def)

lemma shrinks_step:
  assumes "shrinks a b"
  shows "shrinks a (leave name b)" "shrinks a (leave name (emit md b))"
  using assms shrinks_trans shrinks_leave shrinks_emit by blast+

lemma length_filter_mono:
  "(\<And>x. x \<in> set xs \<Longrightarrow> P x \<Longrightarrow> Q x) \<Longrightarrow> length (filter P xs) \<le> length (filter Q xs)"
  by (induction xs) (auto simp: le_Suc_eq)

lemma length_filter_strict:
  assumes "\<And>x. P x \<Longrightarrow> Q x" and "y \<in> set xs" and "Q y" and "\<not> P y"
  shows "length (filter P xs) < length (filter Q xs)"
  using assms(2)
proof (induction xs)
  case Nil
  then show ?case by simp
next
  case (Cons x xs)
  have le: "length (filter P xs) \<le> length (filter Q xs)"
    by (rule length_filter_mono) (simp add: assms(1))
  show ?case
  proof (cases "x = y")
    case True
    then show ?thesis using le assms(3,4) by simp
  next
    case False
    then have "length (filter P xs) < length (filter Q xs)"
      using Cons by simp
    then show ?thesis using assms(1) [of x] by auto
  qed
qed

lemma unvisited_mono: "shrinks ts ts' \<Longrightarrow> unvisited ts' \<le> unvisited ts"
  by (auto simp: shrinks_def unvisited_def intro!: length_filter_mono)

lemma unvisited_enter:
  assumes "ts_state ts name = stateUnvisited" and "map_of (ts_modules ts) name = Some md"
  shows "unvisited (enter name ts) < unvisited ts"
proof -
  have "ts_modules (enter name ts) = ts_modules ts"
    by (simp add: enter_def)
  moreover have "length (filter (\<lambda>k. ts_state (enter name ts) k = stateUnvisited) (map fst (ts_modules ts)))
      < length (filter (\<lambda>k. ts_state ts k = stateUnvisited) (map fst (ts_modules ts)))"
  proof (rule length_filter_strict)
    show "name \<in> set (map fst (ts_modules ts))"
      using map_of_SomeD [OF assms(2)] by force
  qed (use assms(1) in \<open>auto simp: enter_def split: if_splits\<close>)
  ultimately show ?thesis by (simp add: unvisited_def)
qed

lemma visit_shrinks:
  "visit_visitDependency_visitDependencies_dom (Inl (name, ts)) \<Longrightarrow>
     shrinks ts (snd (visit name ts))"
  "visit_visitDependency_visitDependencies_dom (Inr (Inl (name, d, ts))) \<Longrightarrow>
     shrinks ts (snd (visitDependency name d ts))"
  "visit_visitDependency_visitDependencies_dom (Inr (Inr (name, ds, ts))) \<Longrightarrow>
     shrinks ts (snd (visitDependencies name ds ts))"
proof (induction rule: visit_visitDependency_visitDependencies.pinduct)
  case (1 name ts)
  have "shrinks ts (snd (visitDependencies name (mod_DependsOn md) (enter name ts)))"
    if "ts_state ts name = stateUnvisited" "map_of (ts_modules ts) name = Some md" for md
    using 1(2) [OF that] shrinks_enter shrinks_trans by blast
  then show ?case
    unfolding visit.psimps [OF 1(1)]
    by (auto split: visitState.splits option.splits prod.splits intro: shrinks_step)
next
  case (2 name depName ts)
  then show ?case
    unfolding visitDependency.psimps [OF 2(1)] by simp
next
  case (3 name ts)
  then show ?case by (simp add: visitDependencies.psimps)
next
  case (4 name d ds ts)
  show ?case
    unfolding visitDependencies.psimps(2) [OF 4(1)]
    using 4(2,3)
    by (fastforce split: prod.splits option.splits intro: shrinks_trans)
qed

termination visit
proof (relation "measures [case_sum (\<lambda>(name, ts). unvisited ts)
     (case_sum (\<lambda>(name, d, ts). unvisited ts) (\<lambda>(name, ds, ts). unvisited ts)),
   case_sum (\<lambda>_. 0) (case_sum (\<lambda>_. 1) (\<lambda>(name, ds, ts). 2 + length ds))]", goal_cases)
  case (4 name d ds ts)
  then show ?case by simp
next
  case (5 name d ds ts e ts')
  then have "shrinks ts ts'"
    using visit_shrinks(2) [of name "TrimSpace d" ts] by (metis snd_conv)
  then show ?case
    using unvisited_mono [of ts ts'] by auto
qed (auto simp: unvisited_enter)

declare visit.simps [simp del]

fun sortModules_loop :: "string list \<Rightarrow> topoSorter \<Rightarrow> gerror option \<times> topoSorter" where
  "sortModules_loop [] ts = (None, ts)"
| "sortModules_loop (name # names) ts =
     (if ts_state ts name = stateUnvisited
      then (case visit name ts of
              (Some e, ts') \<Rightarrow> (Some e, ts')
            | (None, ts') \<Rightarrow> sortModules_loop names ts')
      else sortModules_loop names ts)"

definition newTopoSorter :: "gomodule gomap \<Rightarrow> topoSorter" where
  "newTopoSorter mods =
     \<lparr>ts_modules = mods, ts_state = (\<lambda>_. stateUnvisited), ts_order = [], ts_path = []\<rparr>"

definition sortModules :: "gomodule gomap \<Rightarrow> string list \<Rightarrow> gomodule list result" where
  "sortModules mods moduleOrder =
     (case sortModules_loop moduleOrder (newTopoSorter mods) of
        (Some e, _) \<Rightarrow> Inl e
      | (None, ts) \<Rightarrow> Inr (ts_order ts))"


section \<open>Dependency graphs\<close>

text \<open>The dependency names of a module as the sort reads them, the edges they give, and what
  makes a dependency graph unsortable.\<close>

definition deps_of :: "gomodule \<Rightarrow> string list" where
  "deps_of md = map TrimSpace (mod_DependsOn md)"

definition edge :: "gomodule gomap \<Rightarrow> string \<Rightarrow> string \<Rightarrow> bool" where
  "edge mods a b \<longleftrightarrow> (case map_of mods a of None \<Rightarrow> False | Some md \<Rightarrow> b \<in> set (deps_of md))"

fun chain :: "gomodule gomap \<Rightarrow> string list \<Rightarrow> bool" where
  "chain mods (a # b # p) \<longleftrightarrow> edge mods a b \<and> chain mods (b # p)"
| "chain mods _ \<longleftrightarrow> True"

definition is_cycle :: "gomodule gomap \<Rightarrow> string list \<Rightarrow> bool" where
  "is_cycle mods c \<longleftrightarrow> 2 \<le> length c \<and> hd c = last c \<and> chain mods c"

text \<open>An error of the sort together with the part of the graph that justifies it.\<close>

inductive justified :: "gomodule gomap \<Rightarrow> gerror \<Rightarrow> bool" for mods where
  cycle: "is_cycle mods c \<Longrightarrow> justified mods (circularError c)"
| missing: "edge mods n d \<Longrightarrow> map_of mods d = None \<Longrightarrow> justified mods (notFoundError d)"
| self: "edge mods n n \<Longrightarrow> justified mods (selfError n)"
| empty: "edge mods n [] \<Longrightarrow> justified mods (emptyDepError n)"

text \<open>Every module comes after the modules it depends on.\<close>

definition topo_order :: "gomodule list \<Rightarrow> bool" where
  "topo_order ms \<longleftrightarrow> (\<forall>i < length ms. set (deps_of (ms ! i)) \<subseteq> mod_key ` set (take i ms))"

text \<open>The module table as \<open>RegisterModule\<close> builds it: keyed by the trimmed, non-empty
  name, without duplicates.\<close>

definition wf_modules :: "gomodule gomap \<Rightarrow> bool" where
  "wf_modules mods \<longleftrightarrow> distinct (map fst mods)
     \<and> (\<forall>(k, md) \<in> set mods. k = mod_key md \<and> k \<noteq> [])"

lemma wf_modules_lookup:
  "wf_modules mods \<Longrightarrow> map_of mods k = Some md \<Longrightarrow> mod_key md = k \<and> k \<noteq> []"
  by (auto simp: wf_modules_def dest!: map_of_SomeD)

lemma topo_order_Nil [simp]: "topo_order []"
  by (simp add: topo_order_def)

lemma topo_order_snoc [simp]:
  "topo_order (ms @ [m]) \<longleftrightarrow> topo_order ms \<and> set (deps_of m) \<subseteq> mod_key ` set ms"
  by (force simp: topo_order_def nth_append less_Suc_eq)

lemma chain_snoc:
  "chain mods (p @ [b]) \<longleftrightarrow> chain mods p \<and> (p = [] \<or> edge mods (last p) b)"
  by (induction p rule: induct_list012) auto

lemma chain_drop: "chain mods p \<Longrightarrow> chain mods (drop n p)"
proof (induction p arbitrary: n rule: induct_list012)
  case (3 x y zs)
  then show ?case by (cases n) auto
qed (auto simp: drop_Cons split: nat.splits)

lemma edge_registered: "edge mods a b \<Longrightarrow> map_of mods a \<noteq> None"
  by (auto simp: edge_def split: option.splits)

lemma cycleStart_found:
  "name \<in> set p \<Longrightarrow> \<exists>k < length p. cycleStart i p name = i + k \<and> p ! k = name"
proof (induction p arbitrary: i)
  case (Cons n p)
  show ?case
  proof (cases "n = name")
    case False
    then obtain k where "k < length p" "cycleStart (Suc i) p name = Suc i + k" "p ! k = name"
      using Cons.IH [of "Suc i"] Cons.prems by auto
    then show ?thesis
      using False by (intro exI [where x = "Suc k"]) simp
  qed auto
qed simp

text \<open>The path from the first occurrence of a visiting module, closed by it, is a cycle.\<close>

lemma cycleError_justified:
  assumes "chain mods (ts_path ts)" and "name \<in> set (ts_path ts)"
    and "edge mods (last (ts_path ts)) name"
  shows "justified mods (cycleError ts name)"
proof -
  obtain k where k: "k < length (ts_path ts)" "cycleStart 0 (ts_path ts) name = k"
      "ts_path ts ! k = name"
    using cycleStart_found [OF assms(2), of 0] by auto
  have "chain mods (drop k (ts_path ts) @ [name])"
    using assms(1,3) k(1) by (simp add: chain_snoc chain_drop)
  moreover have "hd (drop k (ts_path ts)) = name"
    using k by (simp add: hd_drop_conv_nth)
  ultimately have "is_cycle mods (drop k (ts_path ts) @ [name])"
    using k(1) by (auto simp: is_cycle_def hd_append)
  then show ?thesis
    using k(2) by (simp add: cycleError_def justified.cycle)
qed


section \<open>The traversal's invariant\<close>

text \<open>Between two calls: the path is the chain of visiting modules and the order lists exactly
  the visited modules, each after its dependencies.\<close>

definition traversal_ok :: "topoSorter \<Rightarrow> bool" where
  "traversal_ok ts \<longleftrightarrow>
     wf_modules (ts_modules ts) \<and>
     chain (ts_modules ts) (ts_path ts) \<and>
     set (ts_path ts) = {k. ts_state ts k = stateVisiting} \<and>
     topo_order (ts_order ts) \<and>
     distinct (map mod_key (ts_order ts)) \<and>
     mod_key ` set (ts_order ts) = {k. ts_state ts k = stateVisited} \<and>
     (\<forall>md \<in> set (ts_order ts). map_of (ts_modules ts) (mod_key md) = Some md)"

text \<open>What a call that returns nil promises of the state it leaves.\<close>

definition advances :: "topoSorter \<Rightarrow> topoSorter \<Rightarrow> bool" where
  "advances ts ts' \<longleftrightarrow> traversal_ok ts' \<and> ts_modules ts' = ts_modules ts
     \<and> ts_path ts' = ts_path ts
     \<and> (\<forall>k. ts_state ts k = stateVisited \<longrightarrow> ts_state ts' k = stateVisited)"

lemma advances_trans: "advances a b \<Longrightarrow> advances b c \<Longrightarrow> advances a c"
  by (auto simp: advances_def)

lemma enter_simps [simp]:
  "ts_modules (enter name ts) = ts_modules ts"
  "ts_path (enter name ts) = ts_path ts @ [name]"
  by (simp_all add: enter_def)

lemma enter_ok:
  assumes "traversal_ok ts" and "ts_state ts name = stateUnvisited"
    and "ts_path ts = [] \<or> edge (ts_modules ts) (last (ts_path ts)) name"
  shows "traversal_ok (enter name ts)"
proof -
  have "insert name {k. ts_state ts k = stateVisiting} = {k. ((ts_state ts)(name := stateVisiting)) k = stateVisiting}"
    by auto
  moreover have "{k. ts_state ts k = stateVisited} = {k. ((ts_state ts)(name := stateVisiting)) k = stateVisited}"
    using assms(2) by auto
  ultimately show ?thesis
    using assms(1,3) unfolding traversal_ok_def enter_def by (auto simp: chain_snoc)
qed

lemma leave_emit_ok:
  assumes ok: "traversal_ok ts" and st: "ts_state ts name = stateUnvisited"
    and md: "map_of (ts_modules ts) name = Some md"
    and adv: "advances (enter name ts) ts'"
    and deps: "\<forall>d \<in> set (deps_of md). ts_state ts' d = stateVisited"
  shows "advances ts (leave name (emit md ts'))"
proof -
  have key: "mod_key md = name"
    using ok md wf_modules_lookup by (auto simp: traversal_ok_def)
  have path: "ts_path ts' = ts_path ts @ [name]" and mods: "ts_modules ts' = ts_modules ts"
    and ok': "traversal_ok ts'"
    using adv by (simp_all add: advances_def enter_def)
  have "name \<notin> set (ts_path ts)"
    using ok st by (auto simp: traversal_ok_def)
  moreover have visiting: "set (ts_path ts') = {k. ts_state ts' k = stateVisiting}"
    using ok' by (simp add: traversal_ok_def)
  ultimately have p: "set (ts_path ts) = {k. ts_state (leave name (emit md ts')) k = stateVisiting}"
    unfolding path leave_def emit_def by auto
  have vis: "mod_key ` set (ts_order ts') = {k. ts_state ts' k = stateVisited}"
    using ok' by (simp add: traversal_ok_def)
  have "ts_state ts' name = stateVisiting"
    using visiting path by auto
  then have fresh: "name \<notin> mod_key ` set (ts_order ts')"
    by (auto simp: vis)
  have o: "mod_key ` set (ts_order ts' @ [md]) = {k. ts_state (leave name (emit md ts')) k = stateVisited}"
    using vis key by (auto simp: leave_def emit_def)
  have t: "topo_order (ts_order ts' @ [md])"
    using ok' deps vis by (auto simp: traversal_ok_def)
  have d: "distinct (map mod_key (ts_order ts' @ [md]))"
    using ok' fresh key by (simp add: traversal_ok_def)
  have lk: "\<forall>m \<in> set (ts_order ts' @ [md]). map_of (ts_modules ts) (mod_key m) = Some m"
    using ok' key md mods by (auto simp: traversal_ok_def)
  have st': "\<forall>k. ts_state ts k = stateVisited \<longrightarrow> ts_state (leave name (emit md ts')) k = stateVisited"
    using adv by (auto simp: advances_def enter_def leave_def emit_def)
  have f: "ts_path (leave name (emit md ts')) = ts_path ts"
      "ts_modules (leave name (emit md ts')) = ts_modules ts"
      "ts_order (leave name (emit md ts')) = ts_order ts' @ [md]"
    using path mods by (simp_all add: leave_def emit_def)
  show ?thesis
    using ok p o t d lk st' unfolding advances_def traversal_ok_def f by blast
qed

text \<open>The contract of the three mutually recursive functions: nil means the invariant holds
  again with the visited module (or dependencies) marked, and an error is justified.\<close>

lemma visit_contract:
  "traversal_ok ts \<Longrightarrow>
   (if ts_path ts = [] then map_of (ts_modules ts) name \<noteq> None
    else edge (ts_modules ts) (last (ts_path ts)) name) \<Longrightarrow>
   (case visit name ts of
      (Some e, _) \<Rightarrow> justified (ts_modules ts) e
    | (None, ts') \<Rightarrow> advances ts ts' \<and> ts_state ts' name = stateVisited)"
  "traversal_ok ts \<Longrightarrow> ts_path ts \<noteq> [] \<Longrightarrow> last (ts_path ts) = name \<Longrightarrow>
   edge (ts_modules ts) name d \<Longrightarrow>
   (case visitDependency name d ts of
      (Some e, _) \<Rightarrow> justified (ts_modules ts) e
    | (None, ts') \<Rightarrow> advances ts ts' \<and> ts_state ts' d = stateVisited)"
  "traversal_ok ts \<Longrightarrow> ts_path ts \<noteq> [] \<Longrightarrow> last (ts_path ts) = name \<Longrightarrow>
   \<forall>d \<in> set ds. edge (ts_modules ts) name (TrimSpace d) \<Longrightarrow>
   (case visitDependencies name ds ts of
      (Some e, _) \<Rightarrow> justified (ts_modules ts) e
    | (None, ts') \<Rightarrow> advances ts ts' \<and> (\<forall>d \<in> set ds. ts_state ts' (TrimSpace d) = stateVisited))"
proof (induction rule: visit_visitDependency_visitDependencies.induct)
  case (1 name ts)
  show ?case
  proof (cases "ts_state ts name")
    case stateVisiting
    then have m: "name \<in> set (ts_path ts)"
      using 1(2) by (simp add: traversal_ok_def)
    then have "ts_path ts \<noteq> []" by auto
    then have "justified (ts_modules ts) (cycleError ts name)"
      using 1(2,3) m cycleError_justified by (simp add: traversal_ok_def)
    then show ?thesis
      using stateVisiting by (simp add: visit.simps)
  next
    case stateVisited
    then show ?thesis
      using 1(2) by (simp add: visit.simps advances_def)
  next
    case stateUnvisited
    show ?thesis
    proof (cases "map_of (ts_modules ts) name")
      case None
      then show ?thesis
        using 1(3) stateUnvisited by (auto simp: visit.simps split: if_splits intro: justified.missing)
    next
      case (Some md)
      have "\<forall>d \<in> set (mod_DependsOn md). edge (ts_modules ts) name (TrimSpace d)"
        using Some by (simp add: edge_def deps_of_def)
      then have "case visitDependencies name (mod_DependsOn md) (enter name ts) of
          (Some e, _) \<Rightarrow> justified (ts_modules ts) e
        | (None, ts') \<Rightarrow> advances (enter name ts) ts' \<and> (\<forall>d \<in> set (deps_of md). ts_state ts' d = stateVisited)"
        using 1(1) [OF stateUnvisited Some] enter_ok [OF 1(2) stateUnvisited] 1(3)
        by (auto simp: deps_of_def split: if_splits option.splits)
      then show ?thesis
        using stateUnvisited Some leave_emit_ok [OF 1(2) stateUnvisited Some]
        by (auto simp: visit.simps leave_def split: option.splits prod.splits)
    qed
  qed
next
  case (2 name d ts)
  then show ?case
    by (auto intro: justified.empty justified.self)
next
  case (3 name ts)
  then show ?case by (simp add: advances_def)
next
  case (4 name d ds ts)
  obtain r ts' where r: "visitDependency name (TrimSpace d) ts = (r, ts')"
    by fastforce
  have c: "case r of Some e \<Rightarrow> justified (ts_modules ts) e
      | None \<Rightarrow> advances ts ts' \<and> ts_state ts' (TrimSpace d) = stateVisited"
    using 4(1) [OF 4(3,4,5)] 4(6) r by simp
  show ?case
  proof (cases r)
    case None
    then have adv: "advances ts ts'" "ts_state ts' (TrimSpace d) = stateVisited"
      using c by simp_all
    then have same: "traversal_ok ts'" "ts_modules ts' = ts_modules ts" "ts_path ts' = ts_path ts"
      by (simp_all add: advances_def)
    then have "case visitDependencies name ds ts' of
        (Some e, _) \<Rightarrow> justified (ts_modules ts) e
      | (None, ts'') \<Rightarrow> advances ts' ts'' \<and> (\<forall>d \<in> set ds. ts_state ts'' (TrimSpace d) = stateVisited)"
      using 4(2) [OF r [symmetric] None] 4(4,5,6)
      by (simp add: same split: prod.splits option.splits)
    then show ?thesis
      using r None adv by (auto simp: advances_def split: option.splits prod.splits)
  qed (use r c in simp)
qed


section \<open>Correctness of the sort\<close>

lemma sortModules_loop_contract:
  assumes "traversal_ok ts" and "ts_path ts = []"
    and "\<forall>n \<in> set names. map_of (ts_modules ts) n \<noteq> None"
  shows "case sortModules_loop names ts of
      (Some e, _) \<Rightarrow> justified (ts_modules ts) e
    | (None, ts') \<Rightarrow> advances ts ts' \<and> (\<forall>n \<in> set names. ts_state ts' n = stateVisited)"
  using assms
proof (induction names arbitrary: ts)
  case Nil
  then show ?case by (simp add: advances_def)
next
  case (Cons n names)
  have idle: "{k. ts_state ts k = stateVisiting} = {}"
    using Cons.prems by (simp add: traversal_ok_def)
  obtain r ts1 where r: "visit n ts = (r, ts1)"
    by fastforce
  have c: "case r of Some e \<Rightarrow> justified (ts_modules ts) e
      | None \<Rightarrow> advances ts ts1 \<and> ts_state ts1 n = stateVisited"
    using visit_contract(1) [of ts n] Cons.prems r by simp
  show ?case
  proof (cases r)
    case (Some e)
    then have "ts_state ts n = stateUnvisited"
      using r idle by (cases "ts_state ts n") (auto simp: visit.simps)
    then show ?thesis using Some r c by simp
  next
    case None
    then have adv: "advances ts ts1" "ts_state ts1 n = stateVisited"
      using c by simp_all
    have step: "sortModules_loop (n # names) ts = sortModules_loop names ts1"
      using r None idle by (cases "ts_state ts n") (auto simp: visit.simps)
    have same: "traversal_ok ts1" "ts_path ts1 = []" "ts_modules ts1 = ts_modules ts"
      using adv(1) Cons.prems(2) by (simp_all add: advances_def)
    then have "\<forall>n \<in> set names. map_of (ts_modules ts1) n \<noteq> None"
      using Cons.prems(3) by simp
    from Cons.IH [OF same(1,2) this] show ?thesis
      unfolding step using adv same
      by (auto simp: advances_def split: prod.splits option.splits)
  qed
qed

lemma newTopoSorter_ok:
  "wf_modules mods \<Longrightarrow> traversal_ok (newTopoSorter mods)"
  "ts_path (newTopoSorter mods) = []" "ts_modules (newTopoSorter mods) = mods"
  by (simp_all add: traversal_ok_def newTopoSorter_def)

text \<open>The arguments \<open>InitModules\<close> gives the sort: the module table and the registration
  order, which lists its keys once each.\<close>

definition wf_registration :: "gomodule gomap \<Rightarrow> string list \<Rightarrow> bool" where
  "wf_registration mods moduleOrder \<longleftrightarrow>
     wf_modules mods \<and> distinct moduleOrder \<and> set moduleOrder = fst ` set mods"

lemma wf_registration_lookup:
  "wf_registration mods ord \<Longrightarrow> \<forall>n \<in> set ord. map_of mods n \<noteq> None"
  by (auto simp: wf_registration_def weak_map_of_SomeI)

lemma sortModules_error:
  assumes "wf_registration mods ord" and "sortModules mods ord = Inl e"
  shows "justified mods e"
  using assms sortModules_loop_contract [of "newTopoSorter mods" ord] wf_registration_lookup [of mods ord]
  by (auto simp: sortModules_def wf_registration_def newTopoSorter_ok split: prod.splits option.splits)

lemma mset_by_keys:
  assumes "wf_modules mods" and "distinct (map mod_key ms)"
    and "mod_key ` set ms = fst ` set mods"
    and "\<forall>md \<in> set ms. map_of mods (mod_key md) = Some md"
  shows "mset ms = mset (map snd mods)"
proof -
  have keys: "map mod_key (map snd mods) = map fst mods"
    using assms(1) by (auto simp: wf_modules_def)
  then have d: "distinct (map snd mods)"
    using assms(1) by (metis distinct_map wf_modules_def)
  have "set ms \<subseteq> snd ` set mods"
    using assms(4) by (force dest: map_of_SomeD)
  moreover have "snd ` set mods \<subseteq> set ms"
  proof
    fix md
    assume "md \<in> snd ` set mods"
    then obtain k where k: "(k, md) \<in> set mods" by auto
    then have lk: "map_of mods k = Some md"
      using assms(1) by (simp add: wf_modules_def)
    from k have "k \<in> mod_key ` set ms"
      using assms(3) by force
    then show "md \<in> set ms"
      using assms(4) lk by auto
  qed
  ultimately have "set ms = set (map snd mods)" by auto
  then show ?thesis
    using d assms(2) set_eq_iff_mset_eq_distinct [of ms "map snd mods"] by (simp add: distinct_map)
qed

lemma sortModules_result:
  assumes wf: "wf_registration mods ord" and "sortModules mods ord = Inr ms"
  shows "topo_order ms" and "distinct (map mod_key ms)" and "mset ms = mset (map snd mods)"
    and "mod_key ` set ms = fst ` set mods"
    and "\<forall>md \<in> set ms. map_of mods (mod_key md) = Some md"
proof -
  obtain ts where ts: "sortModules_loop ord (newTopoSorter mods) = (None, ts)" "ts_order ts = ms"
    using assms(2) by (auto simp: sortModules_def split: prod.splits option.splits)
  then have c: "advances (newTopoSorter mods) ts" "\<forall>n \<in> set ord. ts_state ts n = stateVisited"
    using sortModules_loop_contract [of "newTopoSorter mods" ord] wf wf_registration_lookup [OF wf]
    by (simp_all add: wf_registration_def newTopoSorter_ok)
  then have ok: "traversal_ok ts" and mods: "ts_modules ts = mods"
    by (simp_all add: advances_def newTopoSorter_ok)
  show t: "topo_order ms" and d: "distinct (map mod_key ms)"
    and lk: "\<forall>md \<in> set ms. map_of mods (mod_key md) = Some md"
    using ok ts(2) mods by (auto simp: traversal_ok_def)
  have "fst ` set mods \<subseteq> mod_key ` set ms"
    using c(2) ok wf ts(2) by (auto simp: traversal_ok_def wf_registration_def)
  moreover have "mod_key ` set ms \<subseteq> fst ` set mods"
    using lk by (force dest: map_of_SomeD)
  ultimately show k: "mod_key ` set ms = fst ` set mods" by auto
  show "mset ms = mset (map snd mods)"
    using mset_by_keys [OF _ d k lk] wf by (simp add: wf_registration_def)
qed

text \<open>Positions in a topological order decrease along every edge, so it admits no cycle.\<close>

definition position :: "gomodule list \<Rightarrow> string \<Rightarrow> nat" where
  "position ms k = length (takeWhile (\<lambda>md. mod_key md \<noteq> k) ms)"

lemma position_less:
  "i \<le> length ms \<Longrightarrow> k \<in> mod_key ` set (take i ms) \<Longrightarrow> position ms k < i"
proof (induction ms arbitrary: i)
  case (Cons m ms)
  then show ?case by (cases i) (auto simp: position_def)
qed (simp add: position_def)

lemma position_nth: "k \<in> mod_key ` set ms \<Longrightarrow> position ms k < length ms \<and> mod_key (ms ! position ms k) = k"
  by (induction ms) (auto simp: position_def)

lemma position_edge:
  assumes "topo_order ms" and "mod_key ` set ms = fst ` set mods"
    and "\<forall>md \<in> set ms. map_of mods (mod_key md) = Some md" and "edge mods a b"
  shows "position ms b < position ms a"
proof -
  have "a \<in> mod_key ` set ms"
    using assms(2,4) by (force simp: edge_def dest: map_of_SomeD split: option.splits)
  then have p: "position ms a < length ms" "mod_key (ms ! position ms a) = a"
    using position_nth by auto
  then have "map_of mods a = Some (ms ! position ms a)"
    using assms(3) nth_mem by metis
  then have "b \<in> set (deps_of (ms ! position ms a))"
    using assms(4) by (simp add: edge_def)
  then show ?thesis
    using assms(1) p(1) position_less [of "position ms a" ms b] by (auto simp: topo_order_def)
qed

lemma chain_decreases:
  fixes f :: "string \<Rightarrow> nat"
  assumes "\<And>a b. edge mods a b \<Longrightarrow> f b < f a"
  shows "chain mods c \<Longrightarrow> 2 \<le> length c \<Longrightarrow> f (last c) < f (hd c)"
proof (induction c rule: induct_list012)
  case (3 x y zs)
  then show ?case
    using assms [of x y] by (cases zs) auto
qed auto

definition sortable :: "gomodule gomap \<Rightarrow> bool" where
  "sortable mods \<longleftrightarrow> (\<forall>a b. edge mods a b \<longrightarrow> map_of mods b \<noteq> None) \<and> (\<nexists>c. is_cycle mods c)"

lemma justified_not_sortable:
  assumes "wf_modules mods" and "justified mods e"
  shows "\<not> sortable mods"
  using assms(2)
proof cases
  case (self n)
  then have "is_cycle mods [n, n]" by (simp add: is_cycle_def)
  then show ?thesis by (auto simp: sortable_def)
next
  case (empty n)
  moreover have "map_of mods [] = None"
    using assms(1) wf_modules_lookup by (metis not_Some_eq)
  ultimately show ?thesis by (auto simp: sortable_def)
qed (auto simp: sortable_def)

lemma sortModules_iff:
  assumes wf: "wf_registration mods ord"
  shows "(\<exists>ms. sortModules mods ord = Inr ms) \<longleftrightarrow> sortable mods"
proof
  assume "\<exists>ms. sortModules mods ord = Inr ms"
  then obtain ms where ms: "sortModules mods ord = Inr ms" by auto
  note res = sortModules_result [OF wf ms]
  have dec: "position ms b < position ms a" if "edge mods a b" for a b
    using position_edge res that by blast
  have "map_of mods b \<noteq> None" if e: "edge mods a b" for a b
  proof -
    obtain md where md: "map_of mods a = Some md" "b \<in> set (deps_of md)"
      using e by (auto simp: edge_def split: option.splits)
    then have "md \<in> set ms"
      using res(3) by (metis in_set_conv_nth length_map map_of_SomeD nth_map set_mset_mset snd_conv)
    then obtain i where "i < length ms" "ms ! i = md"
      by (auto simp: in_set_conv_nth)
    then have "b \<in> mod_key ` set ms"
      using res(1) md(2) set_take_subset by (fastforce simp: topo_order_def)
    then show ?thesis
      using res(4) by (simp add: map_of_eq_None_iff)
  qed
  moreover have "\<not> is_cycle mods c" for c
    using chain_decreases [of mods "position ms" c] dec by (auto simp: is_cycle_def)
  ultimately show "sortable mods" by (auto simp: sortable_def)
next
  assume "sortable mods"
  then show "\<exists>ms. sortModules mods ord = Inr ms"
    using sortModules_error [OF wf] justified_not_sortable wf
    by (cases "sortModules mods ord") (auto simp: wf_registration_def)
qed

text \<open>A dependency that is already visited costs nothing, which is why a registration order
  that is topological is kept.\<close>

lemma visitDependencies_visited:
  "\<forall>d \<in> set ds. TrimSpace d \<noteq> [] \<and> TrimSpace d \<noteq> name \<and> ts_state ts (TrimSpace d) = stateVisited \<Longrightarrow>
   visitDependencies name ds ts = (None, ts)"
  by (induction ds) (simp_all add: visit.simps)

lemma sortModules_loop_stable:
  assumes "\<forall>n \<in> set (ns' @ ns). map_of mods n \<noteq> None" and "wf_modules mods" and "distinct (ns' @ ns)"
    and "topo_order (map (the \<circ> map_of mods) (ns' @ ns))"
    and "ts = \<lparr>ts_modules = mods, ts_state = (\<lambda>k. if k \<in> set ns' then stateVisited else stateUnvisited),
           ts_order = map (the \<circ> map_of mods) ns', ts_path = []\<rparr>"
  shows "\<exists>ts'. sortModules_loop ns ts = (None, ts') \<and> ts_order ts' = map (the \<circ> map_of mods) (ns' @ ns)"
  using assms
proof (induction ns arbitrary: ns' ts)
  case (Cons n ns)
  obtain md where md: "map_of mods n = Some md" using Cons.prems(1) by auto
  have keys: "mod_key ` set (map (the \<circ> map_of mods) ns') = set ns'"
    using Cons.prems(1,2) wf_modules_lookup by (force simp: image_image)
  have "map (the \<circ> map_of mods) (ns' @ n # ns) ! length ns' = md"
    using md by (simp add: nth_append)
  then have "set (deps_of md) \<subseteq> mod_key ` set (take (length ns') (map (the \<circ> map_of mods) (ns' @ n # ns)))"
    using Cons.prems(4) unfolding topo_order_def by (metis length_append length_map less_add_same_cancel1 length_Cons zero_less_Suc)
  then have deps: "set (deps_of md) \<subseteq> set ns'"
    using keys by simp
  have ne: "[] \<notin> set ns'" "n \<notin> set ns'"
    using Cons.prems(1-3) wf_modules_lookup by fastforce+
  have "visitDependencies n (mod_DependsOn md) (enter n ts) = (None, enter n ts)"
    using deps ne Cons.prems(5) by (intro visitDependencies_visited) (auto simp: deps_of_def enter_def)
  then have v: "visit n ts = (None, leave n (emit md (enter n ts)))"
    using md ne Cons.prems(5) by (simp add: visit.simps)
  have "leave n (emit md (enter n ts)) =
      \<lparr>ts_modules = mods, ts_state = (\<lambda>k. if k \<in> set (ns' @ [n]) then stateVisited else stateUnvisited),
       ts_order = map (the \<circ> map_of mods) (ns' @ [n]), ts_path = []\<rparr>"
    using Cons.prems(5) md by (auto simp: leave_def emit_def enter_def)
  from Cons.IH [OF _ _ _ _ this] show ?case
    using v ne Cons.prems by simp
qed simp


section \<open>Properties of the sort\<close>

text \<open>Two modules, the second depending on the first, and one that depends on a module of
  its own name; they serve as concrete inputs.\<close>

definition ex_module :: "string \<Rightarrow> string list \<Rightarrow> gomodule" where
  "ex_module name deps = \<lparr>mod_Name = name, mod_DependsOn = deps, mod_Init = Ret None,
     mod_Start = Some (Ret None), mod_Stop = Some (Ret None)\<rparr>"

definition ex_modules :: "gomodule gomap" where
  "ex_modules = [(''b'', ex_module ''b'' ['' a '']), (''a'', ex_module ''a'' [])]"

definition ex_cyclic :: "gomodule gomap" where
  "ex_cyclic = [(''a'', ex_module ''a'' [''b'']), (''b'', ex_module ''b'' [''a''])]"

lemmas sort_eval = sortModules_def newTopoSorter_def visit.simps enter_def leave_def emit_def
  ex_module_def ex_modules_def ex_cyclic_def TrimSpace_def is_space_def

lemma ex_modules_wf: "wf_registration ex_modules [''b'', ''a'']"
  by code_simp

lemma ex_modules_sorted:
  "sortModules ex_modules [''b'', ''a''] = Inr [ex_module ''a'' [], ex_module ''b'' ['' a '']]"
  by (simp add: sort_eval)

text \<open>C3. A successful sort returns every registered module exactly once, each after all the
  modules it depends on.\<close>

theorem sortModules_topological:
  assumes "wf_registration mods ord" and "sortModules mods ord = Inr ms"
  shows "topo_order ms \<and> mset ms = mset (map snd mods) \<and> distinct (map mod_key ms)"
  using sortModules_result [OF assms] by blast

theorem sortModules_topological_witness:
  "topo_order [ex_module ''a'' [], ex_module ''b'' ['' a '']]"
  using sortModules_topological [OF ex_modules_wf ex_modules_sorted] by blast

text \<open>C4. The sort succeeds exactly when every declared dependency is registered and the
  dependency graph has no cycle (an empty or a self dependency is such a defect).\<close>

theorem sortModules_succeeds_iff:
  assumes "wf_registration mods ord"
  shows "(\<exists>ms. sortModules mods ord = Inr ms) \<longleftrightarrow> sortable mods"
  using assms by (rule sortModules_iff)

theorem sortModules_succeeds_iff_witness: "sortable ex_modules"
  using sortModules_succeeds_iff [OF ex_modules_wf] ex_modules_sorted by blast

text \<open>C5. Every error of the sort is backed by the dependency graph: a reported cycle is a closed
  chain of declared dependencies, and an empty, self or missing dependency is declared by a
  registered module.\<close>

theorem sortModules_error_justified:
  assumes "wf_registration mods ord" and "sortModules mods ord = Inl e"
  shows "justified mods e"
  using assms by (rule sortModules_error)

theorem sortModules_error_justified_witness:
  "justified ex_cyclic (circularError [''a'', ''b'', ''a''])"
proof (rule sortModules_error_justified [of _ "[''a'', ''b'']"])
  show "wf_registration ex_cyclic [''a'', ''b'']" by code_simp
  show "sortModules ex_cyclic [''a'', ''b''] = Inl (circularError [''a'', ''b'', ''a''])"
    by (simp add: sort_eval cycleError_def)
qed

text \<open>The tie-break is the registration order: a registration order that already is a
  topological order is returned unchanged.\<close>

theorem sortModules_stable:
  assumes "wf_registration mods ord" and "topo_order (map (the \<circ> map_of mods) ord)"
  shows "sortModules mods ord = Inr (map (the \<circ> map_of mods) ord)"
proof -
  have "\<exists>ts'. sortModules_loop ord (newTopoSorter mods) = (None, ts') \<and>
      ts_order ts' = map (the \<circ> map_of mods) ([] @ ord)"
    using assms wf_registration_lookup [OF assms(1)]
    by (intro sortModules_loop_stable) (simp_all add: wf_registration_def newTopoSorter_def)
  then show ?thesis by (auto simp: sortModules_def)
qed

theorem sortModules_stable_witness:
  "sortModules ex_modules [''a'', ''b''] = Inr (map (the \<circ> map_of ex_modules) [''a'', ''b''])"
  by (rule sortModules_stable; code_simp)

end
