(* ===== verification/Manager.thy ===== *)
theory Manager
  imports Topo
begin

text \<open>
  The state of \<open>modulex.Manager\<close> (\<open>src/modulex.go\<close>), its constructor, the registration
  operations of the \<open>Registry\<close> interface and the supervised tasks.

  Go maps are association lists with distinct keys. A \<open>TaskHandle\<close> is an object shared by the
  manager, the task's goroutine and the caller, so handles live in a heap (\<open>m_handles\<close>) and are
  named by their index. A task context is the generation of the manager's task context it derives
  from; \<open>m_cancelled\<close> lists the generations whose cancel function was called. Two fields are not
  in the code: \<open>m_calls\<close> records the calls into module code and into the bus, and
  \<open>m_crashed\<close> records a panic that leaves the process.
\<close>

section \<open>Task handles\<close>

text \<open>The channel \<open>done\<close>: \<open>None\<close> is the nil channel of a zero handle, \<open>Some b\<close> a channel that
  is closed iff \<open>b\<close>.\<close>

record taskHandle =
  th_name :: string
  th_done :: "bool option"
  th_err :: "gerror option"
  th_ctx :: nat

text \<open>\<open>Wait\<close> returns nothing (\<open>None\<close>) while the task runs.\<close>

definition taskHandle_Wait :: "taskHandle \<Rightarrow> gerror option option" where
  "taskHandle_Wait h =
     (case th_done h of
        None \<Rightarrow> Some (Some ErrTaskHandleNotStarted)
      | Some closed \<Rightarrow> if closed then Some (th_err h) else None)"

definition taskHandle_Done :: "taskHandle \<Rightarrow> bool" where
  "taskHandle_Done h = (case th_done h of None \<Rightarrow> False | Some closed \<Rightarrow> closed)"

definition taskHandle_Err :: "taskHandle \<Rightarrow> gerror option" where
  "taskHandle_Err h = th_err h"

text \<open>Closing a nil or a closed channel panics: \<open>None\<close>.\<close>

definition taskHandle_finish :: "gerror option \<Rightarrow> taskHandle \<Rightarrow> taskHandle option" where
  "taskHandle_finish err h =
     (case th_done h of
        Some False \<Rightarrow> Some (h\<lparr>th_err := err, th_done := Some True\<rparr>)
      | _ \<Rightarrow> None)"


section \<open>The manager\<close>

datatype event_bus =
    NoopBus
  | UserBus (bus_close: "gerror option")

definition event_bus_Close :: "event_bus \<Rightarrow> gerror option" where
  "event_bus_Close eb = (case eb of NoopBus \<Rightarrow> None | UserBus r \<Rightarrow> r)"

definition PanicPolicyLog :: int where
  "PanicPolicyLog = 0"

definition PanicPolicyPropagate :: int where
  "PanicPolicyPropagate = 1"

definition panicPolicy_valid :: "int \<Rightarrow> bool" where
  "panicPolicy_valid p \<longleftrightarrow> p = PanicPolicyLog \<or> p = PanicPolicyPropagate"

text \<open>Calls into code the manager does not own, by module key.\<close>

datatype lcall = CInit string | CStart string | CStop string | CCloseBus

record manager =
  m_services :: "iface gomap"
  m_modules :: "gomodule gomap"
  m_moduleOrder :: "string list"
  m_orderedMods :: "gomodule list"
  m_eventBus :: "event_bus option"
  m_configLoader :: "(iface \<Rightarrow> gerror option) option"
  m_state :: lifecycle_state
  m_panicPolicy :: int
  m_tasks :: "nat gomap"
  m_handles :: "taskHandle list"
  m_taskErrs :: "gerror list"
  m_taskCtx :: nat
  m_cancelled :: "nat list"
  m_healthChecks :: "check_fn gomap"
  m_readinessChecks :: "check_fn gomap"
  m_initTotal :: int
  m_startTotal :: int
  m_initTimings :: "int gomap"
  m_startTimings :: "int gomap"
  m_calls :: "lcall list"
  m_crashed :: bool

datatype managerOption =
    WithEventBus "event_bus option"
  | WithPanicPolicy int
  | WithConfigLoader "(iface \<Rightarrow> gerror option) option"

fun apply_option :: "managerOption \<Rightarrow> manager \<Rightarrow> manager" where
  "apply_option (WithEventBus eb) m = m\<lparr>m_eventBus := eb\<rparr>"
| "apply_option (WithPanicPolicy p) m = m\<lparr>m_panicPolicy := p\<rparr>"
| "apply_option (WithConfigLoader l) m = m\<lparr>m_configLoader := l\<rparr>"

definition zero_manager :: manager where
  "zero_manager =
     \<lparr>m_services = [], m_modules = [], m_moduleOrder = [], m_orderedMods = [],
      m_eventBus = Some NoopBus, m_configLoader = None, m_state = StateConfiguring,
      m_panicPolicy = PanicPolicyLog, m_tasks = [], m_handles = [], m_taskErrs = [],
      m_taskCtx = 0, m_cancelled = [], m_healthChecks = [], m_readinessChecks = [],
      m_initTotal = 0, m_startTotal = 0, m_initTimings = [], m_startTimings = [],
      m_calls = [], m_crashed = False\<rparr>"

definition NewManager :: "managerOption list \<Rightarrow> manager result" where
  "NewManager opts =
     (let m = fold apply_option opts zero_manager;
          m = (if m_eventBus m = None then m\<lparr>m_eventBus := Some NoopBus\<rparr> else m)
      in if \<not> panicPolicy_valid (m_panicPolicy m)
         then Inl (Errorf [Wrapped ErrInvalidPanicPolicy, Lit '': '', Num (m_panicPolicy m)])
         else Inr m)"


section \<open>Registration\<close>

definition locked_error :: "string \<Rightarrow> lifecycle_state \<Rightarrow> gerror" where
  "locked_error what s =
     Errorf [Wrapped ErrRegistryLocked, Lit '': cannot register '', Lit what, Lit '' while in '',
             Quoted (lifecycle_state_String s), Lit '' state'']"

definition RegisterHealthCheck :: "string \<Rightarrow> check_fn option \<Rightarrow> manager \<Rightarrow> gerror option \<times> manager" where
  "RegisterHealthCheck name check m =
     (let name = TrimSpace name in
      if name = [] then (Some ErrInvalidHealthCheckName, m)
      else case check of
        None \<Rightarrow> (Some ErrHealthCheckNil, m)
      | Some f \<Rightarrow>
          if map_of (m_healthChecks m) name \<noteq> None
          then (Some (Errorf [Lit ''health check '', Quoted name, Lit '' already registered'']), m)
          else (None, m\<lparr>m_healthChecks := AList.update name f (m_healthChecks m)\<rparr>))"

definition HealthChecks :: "manager \<Rightarrow> check_fn gomap" where
  "HealthChecks m = fold (\<lambda>(k, v) checks. AList.update k v checks) (m_healthChecks m) []"

definition RegisterReadinessCheck :: "string \<Rightarrow> check_fn option \<Rightarrow> manager \<Rightarrow> gerror option \<times> manager" where
  "RegisterReadinessCheck name check m =
     (let name = TrimSpace name in
      if name = [] then (Some ErrInvalidReadinessCheckName, m)
      else case check of
        None \<Rightarrow> (Some ErrReadinessCheckNil, m)
      | Some f \<Rightarrow>
          if map_of (m_readinessChecks m) name \<noteq> None
          then (Some (Errorf [Lit ''readiness check '', Quoted name, Lit '' already registered'']), m)
          else (None, m\<lparr>m_readinessChecks := AList.update name f (m_readinessChecks m)\<rparr>))"

definition ReadinessChecks :: "manager \<Rightarrow> check_fn gomap" where
  "ReadinessChecks m = fold (\<lambda>(k, v) checks. AList.update k v checks) (m_readinessChecks m) []"

definition RegisterModule :: "gomodule option \<Rightarrow> manager \<Rightarrow> gerror option \<times> manager" where
  "RegisterModule md m =
     (if m_state m \<noteq> StateConfiguring then (Some (locked_error ''module'' (m_state m)), m)
      else case md of
        None \<Rightarrow> (Some ErrModuleNil, m)
      | Some md \<Rightarrow>
          (let name = TrimSpace (mod_Name md) in
           if name = [] then (Some ErrInvalidModuleName, m)
           else if map_of (m_modules m) name \<noteq> None
           then (Some (Errorf [Wrapped ErrDuplicateModule, Lit '': '', Quoted name]), m)
           else (None, m\<lparr>m_modules := AList.update name md (m_modules m),
                        m_moduleOrder := m_moduleOrder m @ [name]\<rparr>)))"

definition isNilServiceValue :: "iface \<Rightarrow> bool" where
  "isNilServiceValue svc =
     (case svc of
        INil \<Rightarrow> True
      | IVal t k isnil i \<Rightarrow>
          if k \<in> {KindChan, KindFunc, KindInterface, KindMap, KindPointer, KindSlice, KindUnsafePointer}
          then isnil else False)"

definition RegisterService :: "string \<Rightarrow> iface \<Rightarrow> manager \<Rightarrow> gerror option \<times> manager" where
  "RegisterService name svc m =
     (if m_state m \<noteq> StateConfiguring \<and> m_state m \<noteq> StateInitializing
      then (Some (locked_error ''service'' (m_state m)), m)
      else let name = TrimSpace name in
        if name = [] then (Some ErrInvalidServiceName, m)
        else if isNilServiceValue svc then (Some ErrServiceNil, m)
        else if map_of (m_services m) name \<noteq> None
        then (Some (Errorf [Wrapped ErrDuplicateService, Lit '': '', Quoted name]), m)
        else (None, m\<lparr>m_services := AList.update name svc (m_services m)\<rparr>))"

definition ResolveService :: "string \<Rightarrow> manager \<Rightarrow> iface result" where
  "ResolveService name m =
     (let name = TrimSpace name in
      if name = [] then Inl ErrInvalidServiceName
      else case map_of (m_services m) name of
        None \<Rightarrow> Inl (Errorf [Wrapped ErrServiceNotFound, Lit '': '', Quoted name])
      | Some svc \<Rightarrow> Inr svc)"

definition GetConfig :: "iface \<Rightarrow> manager \<Rightarrow> gerror option" where
  "GetConfig target m =
     (case m_configLoader m of None \<Rightarrow> Some ErrNoConfigLoader | Some l \<Rightarrow> l target)"

definition setState :: "lifecycle_state \<Rightarrow> manager \<Rightarrow> manager" where
  "setState s m = m\<lparr>m_state := s\<rparr>"

definition closeEventBus :: "manager \<Rightarrow> gerror option \<times> manager" where
  "closeEventBus m =
     (case m_eventBus m of
        None \<Rightarrow> (None, m)
      | Some eb \<Rightarrow>
          (let m' = m\<lparr>m_calls := m_calls m @ [CCloseBus]\<rparr> in
           case event_bus_Close eb of
             Some e \<Rightarrow> (Some (Errorf [Lit ''failed to close event bus: '', Wrapped e]), m')
           | None \<Rightarrow> (None, m')))"


section \<open>Supervised tasks\<close>

text \<open>\<open>Go\<close> checks the lifecycle state and the task context under one lock; the new handle's
  context derives from the current generation.\<close>

definition taskCtx_Err :: "manager \<Rightarrow> bool" where
  "taskCtx_Err m \<longleftrightarrow> m_taskCtx m \<in> set (m_cancelled m)"

definition Go :: "string \<Rightarrow> bool \<Rightarrow> manager \<Rightarrow> nat result \<times> manager" where
  "Go taskName fnGiven m =
     (let taskName = TrimSpace taskName in
      if taskName = [] then (Inl (Errorf [Wrapped ErrInvalidTaskName]), m)
      else if \<not> fnGiven then (Inl (Errorf [Lit ''task function must not be nil'']), m)
      else if m_state m = StateStopping \<or> m_state m = StateStopped
      then (Inl (Errorf [Wrapped ErrRegistryLocked, Lit '': cannot start task '', Quoted taskName,
                         Lit '' while in '', Quoted (lifecycle_state_String (m_state m)), Lit '' state'']), m)
      else if taskCtx_Err m
      then (Inl (Errorf [Wrapped ErrRegistryLocked, Lit '': cannot start task '', Quoted taskName,
                         Lit '' while shutting down'']), m)
      else if map_of (m_tasks m) taskName \<noteq> None
      then (Inl (Errorf [Wrapped ErrDuplicateTask, Lit '': task '', Quoted taskName]), m)
      else let h = length (m_handles m);
               handle = \<lparr>th_name = taskName, th_done = Some False, th_err = None, th_ctx = m_taskCtx m\<rparr>
           in (Inr h, m\<lparr>m_handles := m_handles m @ [handle],
                        m_tasks := AList.update taskName h (m_tasks m)\<rparr>))"

text \<open>The end of a task's goroutine: its function returned or panicked. The deferred calls
  record the error, remove the task and finish the handle in one critical section; with the
  propagating policy the panic then leaves the goroutine. A name without a running task has no
  goroutine, and nothing happens.\<close>

definition taskErr_of :: "string \<Rightarrow> outcome \<Rightarrow> gerror option" where
  "taskErr_of taskName oc =
     (case oc of
        Returns e \<Rightarrow> e
      | Panics r \<Rightarrow> Some (Errorf [Lit ''panic in background task '', Quoted taskName, Lit '': '', Lit r]))"

definition task_failure :: "string \<Rightarrow> gerror \<Rightarrow> gerror" where
  "task_failure taskName e = Errorf [Lit ''task '', Quoted taskName, Lit '' failed: '', Wrapped e]"

definition task_errors :: "string \<Rightarrow> outcome \<Rightarrow> gerror list" where
  "task_errors taskName oc =
     (case taskErr_of taskName oc of None \<Rightarrow> [] | Some e \<Rightarrow> [task_failure taskName e])"

definition superviseTask :: "string \<Rightarrow> outcome \<Rightarrow> manager \<Rightarrow> manager" where
  "superviseTask taskName oc m =
     (case map_of (m_tasks m) taskName of
        None \<Rightarrow> m
      | Some h \<Rightarrow>
          (let m1 = m\<lparr>m_taskErrs := m_taskErrs m @ task_errors taskName oc,
                      m_tasks := AList.delete taskName (m_tasks m)\<rparr>;
               propagates = (case oc of Panics _ \<Rightarrow> m_panicPolicy m = PanicPolicyPropagate
                                      | Returns _ \<Rightarrow> False)
           in case taskHandle_finish (taskErr_of taskName oc) (m_handles m ! h) of
                None \<Rightarrow> m1\<lparr>m_crashed := True\<rparr>
              | Some handle \<Rightarrow> m1\<lparr>m_handles := (m_handles m)[h := handle],
                                  m_crashed := m_crashed m \<or> propagates\<rparr>))"

definition taskCancel :: "manager \<Rightarrow> manager" where
  "taskCancel m = m\<lparr>m_cancelled := List.insert (m_taskCtx m) (m_cancelled m)\<rparr>"

definition resetTaskCtx :: "manager \<Rightarrow> manager" where
  "resetTaskCtx m = m\<lparr>m_taskCtx := Suc (m_taskCtx m)\<rparr>"

text \<open>What the environment decides of one lifecycle call: \<open>ctx.Err()\<close> before the \<open>i\<close>-th
  module of a phase, after the wait for tasks and before the stop loop; the clock; and the tasks
  that end during the wait.\<close>

record callctx =
  cx_phaseErr :: "nat \<Rightarrow> gerror option"
  cx_duration :: "nat \<Rightarrow> int"
  cx_total :: int
  cx_ends :: "(string \<times> outcome) list"
  cx_waitErr :: "gerror option"
  cx_stopErr :: "gerror option"

definition handle_Done :: "manager \<Rightarrow> nat \<Rightarrow> bool" where
  "handle_Done m h \<longleftrightarrow> taskHandle_Done (m_handles m ! h)"

definition timeout_error :: "gerror \<Rightarrow> string list \<Rightarrow> gerror" where
  "timeout_error e pending =
     (if pending \<noteq> []
      then Errorf [Lit ''timed out waiting for tasks to finish: '', Wrapped e, Lit '' (still running: '',
                   Lit (strings_Join (sort pending) '', ''), Lit '')'']
      else Errorf [Lit ''timed out waiting for tasks to finish: '', Wrapped e])"

text \<open>\<open>waitForTasks\<close> returns when every task of its snapshot is done or the caller's context
  is; \<open>None\<close> is a wait that goes on because neither holds.\<close>

definition waitForTasks :: "callctx \<Rightarrow> manager \<Rightarrow> (gerror option \<times> manager) option" where
  "waitForTasks cx m =
     (let tasks = map snd (m_tasks m);
          m1 = taskCancel m
      in if tasks = []
         then let errs = m_taskErrs m1 in
              Some (errors_Join_all errs, resetTaskCtx (m1\<lparr>m_taskErrs := []\<rparr>))
         else let m2 = fold (\<lambda>(n, oc). superviseTask n oc) (cx_ends cx) m1 in
              if \<not> list_all (handle_Done m2) tasks \<and> cx_waitErr cx = None then None
              else let errs = m_taskErrs m2;
                       pending = map fst (m_tasks m2);
                       errs = (case cx_waitErr cx of None \<Rightarrow> errs
                               | Some e \<Rightarrow> errs @ [timeout_error e pending])
                   in Some (errors_Join_all errs, resetTaskCtx (m2\<lparr>m_taskErrs := []\<rparr>)))"


section \<open>Well-formed managers\<close>

definition wf_names :: "'v gomap \<Rightarrow> bool" where
  "wf_names mp \<longleftrightarrow> distinct (map fst mp) \<and> (\<forall>k \<in> fst ` set mp. k \<noteq> [] \<and> TrimSpace k = k)"

text \<open>The task table and the handle heap agree: a handle is open exactly while its task is in
  the table, and a task's context derives from the current generation or from a cancelled
  one.\<close>

definition wf_handle :: "nat gomap \<Rightarrow> nat \<Rightarrow> taskHandle \<Rightarrow> bool" where
  "wf_handle tasks h th \<longleftrightarrow> th_done th \<noteq> None \<and>
     (th_done th = Some False \<longleftrightarrow> map_of tasks (th_name th) = Some h)"

definition wf_tasks :: "manager \<Rightarrow> bool" where
  "wf_tasks m \<longleftrightarrow>
     distinct (map fst (m_tasks m)) \<and>
     (\<forall>h < length (m_handles m). wf_handle (m_tasks m) h (m_handles m ! h)) \<and>
     (\<forall>n h. map_of (m_tasks m) n = Some h \<longrightarrow>
        h < length (m_handles m) \<and> th_name (m_handles m ! h) = n \<and>
        (th_ctx (m_handles m ! h) = m_taskCtx m \<or> th_ctx (m_handles m ! h) \<in> set (m_cancelled m)))"

definition wf_manager :: "manager \<Rightarrow> bool" where
  "wf_manager m \<longleftrightarrow>
     wf_registration (m_modules m) (m_moduleOrder m) \<and>
     wf_names (m_services m) \<and> (\<forall>svc \<in> snd ` set (m_services m). \<not> isNilServiceValue svc) \<and>
     wf_names (m_healthChecks m) \<and> wf_names (m_readinessChecks m) \<and>
     wf_tasks m \<and> m_eventBus m \<noteq> None \<and> panicPolicy_valid (m_panicPolicy m) \<and>
     (m_crashed m \<longrightarrow> m_panicPolicy m = PanicPolicyPropagate)"

lemma wf_names_Nil [simp]: "wf_names []"
  by (simp add: wf_names_def)

lemma wf_names_update:
  "wf_names mp \<Longrightarrow> n \<noteq> [] \<Longrightarrow> TrimSpace n = n \<Longrightarrow> wf_names (AList.update n v mp)"
  by (auto simp: wf_names_def)

lemma fold_apply_option:
  "\<exists>eb p l. fold apply_option opts m = m\<lparr>m_eventBus := eb, m_panicPolicy := p, m_configLoader := l\<rparr>"
proof (induction opts arbitrary: m)
  case Nil
  have "m = m\<lparr>m_eventBus := m_eventBus m, m_panicPolicy := m_panicPolicy m,
      m_configLoader := m_configLoader m\<rparr>"
    by simp
  then show ?case by (metis fold_simps(1))
next
  case (Cons opt opts)
  obtain eb p l where "fold apply_option opts (apply_option opt m) =
      (apply_option opt m)\<lparr>m_eventBus := eb, m_panicPolicy := p, m_configLoader := l\<rparr>"
    using Cons.IH by blast
  then show ?case
    by (cases opt) auto
qed

lemma wf_zero_manager: "wf_manager zero_manager"
  by (simp add: wf_manager_def zero_manager_def wf_registration_def wf_modules_def wf_tasks_def
      panicPolicy_valid_def)

lemma NewManager_wf: "NewManager opts = Inr m \<Longrightarrow> wf_manager m \<and> m_state m = StateConfiguring \<and> m_calls m = []"
proof -
  assume r: "NewManager opts = Inr m"
  obtain eb p l where f: "fold apply_option opts zero_manager =
      zero_manager\<lparr>m_eventBus := eb, m_panicPolicy := p, m_configLoader := l\<rparr>"
    using fold_apply_option [of opts zero_manager] by blast
  from r show ?thesis
    unfolding NewManager_def f using wf_zero_manager
    by (auto simp: Let_def wf_manager_def wf_tasks_def zero_manager_def split: if_splits)
qed

subsection \<open>Every registry operation keeps a manager well-formed\<close>

lemma wf_names_lookup: "wf_names mp \<Longrightarrow> map_of mp k = Some v \<Longrightarrow> k \<noteq> [] \<and> TrimSpace k = k"
  by (force simp: wf_names_def dest: map_of_SomeD)

lemma RegisterHealthCheck_wf: "wf_manager m \<Longrightarrow> wf_manager (snd (RegisterHealthCheck n c m))"
  by (auto simp: RegisterHealthCheck_def Let_def wf_manager_def wf_tasks_def wf_names_update
      split: option.splits)

lemma RegisterReadinessCheck_wf: "wf_manager m \<Longrightarrow> wf_manager (snd (RegisterReadinessCheck n c m))"
  by (auto simp: RegisterReadinessCheck_def Let_def wf_manager_def wf_tasks_def wf_names_update
      split: option.splits)

lemma set_update_subset: "set (AList.update k v mp) \<subseteq> insert (k, v) (set mp)"
  by (induction mp) auto

lemma wf_modules_update:
  "wf_modules mods \<Longrightarrow> mod_key md \<noteq> [] \<Longrightarrow> wf_modules (AList.update (mod_key md) md mods)"
  using set_update_subset [of "mod_key md" md mods] by (fastforce simp: wf_modules_def)

lemma RegisterModule_wf: "wf_manager m \<Longrightarrow> wf_manager (snd (RegisterModule md m))"
  by (auto simp: RegisterModule_def Let_def wf_manager_def wf_tasks_def wf_registration_def
      wf_modules_update map_of_eq_None_iff split: option.splits)

lemma RegisterService_wf: "wf_manager m \<Longrightarrow> wf_manager (snd (RegisterService n svc m))"
  using set_update_subset [of "TrimSpace n" svc "m_services m"]
  by (fastforce simp: RegisterService_def Let_def wf_manager_def wf_tasks_def wf_names_update)

lemma Go_wf_tasks: "wf_tasks m \<Longrightarrow> wf_tasks (snd (Go n f m))"
proof -
  assume wf: "wf_tasks m"
  let ?n = "TrimSpace n" and ?h = "length (m_handles m)"
  let ?th = "\<lparr>th_name = ?n, th_done = Some False, th_err = None, th_ctx = m_taskCtx m\<rparr>"
  let ?m = "m\<lparr>m_handles := m_handles m @ [?th], m_tasks := AList.update ?n ?h (m_tasks m)\<rparr>"
  have "wf_tasks ?m" if new: "map_of (m_tasks m) ?n = None"
  proof -
    have "wf_handle (m_tasks ?m) h (m_handles ?m ! h)" if "h < length (m_handles ?m)" for h
      using that wf new by (auto simp: wf_tasks_def wf_handle_def nth_append less_Suc_eq)
    then show ?thesis
      using wf by (auto simp: wf_tasks_def nth_append less_Suc_eq split: if_splits)
  qed
  then show ?thesis using wf by (auto simp: Go_def Let_def)
qed

lemma Go_wf: "wf_manager m \<Longrightarrow> wf_manager (snd (Go n f m))"
  using Go_wf_tasks [of m n f] by (auto simp: wf_manager_def Go_def Let_def)

lemma superviseTask_running:
  assumes "wf_tasks m" and "map_of (m_tasks m) n = Some h"
  shows "superviseTask n oc m = m\<lparr>m_taskErrs := m_taskErrs m @ task_errors n oc,
      m_tasks := AList.delete n (m_tasks m),
      m_handles := (m_handles m)[h := (m_handles m ! h)\<lparr>th_err := taskErr_of n oc, th_done := Some True\<rparr>],
      m_crashed := m_crashed m \<or> (case oc of Panics _ \<Rightarrow> m_panicPolicy m = PanicPolicyPropagate
                                  | Returns _ \<Rightarrow> False)\<rparr>"
proof -
  have "th_done (m_handles m ! h) = Some False"
    using assms by (auto simp: wf_tasks_def wf_handle_def)
  then show ?thesis
    using assms(2) by (simp add: superviseTask_def taskHandle_finish_def Let_def)
qed

lemma superviseTask_wf_tasks:
  assumes wf: "wf_tasks m"
  shows "wf_tasks (superviseTask n oc m)"
proof (cases "map_of (m_tasks m) n")
  case (Some h)
  define th where "th = (m_handles m ! h)\<lparr>th_err := taskErr_of n oc, th_done := Some True\<rparr>"
  have h: "h < length (m_handles m)" "th_name (m_handles m ! h) = n"
    using wf Some by (simp_all add: wf_tasks_def)
  have handles: "wf_handle (AList.delete n (m_tasks m)) k ((m_handles m)[h := th] ! k)"
    if k: "k < length (m_handles m)" for k
  proof (cases "k = h")
    case True
    then show ?thesis using h by (simp add: wf_handle_def th_def)
  next
    case False
    have "wf_handle (m_tasks m) k (m_handles m ! k)"
      using wf k by (simp add: wf_tasks_def)
    then show ?thesis using False Some by (auto simp: wf_handle_def)
  qed
  have tasks: "k < length (m_handles m) \<and> th_name ((m_handles m)[h := th] ! k) = a \<and>
      (th_ctx ((m_handles m)[h := th] ! k) = m_taskCtx m \<or> th_ctx ((m_handles m)[h := th] ! k) \<in> set (m_cancelled m))"
    if "map_of (AList.delete n (m_tasks m)) a = Some k" for a k
  proof -
    have "map_of (m_tasks m) a = Some k" "a \<noteq> n"
      using that by (simp_all split: if_splits)
    then have "k < length (m_handles m) \<and> th_name (m_handles m ! k) = a \<and>
      (th_ctx (m_handles m ! k) = m_taskCtx m \<or> th_ctx (m_handles m ! k) \<in> set (m_cancelled m))" "k \<noteq> h"
      using wf h by (auto simp: wf_tasks_def)
    then show ?thesis by simp
  qed
  have "distinct (map fst (AList.delete n (m_tasks m)))"
    using wf by (simp add: wf_tasks_def)
  then show ?thesis
    unfolding superviseTask_running [OF wf Some] th_def [symmetric] wf_tasks_def
    using handles tasks by simp
qed (use assms in \<open>simp add: superviseTask_def\<close>)

lemma superviseTask_wf: "wf_manager m \<Longrightarrow> wf_manager (superviseTask n oc m)"
proof (cases "map_of (m_tasks m) n")
  case (Some h)
  assume wf: "wf_manager m"
  then have t: "wf_tasks m" by (simp add: wf_manager_def)
  show ?thesis
    using wf superviseTask_wf_tasks [OF t, of n oc]
    unfolding superviseTask_running [OF t Some] by (auto simp: wf_manager_def split: outcome.splits)
qed (simp add: superviseTask_def)


section \<open>Facts every piece of concurrent code keeps\<close>

text \<open>What holds of the manager across one registry operation and one ending task holds across
  any amount of module code: the interface between the manager and code it does not own. A
  relation is given once for the operations, and the locales carry it over sequences.\<close>

locale task_ends =
  fixes R :: "manager \<Rightarrow> manager \<Rightarrow> bool"
  assumes R_refl: "R m m"
    and R_trans: "R a b \<Longrightarrow> R b c \<Longrightarrow> R a c"
    and R_task: "R m (superviseTask n oc m)"
begin

lemma R_ends: "R m (fold (\<lambda>(n, oc). superviseTask n oc) ends m)"
  by (induction ends arbitrary: m) (auto intro: R_refl R_trans R_task)

end

text \<open>The fields only the lifecycle operations write, and the ghost log of calls.\<close>

definition control :: "manager \<Rightarrow> gomodule gomap \<times> string list \<times> gomodule list \<times> event_bus option \<times>
    lifecycle_state \<times> int \<times> nat \<times> nat list" where
  "control m = (m_modules m, m_moduleOrder m, m_orderedMods m, m_eventBus m,
     m_state m, m_panicPolicy m, m_taskCtx m, m_cancelled m)"

lemma control_superviseTask [simp]:
  "control (superviseTask n oc m) = control m" "m_calls (superviseTask n oc m) = m_calls m"
  by (auto simp: superviseTask_def Let_def control_def split: option.splits)

lemma control_Go [simp]: "control (snd (Go n f m)) = control m" "m_calls (snd (Go n f m)) = m_calls m"
  by (simp_all add: Go_def Let_def control_def)

lemma control_RegisterService [simp]:
  "control (snd (RegisterService n v m)) = control m" "m_calls (snd (RegisterService n v m)) = m_calls m"
  by (simp_all add: RegisterService_def Let_def control_def)

lemma control_RegisterHealthCheck [simp]:
  "control (snd (RegisterHealthCheck n c m)) = control m" "m_calls (snd (RegisterHealthCheck n c m)) = m_calls m"
  by (simp_all add: RegisterHealthCheck_def Let_def control_def split: option.splits)

lemma control_RegisterReadinessCheck [simp]:
  "control (snd (RegisterReadinessCheck n c m)) = control m"
  "m_calls (snd (RegisterReadinessCheck n c m)) = m_calls m"
  by (simp_all add: RegisterReadinessCheck_def Let_def control_def split: option.splits)

text \<open>Handles are never freed, renamed or reopened.\<close>

definition handles_grow :: "manager \<Rightarrow> manager \<Rightarrow> bool" where
  "handles_grow m m' \<longleftrightarrow> length (m_handles m) \<le> length (m_handles m') \<and>
     (\<forall>h < length (m_handles m). th_name (m_handles m' ! h) = th_name (m_handles m ! h) \<and>
        th_ctx (m_handles m' ! h) = th_ctx (m_handles m ! h) \<and>
        (taskHandle_Done (m_handles m ! h) \<longrightarrow> m_handles m' ! h = m_handles m ! h))"

lemma handles_grow_refl [simp]: "handles_grow m m"
  by (simp add: handles_grow_def)

lemma handles_grow_trans: "handles_grow a b \<Longrightarrow> handles_grow b c \<Longrightarrow> handles_grow a c"
  unfolding handles_grow_def by (metis le_trans less_le_trans)

lemma handles_grow_finish:
  assumes "taskHandle_finish err (m_handles m ! h) = Some th" and "m_handles m' = (m_handles m)[h := th]"
  shows "handles_grow m m'"
proof -
  have th: "th_name th = th_name (m_handles m ! h)" "th_ctx th = th_ctx (m_handles m ! h)"
      "\<not> taskHandle_Done (m_handles m ! h)"
    using assms(1) by (auto simp: taskHandle_finish_def taskHandle_Done_def split: option.splits bool.splits)
  have "th_name (m_handles m' ! k) = th_name (m_handles m ! k) \<and> th_ctx (m_handles m' ! k) = th_ctx (m_handles m ! k)
      \<and> (taskHandle_Done (m_handles m ! k) \<longrightarrow> m_handles m' ! k = m_handles m ! k)"
    if "k < length (m_handles m)" for k
    using that th assms(2) by (cases "k = h") simp_all
  then show ?thesis
    using assms(2) by (simp add: handles_grow_def)
qed

lemma handles_grow_superviseTask: "handles_grow m (superviseTask n oc m)"
proof (cases "map_of (m_tasks m) n")
  case (Some h)
  show ?thesis
  proof (cases "taskHandle_finish (taskErr_of n oc) (m_handles m ! h)")
    case None
    then have "m_handles (superviseTask n oc m) = m_handles m"
      using Some by (simp add: superviseTask_def Let_def)
    then show ?thesis by (simp add: handles_grow_def)
  next
    case th: (Some th)
    then have "m_handles (superviseTask n oc m) = (m_handles m)[h := th]"
      using Some by (simp add: superviseTask_def Let_def)
    then show ?thesis using handles_grow_finish th by blast
  qed
qed (simp add: superviseTask_def)

lemma handles_grow_Go: "handles_grow m (snd (Go n f m))"
  by (simp add: Go_def Let_def handles_grow_def nth_append)

text \<open>The context of every running task is cancelled.\<close>

definition all_cancelled :: "manager \<Rightarrow> bool" where
  "all_cancelled m \<longleftrightarrow>
     (\<forall>n h. map_of (m_tasks m) n = Some h \<longrightarrow> th_ctx (m_handles m ! h) \<in> set (m_cancelled m))"

lemma superviseTask_lookup:
  "map_of (m_tasks (superviseTask n oc m)) a = (if a = n then None else map_of (m_tasks m) a)"
  by (auto simp: superviseTask_def Let_def split: option.splits)

lemma all_cancelled_superviseTask:
  assumes "wf_tasks m" and "all_cancelled m"
  shows "all_cancelled (superviseTask n oc m)"
  unfolding all_cancelled_def
proof (intro allI impI)
  fix a h
  assume "map_of (m_tasks (superviseTask n oc m)) a = Some h"
  then have a: "map_of (m_tasks m) a = Some h"
    by (simp add: superviseTask_lookup split: if_splits)
  have "m_cancelled (superviseTask n oc m) = m_cancelled m"
    using control_superviseTask(1) [of n oc m] by (simp add: control_def)
  moreover have "th_ctx (m_handles (superviseTask n oc m) ! h) = th_ctx (m_handles m ! h)"
    using a assms(1) handles_grow_superviseTask [of m n oc]
    by (simp add: handles_grow_def wf_tasks_def)
  ultimately show "th_ctx (m_handles (superviseTask n oc m) ! h) \<in> set (m_cancelled (superviseTask n oc m))"
    using a assms(2) by (simp add: all_cancelled_def)
qed

lemma wf_manager_tasks [simp]: "wf_manager m \<Longrightarrow> wf_tasks m"
  by (simp add: wf_manager_def)

interpretation ends_control: task_ends "\<lambda>m m'. control m' = control m \<and> m_calls m' = m_calls m"
  by unfold_locales simp_all

interpretation ends_wf: task_ends "\<lambda>m m'. wf_manager m \<longrightarrow> wf_manager m'"
  by unfold_locales (auto intro: superviseTask_wf)

interpretation ends_grow: task_ends handles_grow
  by unfold_locales (auto intro: handles_grow_trans handles_grow_superviseTask)

interpretation ends_cancelled:
  task_ends "\<lambda>m m'. wf_manager m \<and> all_cancelled m \<longrightarrow> wf_manager m' \<and> all_cancelled m'"
  by unfold_locales (simp_all add: superviseTask_wf all_cancelled_superviseTask)


section \<open>Waiting for tasks\<close>

lemma taskCancel_wf: "wf_manager m \<Longrightarrow> wf_manager (taskCancel m)"
  by (auto simp: taskCancel_def wf_manager_def wf_tasks_def)

lemma taskCancel_cancelled: "wf_manager m \<Longrightarrow> all_cancelled (taskCancel m)"
  by (auto simp: taskCancel_def wf_manager_def wf_tasks_def all_cancelled_def)

lemma resetTaskCtx_wf:
  "wf_manager m \<Longrightarrow> all_cancelled m \<Longrightarrow> wf_manager (resetTaskCtx (m\<lparr>m_taskErrs := []\<rparr>))"
  by (auto simp: resetTaskCtx_def wf_manager_def wf_tasks_def all_cancelled_def)

text \<open>The state in which \<open>waitForTasks\<close> collects its errors.\<close>

definition awaited :: "callctx \<Rightarrow> manager \<Rightarrow> manager" where
  "awaited cx m =
     (if m_tasks m = [] then taskCancel m
      else fold (\<lambda>(n, oc). superviseTask n oc) (cx_ends cx) (taskCancel m))"

lemma awaited_control:
  "control (awaited cx m) = control (taskCancel m)" "m_calls (awaited cx m) = m_calls m"
  using ends_control.R_ends [of "cx_ends cx" "taskCancel m"]
  by (simp_all add: awaited_def taskCancel_def)

lemma awaited_wf: "wf_manager m \<Longrightarrow> wf_manager (awaited cx m) \<and> all_cancelled (awaited cx m)"
  using ends_cancelled.R_ends [of "taskCancel m" "cx_ends cx"] taskCancel_wf taskCancel_cancelled
  by (simp add: awaited_def)

lemma waitForTasks_result:
  assumes "waitForTasks cx m = Some (r, m')"
  shows "m' = resetTaskCtx ((awaited cx m)\<lparr>m_taskErrs := []\<rparr>)"
    and "m_tasks m \<noteq> [] \<Longrightarrow> list_all (handle_Done (awaited cx m)) (map snd (m_tasks m)) \<or> cx_waitErr cx \<noteq> None"
    and "r = errors_Join_all (m_taskErrs (awaited cx m) @
          (if m_tasks m = [] then [] else
           case cx_waitErr cx of None \<Rightarrow> [] | Some e \<Rightarrow> [timeout_error e (map fst (m_tasks (awaited cx m)))]))"
  using assms
  by (auto simp: waitForTasks_def awaited_def Let_def taskCancel_def split: if_splits option.splits)

lemma waitForTasks_wf:
  assumes "wf_manager m" and "waitForTasks cx m = Some (r, m')"
  shows "wf_manager m'" "all_cancelled m'"
  using waitForTasks_result(1) [OF assms(2)] awaited_wf [OF assms(1), of cx] resetTaskCtx_wf
  by (auto simp: all_cancelled_def resetTaskCtx_def)

lemma waitForTasks_frame:
  assumes "waitForTasks cx m = Some (r, m')"
  shows "m_modules m' = m_modules m" "m_moduleOrder m' = m_moduleOrder m"
    "m_orderedMods m' = m_orderedMods m" "m_eventBus m' = m_eventBus m" "m_state m' = m_state m"
    "m_panicPolicy m' = m_panicPolicy m" "m_calls m' = m_calls m" "m_taskErrs m' = []"
  using waitForTasks_result(1) [OF assms] awaited_control [of cx m]
  by (auto simp: control_def taskCancel_def resetTaskCtx_def)

text \<open>The wait returns as soon as each running task has ended or the caller's context is
  done.\<close>

lemma waitForTasks_returns:
  assumes "cx_waitErr cx \<noteq> None \<or> (\<forall>h \<in> snd ` set (m_tasks m). handle_Done (awaited cx m) h)"
  shows "\<exists>r m'. waitForTasks cx m = Some (r, m')"
  using assms
  by (cases "m_tasks m = []") (auto simp: waitForTasks_def awaited_def Let_def list_all_iff)

text \<open>Each ending task contributes its error once.\<close>

lemma superviseTask_taskErrs:
  "map_of (m_tasks m) n \<noteq> None \<Longrightarrow>
   m_taskErrs (superviseTask n oc m) = m_taskErrs m @ task_errors n oc"
  by (auto simp: superviseTask_def Let_def split: option.splits)

lemma ends_taskErrs:
  assumes "distinct (map fst ends)" and "\<forall>n \<in> fst ` set ends. map_of (m_tasks m) n \<noteq> None"
  shows "m_taskErrs (fold (\<lambda>(n, oc). superviseTask n oc) ends m) =
     m_taskErrs m @ concat (map (\<lambda>(n, oc). task_errors n oc) ends)"
  using assms
proof (induction ends arbitrary: m)
  case (Cons e ends)
  obtain n oc where e: "e = (n, oc)" by fastforce
  have "\<forall>a \<in> fst ` set ends. map_of (m_tasks (superviseTask n oc m)) a \<noteq> None"
    using Cons.prems e by (force simp: superviseTask_lookup)
  then show ?case
    using Cons.IH [of "superviseTask n oc m"] Cons.prems e by (simp add: superviseTask_taskErrs)
qed simp

lemma ends_lookup:
  "map_of (m_tasks (fold (\<lambda>(n, oc). superviseTask n oc) ends m)) a =
     (if a \<in> fst ` set ends then None else map_of (m_tasks m) a)"
  by (induction ends arbitrary: m) (auto simp: superviseTask_lookup)

end
