(* ===== verification/Lifecycle.thy ===== *)
theory Lifecycle
  imports Manager
begin

text \<open>
  The lifecycle of \<open>modulex.Manager\<close> (\<open>src/modulex.go\<close>): module code running against the
  registry, the phases \<open>InitModules\<close>, \<open>StartModules\<close> and \<open>StopModules\<close>, and the failure
  path with its rollback.

  A module's \<open>Init\<close>, \<open>Start\<close> and \<open>Stop\<close> are arbitrary programs over the registry
  (\<open>prog\<close>), in which supervised tasks may end at any point; a call that another goroutine
  makes meanwhile is one more call of the program. A lifecycle operation is \<open>None\<close> when its
  wait for tasks does not return.
\<close>

section \<open>Module code\<close>

fun exec_op :: "reg_op \<Rightarrow> manager \<Rightarrow> reg_resp \<times> manager" where
  "exec_op (OpRegisterService name svc) m = map_prod RespErr id (RegisterService name svc m)"
| "exec_op (OpResolveService name) m = (RespService (ResolveService name m), m)"
| "exec_op (OpGetConfig target) m = (RespErr (GetConfig target m), m)"
| "exec_op (OpGo name fnGiven) m = map_prod RespTask id (Go name fnGiven m)"
| "exec_op (OpRegisterHealthCheck name c) m = map_prod RespErr id (RegisterHealthCheck name c m)"
| "exec_op (OpRegisterReadinessCheck name c) m = map_prod RespErr id (RegisterReadinessCheck name c m)"

primrec run :: "prog \<Rightarrow> manager \<Rightarrow> gerror option \<times> manager" where
  "run (Ret e) m = (e, m)"
| "run (Call op k) m = (case exec_op op m of (r, m') \<Rightarrow> run (k r) m')"
| "run (Finish name oc p) m = run p (superviseTask name oc m)"

definition log_call :: "lcall \<Rightarrow> manager \<Rightarrow> manager" where
  "log_call c m = m\<lparr>m_calls := m_calls m @ [c]\<rparr>"

definition initModule :: "gomodule \<Rightarrow> manager \<Rightarrow> gerror option \<times> manager" where
  "initModule md m = run (mod_Init md) (log_call (CInit (mod_key md)) m)"

definition startModule :: "gomodule \<Rightarrow> manager \<Rightarrow> gerror option \<times> manager" where
  "startModule md m =
     (case mod_Start md of
        None \<Rightarrow> (None, m)
      | Some p \<Rightarrow> run p (log_call (CStart (mod_key md)) m))"

definition stopModule :: "string \<Rightarrow> gomodule \<Rightarrow> manager \<Rightarrow> gerror option \<times> manager" where
  "stopModule phase md m =
     (case mod_Stop md of
        None \<Rightarrow> (None, m)
      | Some p \<Rightarrow>
          (case run p (log_call (CStop (mod_key md)) m) of
             (Some e, m') \<Rightarrow>
               (Some (Errorf [Lit ''failed to stop module '', Quoted (mod_Name md), Lit '' during '',
                              Lit phase, Lit '': '', Wrapped e]), m')
           | (None, m') \<Rightarrow> (None, m')))"


section \<open>Phases\<close>

fun runPhase :: "callctx \<Rightarrow> string \<Rightarrow> (gomodule \<Rightarrow> manager \<Rightarrow> gerror option \<times> manager) \<Rightarrow>
    nat \<Rightarrow> int gomap \<Rightarrow> gomodule list \<Rightarrow> manager \<Rightarrow>
    (nat \<times> int gomap \<times> bool \<times> gerror option) \<times> manager" where
  "runPhase cx action runFn cnt timings [] m = ((cnt, timings, False, None), m)"
| "runPhase cx action runFn cnt timings (md # mds) m =
     (case cx_phaseErr cx cnt of
        Some e \<Rightarrow> ((cnt, timings, False, Some (Errorf [Lit action, Lit '' cancelled: '', Wrapped e])), m)
      | None \<Rightarrow>
          (case runFn md m of
             (r, m') \<Rightarrow>
               (let timings' = AList.update (mod_Name md) (cx_duration cx cnt) timings in
                case r of
                  Some e \<Rightarrow>
                    ((cnt, timings', True,
                      Some (Errorf [Lit ''failed to '', Lit action, Lit '' module '',
                                    Quoted (mod_Name md), Lit '': '', Wrapped e])), m')
                | None \<Rightarrow> runPhase cx action runFn (Suc cnt) timings' mds m')))"

text \<open>The reverse loop of \<open>rollback\<close> and of \<open>StopModules\<close>, over the reversed list: an
  error is collected and the loop goes on.\<close>

fun stop_loop :: "string \<Rightarrow> gomodule list \<Rightarrow> manager \<Rightarrow> gerror list \<times> manager" where
  "stop_loop phase [] m = ([], m)"
| "stop_loop phase (md # mds) m =
     (case stopModule phase md m of
        (r, m') \<Rightarrow>
          (case stop_loop phase mds m' of
             (errs, m'') \<Rightarrow> ((case r of Some e \<Rightarrow> e # errs | None \<Rightarrow> errs), m'')))"

definition rollback :: "gomodule list \<Rightarrow> string \<Rightarrow> manager \<Rightarrow> gerror option \<times> manager" where
  "rollback mods phase m =
     (case stop_loop phase (rev mods) m of (errs, m') \<Rightarrow> (errors_Join_all errs, m'))"

definition join_err :: "gerror \<Rightarrow> gerror option \<Rightarrow> gerror" where
  "join_err err extra = (case extra of None \<Rightarrow> err | Some e \<Rightarrow> Joined [err, e])"

definition finalizeFailure :: "callctx \<Rightarrow> gerror \<Rightarrow> (manager \<Rightarrow> gerror option \<times> manager) \<Rightarrow>
    (manager \<Rightarrow> manager) option \<Rightarrow> manager \<Rightarrow> (gerror \<times> manager) option" where
  "finalizeFailure cx err rollbackFn cleanup m =
     (case waitForTasks cx m of
        None \<Rightarrow> None
      | Some (waitErr, m1) \<Rightarrow>
          (let err = join_err err waitErr;
               (rollbackErr, m2) = rollbackFn m1;
               err = join_err err rollbackErr;
               (closeErr, m3) = closeEventBus m2;
               err = join_err err closeErr;
               m4 = (case cleanup of None \<Rightarrow> m3 | Some f \<Rightarrow> f m3)
           in Some (err, setState StateStopped m4)))"

definition finalizeInitFailure :: "callctx \<Rightarrow> gerror \<Rightarrow> gomodule list \<Rightarrow> manager \<Rightarrow> (gerror \<times> manager) option" where
  "finalizeInitFailure cx err initialized m =
     finalizeFailure cx err (rollback initialized ''init rollback'')
       (Some (\<lambda>m. m\<lparr>m_orderedMods := []\<rparr>)) m"

definition lockSortedModules :: "manager \<Rightarrow> gomodule list result \<times> manager" where
  "lockSortedModules m =
     (case sortModules (m_modules m) (m_moduleOrder m) of
        Inl e \<Rightarrow> (Inl e, m\<lparr>m_orderedMods := []\<rparr>)
      | Inr ordered \<Rightarrow> (Inr ordered, m\<lparr>m_orderedMods := ordered\<rparr>))"

definition recordInitTiming :: "int \<Rightarrow> int gomap \<Rightarrow> manager \<Rightarrow> manager" where
  "recordInitTiming tot perModule m = m\<lparr>m_initTotal := tot, m_initTimings := perModule\<rparr>"

definition recordStartTiming :: "int \<Rightarrow> int gomap \<Rightarrow> manager \<Rightarrow> manager" where
  "recordStartTiming tot perModule m = m\<lparr>m_startTotal := tot, m_startTimings := perModule\<rparr>"

definition state_error :: "string \<Rightarrow> lifecycle_state \<Rightarrow> gerror" where
  "state_error op s =
     Errorf [Wrapped ErrInvalidLifecycleState, Lit '': '', Lit op, Lit '' called in '',
             Quoted (lifecycle_state_String s), Lit '' state'']"

definition transitionToInitializing :: "manager \<Rightarrow> (lifecycle_state \<times> gerror option) \<times> manager" where
  "transitionToInitializing m =
     (if m_state m \<noteq> StateConfiguring
      then ((m_state m, Some (Errorf [Lit ''transition requested in '',
              Quoted (lifecycle_state_String (m_state m)), Lit '' state''])), m)
      else ((StateInitializing, None), m\<lparr>m_state := StateInitializing\<rparr>))"

text \<open>A lifecycle call returns \<open>Some (err, m')\<close> with \<open>err\<close> nil or an error.\<close>

definition InitModules :: "callctx \<Rightarrow> manager \<Rightarrow> (gerror option \<times> manager) option" where
  "InitModules cx m =
     (case transitionToInitializing m of
        ((state, Some _), m) \<Rightarrow> Some (Some (state_error ''InitModules'' state), m)
      | ((state, None), m) \<Rightarrow>
          (case lockSortedModules m of
             (Inl err, m) \<Rightarrow> map_option (map_prod Some id) (finalizeInitFailure cx err [] m)
           | (Inr ordered, m) \<Rightarrow>
               (case runPhase cx ''init'' initModule 0 [] ordered m of
                  ((initializedCount, moduleTimings, _, initErr), m) \<Rightarrow>
                    (let m = recordInitTiming (cx_total cx) moduleTimings m in
                     case initErr of
                       Some err \<Rightarrow>
                         map_option (map_prod Some id)
                           (finalizeInitFailure cx err (take initializedCount ordered) m)
                     | None \<Rightarrow> Some (None, setState StateInitialized m)))))"

definition StartModules :: "callctx \<Rightarrow> manager \<Rightarrow> (gerror option \<times> manager) option" where
  "StartModules cx m =
     (if m_state m \<noteq> StateInitialized
      then Some (Some (state_error ''StartModules'' (m_state m)), m)
      else let m = m\<lparr>m_state := StateStarting\<rparr>;
               mods = m_orderedMods m
           in case runPhase cx ''start'' startModule 0 [] mods m of
                ((startedCount, moduleTimings, startAttempted, startErr), m) \<Rightarrow>
                  (let m = recordStartTiming (cx_total cx) moduleTimings m in
                   case startErr of
                     Some err \<Rightarrow>
                       (let stopCount = (if startAttempted \<and> startedCount < length mods
                                         then Suc startedCount else startedCount)
                        in map_option (map_prod Some id)
                             (finalizeFailure cx err (rollback (take stopCount mods) ''start rollback'') None m))
                   | None \<Rightarrow> Some (None, setState StateRunning m)))"

definition StopModules :: "callctx \<Rightarrow> manager \<Rightarrow> (gerror option \<times> manager) option" where
  "StopModules cx m =
     (if m_state m = StateStopped \<or> m_state m = StateStopping then Some (None, m)
      else if m_state m = StateInitializing \<or> m_state m = StateStarting
      then Some (Some (Errorf [Wrapped ErrInvalidLifecycleState,
                  Lit '': StopModules called while InitModules/StartModules is in progress ('',
                  Quoted (lifecycle_state_String (m_state m)),
                  Lit ''); cancel its context and wait for it to return instead'']), m)
      else case waitForTasks cx (taskCancel (m\<lparr>m_state := StateStopping\<rparr>)) of
             None \<Rightarrow> None
           | Some (waitErr, m1) \<Rightarrow>
               (let errs = (case waitErr of None \<Rightarrow> [] | Some e \<Rightarrow> [e]);
                    mods = m_orderedMods m1;
                    errs = (case cx_stopErr cx of None \<Rightarrow> errs
                            | Some e \<Rightarrow> errs @ [Errorf [Lit ''stop context already done before stopping modules: '',
                                                        Wrapped e]]);
                    (stopErrs, m2) = stop_loop ''stop'' (rev mods) m1;
                    (closeErr, m3) = closeEventBus m2;
                    errs = errs @ stopErrs @ (case closeErr of None \<Rightarrow> [] | Some e \<Rightarrow> [e])
                in Some (errors_Join_all errs, setState StateStopped m3)))"


section \<open>What module code keeps\<close>

locale foreign_code = task_ends +
  assumes R_op: "R m (snd (exec_op op m))"
begin

lemma R_run: "R m (snd (run p m))"
proof (induction p arbitrary: m)
  case (Call op k)
  obtain r m' where e: "exec_op op m = (r, m')" by fastforce
  then have "R m m'" using R_op [of m op] by simp
  moreover have "R m' (snd (run (k r) m'))"
    by (rule Call.IH) simp
  ultimately show ?case
    using e R_trans by simp
next
  case (Finish n oc p)
  then show ?case using R_trans [OF R_task Finish.IH] by simp
qed (simp add: R_refl)

end

locale phase_code = foreign_code +
  assumes R_log: "R m (log_call c m)"
begin

lemma R_initModule: "R m (snd (initModule md m))"
  unfolding initModule_def using R_log R_run R_trans by blast

lemma R_startModule: "R m (snd (startModule md m))"
proof (cases "mod_Start md")
  case (Some p)
  then show ?thesis
    using R_trans [OF R_log R_run] by (simp add: startModule_def)
qed (simp add: startModule_def R_refl)

lemma R_stopModule: "R m (snd (stopModule phase md m))"
proof (cases "mod_Stop md")
  case (Some p)
  obtain r m' where "run p (log_call (CStop (mod_key md)) m) = (r, m')" by fastforce
  then have "R m m'"
    using R_log [of m "CStop (mod_key md)"] R_run [of "log_call (CStop (mod_key md)) m" p] R_trans by auto
  then show ?thesis
    using Some \<open>run p _ = _\<close> by (auto simp: stopModule_def split: option.splits)
qed (simp add: stopModule_def R_refl)

lemma R_runPhase:
  assumes "\<And>md m. R m (snd (runFn md m))"
  shows "R m (snd (runPhase cx action runFn cnt timings mds m))"
proof (induction mds arbitrary: cnt timings m)
  case (Cons md mds)
  obtain r m' where r: "runFn md m = (r, m')" by fastforce
  then have "R m m'" using assms [of m md] by simp
  then show ?case
    using Cons.IH R_trans R_refl r by (auto simp: Let_def split: option.splits)
qed (simp add: R_refl)

lemma R_stop_loop: "R m (snd (stop_loop phase mds m))"
proof (induction mds arbitrary: m)
  case (Cons md mds)
  then show ?case
    using R_stopModule [of m phase md] R_trans by (auto split: prod.splits) (metis snd_conv)
qed (simp add: R_refl)

lemma R_rollback: "R m (snd (rollback mods phase m))"
  using R_stop_loop [of m phase "rev mods"]
  by (cases "stop_loop phase (rev mods) m") (simp add: rollback_def)

end

lemma exec_op_control [simp]:
  "control (snd (exec_op op m)) = control m" "m_calls (snd (exec_op op m)) = m_calls m"
  by (cases op; simp)+

lemma exec_op_wf: "wf_manager m \<Longrightarrow> wf_manager (snd (exec_op op m))"
  by (cases op) (simp_all add: RegisterService_wf Go_wf RegisterHealthCheck_wf RegisterReadinessCheck_wf)

lemma handles_same: "m_handles m' = m_handles m \<Longrightarrow> handles_grow m m'"
  by (simp add: handles_grow_def)

lemma exec_op_grow: "handles_grow m (snd (exec_op op m))"
proof (cases op)
  case (OpGo n f)
  then show ?thesis by (simp add: handles_grow_Go)
qed (auto intro!: handles_same simp: RegisterService_def RegisterHealthCheck_def RegisterReadinessCheck_def
    Let_def split: option.splits)

lemma log_call_simps [simp]:
  "control (log_call c m) = control m" "m_calls (log_call c m) = m_calls m @ [c]"
  "m_handles (log_call c m) = m_handles m"
  by (simp_all add: log_call_def control_def)

lemma log_call_wf: "wf_manager m \<Longrightarrow> wf_manager (log_call c m)"
  by (simp add: log_call_def wf_manager_def wf_tasks_def)

text \<open>In the stopping states \<open>Go\<close> starts nothing, so the task table only shrinks.\<close>

definition winding_down :: "manager \<Rightarrow> bool" where
  "winding_down m \<longleftrightarrow> m_state m = StateStopping \<or> m_state m = StateStopped"

definition no_new_tasks :: "manager \<Rightarrow> manager \<Rightarrow> bool" where
  "no_new_tasks m m' \<longleftrightarrow> (winding_down m \<longrightarrow> m_state m' = m_state m \<and>
     (\<forall>n h. map_of (m_tasks m') n = Some h \<longrightarrow> map_of (m_tasks m) n = Some h))"

lemma no_new_tasks_trans: "no_new_tasks a b \<Longrightarrow> no_new_tasks b c \<Longrightarrow> no_new_tasks a c"
  by (auto simp: no_new_tasks_def winding_down_def)

lemma no_new_tasks_same:
  "m_state m' = m_state m \<Longrightarrow> m_tasks m' = m_tasks m \<Longrightarrow> no_new_tasks m m'"
  by (simp add: no_new_tasks_def)

lemma no_new_tasks_superviseTask: "no_new_tasks m (superviseTask n oc m)"
  using control_superviseTask(1) [of n oc m]
  by (auto simp: no_new_tasks_def superviseTask_lookup control_def split: if_splits)

lemma no_new_tasks_op: "no_new_tasks m (snd (exec_op op m))"
proof (cases op)
  case (OpGo n f)
  then show ?thesis
    by (auto simp: Go_def Let_def no_new_tasks_def winding_down_def)
qed (auto intro!: no_new_tasks_same simp: RegisterService_def RegisterHealthCheck_def RegisterReadinessCheck_def
    Let_def split: option.splits)

interpretation calls: foreign_code "\<lambda>m m'. m_calls m' = m_calls m"
  by unfold_locales simp_all

interpretation control: phase_code "\<lambda>m m'. control m' = control m"
  by unfold_locales simp_all

interpretation wf: phase_code "\<lambda>m m'. wf_manager m \<longrightarrow> wf_manager m'"
  by unfold_locales (simp_all add: superviseTask_wf exec_op_wf log_call_wf)

interpretation grow: phase_code handles_grow
  by unfold_locales
    (auto intro: handles_grow_trans handles_grow_superviseTask exec_op_grow handles_same)

interpretation quiet: phase_code no_new_tasks
  by unfold_locales
    (auto intro: no_new_tasks_trans no_new_tasks_superviseTask no_new_tasks_op no_new_tasks_same
      simp: log_call_def)

lemma control_fields:
  assumes "control m' = control m"
  shows "m_modules m' = m_modules m" "m_moduleOrder m' = m_moduleOrder m"
    "m_orderedMods m' = m_orderedMods m" "m_eventBus m' = m_eventBus m" "m_state m' = m_state m"
    "m_panicPolicy m' = m_panicPolicy m" "m_taskCtx m' = m_taskCtx m" "m_cancelled m' = m_cancelled m"
  using assms by (simp_all add: control_def)


section \<open>The calls of each operation\<close>

definition init_calls :: "gomodule \<Rightarrow> lcall list" where
  "init_calls md = [CInit (mod_key md)]"

definition start_calls :: "gomodule \<Rightarrow> lcall list" where
  "start_calls md = (case mod_Start md of None \<Rightarrow> [] | Some _ \<Rightarrow> [CStart (mod_key md)])"

definition stop_calls :: "gomodule \<Rightarrow> lcall list" where
  "stop_calls md = (case mod_Stop md of None \<Rightarrow> [] | Some _ \<Rightarrow> [CStop (mod_key md)])"

lemma initModule_calls: "m_calls (snd (initModule md m)) = m_calls m @ init_calls md"
  using calls.R_run [of "mod_Init md" "log_call (CInit (mod_key md)) m"]
  by (simp add: initModule_def init_calls_def)

lemma startModule_calls: "m_calls (snd (startModule md m)) = m_calls m @ start_calls md"
proof (cases "mod_Start md")
  case (Some p)
  then show ?thesis
    using calls.R_run [of p "log_call (CStart (mod_key md)) m"]
    by (simp add: startModule_def start_calls_def)
qed (simp add: startModule_def start_calls_def)

lemma stopModule_calls: "m_calls (snd (stopModule phase md m)) = m_calls m @ stop_calls md"
proof (cases "mod_Stop md")
  case (Some p)
  then show ?thesis
    using calls.R_run [of p "log_call (CStop (mod_key md)) m"]
    by (auto simp: stopModule_def stop_calls_def split: prod.splits option.splits)
qed (simp add: stopModule_def stop_calls_def)

lemma stop_loop_calls:
  "m_calls (snd (stop_loop phase mds m)) = m_calls m @ concat (map stop_calls mds)"
proof (induction mds arbitrary: m)
  case (Cons md mds)
  obtain r m1 errs m2 where s: "stopModule phase md m = (r, m1)" "stop_loop phase mds m1 = (errs, m2)"
    by (meson surj_pair)
  then show ?case
    using stopModule_calls [of phase md m] Cons.IH [of m1] by simp
qed simp

lemma rollback_calls:
  "m_calls (snd (rollback mods phase m)) = m_calls m @ concat (map stop_calls (rev mods))"
  using stop_loop_calls [of phase "rev mods" m]
  by (cases "stop_loop phase (rev mods) m") (simp add: rollback_def)

text \<open>A phase calls the modules in order and stops at the first that fails, which counts as
  attempted, or before the first for which the context is done, which does not.\<close>

lemma runPhase_calls:
  assumes fn: "\<And>md m. m_calls (snd (runFn md m)) = m_calls m @ f md"
    and "runPhase cx action runFn cnt timings mds m = ((c, tm, att, err), m')"
  shows "cnt \<le> c \<and> (if err = None then c = cnt + length mds \<and> \<not> att else c < cnt + length mds) \<and>
    m_calls m' = m_calls m @ concat (map f (take (c - cnt + of_bool att) mds))"
  using assms(2)
proof (induction mds arbitrary: cnt timings m)
  case (Cons md mds)
  show ?case
  proof (cases "cx_phaseErr cx cnt")
    case None
    obtain r m1 where r: "runFn md m = (r, m1)" by fastforce
    then have m1: "m_calls m1 = m_calls m @ f md"
      using fn [of md m] by simp
    show ?thesis
    proof (cases r)
      case rNone: None
      have "runPhase cx action runFn (Suc cnt) (AList.update (mod_Name md) (cx_duration cx cnt) timings) mds m1
          = ((c, tm, att, err), m')"
        using Cons.prems None r rNone by (simp add: Let_def)
      note ih = Cons.IH [OF this]
      then have "c - cnt + of_bool att = Suc (c - Suc cnt + of_bool att)"
        by linarith
      then show ?thesis using ih m1 by auto
    next
      case (Some e)
      then show ?thesis using Cons.prems None r m1 by (auto simp: Let_def)
    qed
  next
    case (Some e)
    then show ?thesis using Cons.prems by auto
  qed
qed auto

lemma closeEventBus_calls:
  "m_eventBus m \<noteq> None \<Longrightarrow> m_calls (snd (closeEventBus m)) = m_calls m @ [CCloseBus]"
  by (auto simp: closeEventBus_def Let_def split: option.splits)

lemma closeEventBus_control [simp]:
  "control (snd (closeEventBus m)) = control m" "m_tasks (snd (closeEventBus m)) = m_tasks m"
  "m_handles (snd (closeEventBus m)) = m_handles m"
  by (auto simp: closeEventBus_def Let_def control_def split: option.splits)

lemma closeEventBus_wf: "wf_manager m \<Longrightarrow> wf_manager (snd (closeEventBus m))"
  by (auto simp: closeEventBus_def Let_def wf_manager_def wf_tasks_def split: option.splits)

lemma setState_simps [simp]:
  "m_state (setState s m) = s" "m_calls (setState s m) = m_calls m"
  "m_orderedMods (setState s m) = m_orderedMods m" "m_modules (setState s m) = m_modules m"
  "m_moduleOrder (setState s m) = m_moduleOrder m" "m_eventBus (setState s m) = m_eventBus m"
  "m_tasks (setState s m) = m_tasks m" "m_handles (setState s m) = m_handles m"
  "m_cancelled (setState s m) = m_cancelled m"
  by (simp_all add: setState_def)

lemma wf_manager_other_fields [simp]:
  "wf_manager (m\<lparr>m_state := s\<rparr>) = wf_manager m"
  "wf_manager (m\<lparr>m_orderedMods := os\<rparr>) = wf_manager m"
  "wf_manager (recordInitTiming tot tm m) = wf_manager m"
  "wf_manager (recordStartTiming tot tm m) = wf_manager m"
  by (simp_all add: wf_manager_def wf_tasks_def recordInitTiming_def recordStartTiming_def)

lemma setState_wf [simp]: "wf_manager (setState s m) = wf_manager m"
  by (simp add: setState_def)

text \<open>The failure path: the given modules are stopped in reverse order, the bus is closed and
  the manager is stopped.\<close>

lemma finalizeFailure_effect:
  assumes wf: "wf_manager m"
    and r: "finalizeFailure cx err (rollback mods phase) cleanup m = Some (e, m')"
    and cleanup: "cleanup = None \<or> cleanup = Some (\<lambda>m. m\<lparr>m_orderedMods := []\<rparr>)"
  shows "m_state m' = StateStopped" "wf_manager m'"
    "m_calls m' = m_calls m @ concat (map stop_calls (rev mods)) @ [CCloseBus]"
    "m_modules m' = m_modules m" "m_moduleOrder m' = m_moduleOrder m"
    "errors_is e t \<or> \<not> errors_is err t"
proof -
  obtain we m1 where w: "waitForTasks cx m = Some (we, m1)"
    using r by (auto simp: finalizeFailure_def split: option.splits)
  obtain re m2 where rb: "rollback mods phase m1 = (re, m2)" by fastforce
  obtain ce m3 where cl: "closeEventBus m2 = (ce, m3)" by fastforce
  define m4 where "m4 = (case cleanup of None \<Rightarrow> m3 | Some f \<Rightarrow> f m3)"
  have res: "m' = setState StateStopped m4" "e = join_err (join_err (join_err err we) re) ce"
    using r w rb cl by (simp_all add: finalizeFailure_def m4_def Let_def)
  have m4: "m4 = m3 \<or> m4 = m3\<lparr>m_orderedMods := []\<rparr>"
    using cleanup by (auto simp: m4_def)
  have w1: "wf_manager m1" using waitForTasks_wf [OF wf w] by simp
  have w2: "wf_manager m2" using wf.R_rollback [of m1 mods phase] w1 rb by simp
  have w3: "wf_manager m3" using closeEventBus_wf [OF w2] cl by simp
  have c2: "control m2 = control m1" "m_calls m2 = m_calls m1 @ concat (map stop_calls (rev mods))"
    using control.R_rollback [of mods phase m1] rollback_calls [of mods phase m1] rb by simp_all
  have c3: "control m3 = control m2" "m_calls m3 = m_calls m2 @ [CCloseBus]"
    using closeEventBus_control [of m2] closeEventBus_calls [of m2] cl w2 by (auto simp: wf_manager_def)
  show "m_state m' = StateStopped" by (simp add: res)
  show "wf_manager m'"
    using w3 m4 by (auto simp: res)
  show "m_calls m' = m_calls m @ concat (map stop_calls (rev mods)) @ [CCloseBus]"
    using m4 c3 c2 waitForTasks_frame [OF w] by (auto simp: res)
  show "m_modules m' = m_modules m" "m_moduleOrder m' = m_moduleOrder m"
    using m4 c3(1) c2(1) waitForTasks_frame [OF w] by (auto simp: res control_def)
  show "errors_is e t \<or> \<not> errors_is err t"
    by (auto simp: res join_err_def split: option.splits)
qed


section \<open>Outcomes of the lifecycle operations\<close>

lemma record_timing_simps [simp]:
  "control (recordInitTiming tot tm m) = control m" "m_calls (recordInitTiming tot tm m) = m_calls m"
  "control (recordStartTiming tot tm m) = control m" "m_calls (recordStartTiming tot tm m) = m_calls m"
  by (simp_all add: recordInitTiming_def recordStartTiming_def control_def)

lemma InitModules_rejected:
  "m_state m \<noteq> StateConfiguring \<Longrightarrow>
   InitModules cx m = Some (Some (state_error ''InitModules'' (m_state m)), m)"
  by (simp add: InitModules_def transitionToInitializing_def)

lemma StartModules_rejected:
  "m_state m \<noteq> StateInitialized \<Longrightarrow>
   StartModules cx m = Some (Some (state_error ''StartModules'' (m_state m)), m)"
  by (simp add: StartModules_def)

text \<open>\<open>InitModules\<close> on a configuring manager has one of three outcomes.\<close>

lemma InitModules_outcome:
  assumes wf: "wf_manager m" and st: "m_state m = StateConfiguring"
    and r: "InitModules cx m = Some (res, m')"
  obtains
    (unsorted) e e' where "sortModules (m_modules m) (m_moduleOrder m) = Inl e" "res = Some e'"
      "\<And>t. errors_is e t \<Longrightarrow> errors_is e' t" "m_state m' = StateStopped"
      "m_calls m' = m_calls m @ [CCloseBus]" "wf_manager m'"
      "m_modules m' = m_modules m" "m_moduleOrder m' = m_moduleOrder m"
  | (failed) ordered c att e' where "sortModules (m_modules m) (m_moduleOrder m) = Inr ordered"
      "res = Some e'" "c < length ordered" "m_state m' = StateStopped"
      "m_calls m' = m_calls m @ concat (map init_calls (take (c + of_bool att) ordered))
         @ concat (map stop_calls (rev (take c ordered))) @ [CCloseBus]" "wf_manager m'"
      "m_modules m' = m_modules m" "m_moduleOrder m' = m_moduleOrder m"
  | (initialized) ordered where "sortModules (m_modules m) (m_moduleOrder m) = Inr ordered"
      "res = None" "m_state m' = StateInitialized" "m_orderedMods m' = ordered"
      "m_calls m' = m_calls m @ concat (map init_calls ordered)" "wf_manager m'"
      "m_modules m' = m_modules m" "m_moduleOrder m' = m_moduleOrder m"
proof (cases "sortModules (m_modules m) (m_moduleOrder m)")
  case (Inl e)
  let ?m = "m\<lparr>m_state := StateInitializing, m_orderedMods := []\<rparr>"
  obtain e' where f: "finalizeInitFailure cx e [] ?m = Some (e', m')" "res = Some e'"
    using r st Inl by (auto simp: InitModules_def transitionToInitializing_def lockSortedModules_def)
  note eff = finalizeFailure_effect [OF _ f(1) [unfolded finalizeInitFailure_def]]
  show ?thesis
    using unsorted [OF Inl f(2)] eff wf by auto
next
  case (Inr ordered)
  let ?m = "m\<lparr>m_state := StateInitializing, m_orderedMods := ordered\<rparr>"
  obtain c tm att err m1 where p: "runPhase cx ''init'' initModule 0 [] ordered ?m = ((c, tm, att, err), m1)"
    by (metis surj_pair)
  have calls: "if err = None then c = length ordered \<and> \<not> att else c < length ordered"
      "m_calls m1 = m_calls m @ concat (map init_calls (take (c + of_bool att) ordered))"
    using runPhase_calls [OF initModule_calls p] by (simp_all split: if_splits)
  have ctl: "control m1 = control ?m"
    using control.R_runPhase [of initModule cx "''init''" 0 "[]" ordered ?m] control.R_initModule p by simp
  have wf1: "wf_manager m1"
    using wf.R_runPhase [of initModule ?m cx "''init''" 0 "[]" ordered] wf.R_initModule p wf by simp
  let ?m1 = "recordInitTiming (cx_total cx) tm m1"
  have same: "m_modules ?m1 = m_modules m" "m_moduleOrder ?m1 = m_moduleOrder m" "m_orderedMods ?m1 = ordered"
    using control_fields [OF ctl] by (simp_all add: recordInitTiming_def)
  show ?thesis
  proof (cases err)
    case None
    then have "res = None" "m' = setState StateInitialized ?m1"
      using r st Inr p by (auto simp: InitModules_def transitionToInitializing_def lockSortedModules_def Let_def)
    then show ?thesis
      using initialized [OF Inr] calls None wf1 same by simp
  next
    case (Some e)
    obtain e' where f: "finalizeInitFailure cx e (take c ordered) ?m1 = Some (e', m')" "res = Some e'"
      using r st Inr p Some
      by (auto simp: InitModules_def transitionToInitializing_def lockSortedModules_def Let_def)
    note eff = finalizeFailure_effect [OF _ f(1) [unfolded finalizeInitFailure_def]]
    show ?thesis
      using failed [OF Inr f(2)] eff calls Some wf1 same by simp
  qed
qed

lemma StartModules_outcome:
  assumes wf: "wf_manager m" and st: "m_state m = StateInitialized"
    and r: "StartModules cx m = Some (res, m')"
  obtains
    (failed) c att e' where "res = Some e'" "c < length (m_orderedMods m)" "m_state m' = StateStopped"
      "m_calls m' = m_calls m @ concat (map start_calls (take (c + of_bool att) (m_orderedMods m)))
         @ concat (map stop_calls (rev (take (c + of_bool att) (m_orderedMods m)))) @ [CCloseBus]"
      "wf_manager m'" "m_modules m' = m_modules m" "m_moduleOrder m' = m_moduleOrder m"
  | (running) "res = None" "m_state m' = StateRunning" "m_orderedMods m' = m_orderedMods m"
      "m_calls m' = m_calls m @ concat (map start_calls (m_orderedMods m))" "wf_manager m'"
      "m_modules m' = m_modules m" "m_moduleOrder m' = m_moduleOrder m"
proof -
  let ?m = "m\<lparr>m_state := StateStarting\<rparr>" and ?mods = "m_orderedMods m"
  obtain c tm att err m1 where p: "runPhase cx ''start'' startModule 0 [] ?mods ?m = ((c, tm, att, err), m1)"
    by (metis surj_pair)
  have calls: "if err = None then c = length ?mods \<and> \<not> att else c < length ?mods"
      "m_calls m1 = m_calls m @ concat (map start_calls (take (c + of_bool att) ?mods))"
    using runPhase_calls [OF startModule_calls p] by (simp_all split: if_splits)
  have ctl: "control m1 = control ?m"
    using control.R_runPhase [of startModule cx "''start''" 0 "[]" ?mods ?m] control.R_startModule p by simp
  have wf1: "wf_manager m1"
    using wf.R_runPhase [of startModule ?m cx "''start''" 0 "[]" ?mods] wf.R_startModule p wf by simp
  let ?m1 = "recordStartTiming (cx_total cx) tm m1"
  have same: "m_modules ?m1 = m_modules m" "m_moduleOrder ?m1 = m_moduleOrder m" "m_orderedMods ?m1 = ?mods"
    using control_fields [OF ctl] by (simp_all add: recordStartTiming_def)
  show ?thesis
  proof (cases err)
    case None
    then have "res = None" "m' = setState StateRunning ?m1"
      using r st p by (auto simp: StartModules_def Let_def)
    then show ?thesis
      using running calls None wf1 same by simp
  next
    case (Some e)
    have "(if att \<and> c < length ?mods then Suc c else c) = c + of_bool att"
      using calls(1) Some by simp
    then obtain e' where f: "finalizeFailure cx e (rollback (take (c + of_bool att) ?mods) ''start rollback'') None ?m1
        = Some (e', m')" "res = Some e'"
      using r st p Some by (auto simp: StartModules_def Let_def)
    note eff = finalizeFailure_effect [OF _ f(1)]
    show ?thesis
      using failed [OF f(2)] eff calls Some wf1 same by simp
  qed
qed

definition stoppable :: "lifecycle_state \<Rightarrow> bool" where
  "stoppable s \<longleftrightarrow> s = StateConfiguring \<or> s = StateInitialized \<or> s = StateRunning"

text \<open>The stop loop goes on after an error and reports it: whatever a module's stop returns in
  the state the loop reaches it in is among the collected errors.\<close>

lemma stop_loop_append:
  "stop_loop phase (xs @ ys) m =
     (let (es, m1) = stop_loop phase xs m; (es', m2) = stop_loop phase ys m1 in (es @ es', m2))"
  by (induction xs arbitrary: m) (auto split: prod.splits option.splits)

lemma stop_loop_reports:
  assumes "stopModule phase md (snd (stop_loop phase xs m)) = (Some e, m1)"
  shows "e \<in> set (fst (stop_loop phase (xs @ md # ys) m))"
  using assms by (auto simp: stop_loop_append split: prod.splits)

lemma StopModules_outcome:
  assumes wf: "wf_manager m" and st: "stoppable (m_state m)"
    and r: "StopModules cx m = Some (res, m')"
  obtains we m1 m2 stopErrs ce where
      "waitForTasks cx (taskCancel (m\<lparr>m_state := StateStopping\<rparr>)) = Some (we, m1)"
      "stop_loop ''stop'' (rev (m_orderedMods m)) m1 = (stopErrs, m2)"
      "closeEventBus m2 = (ce, snd (closeEventBus m2))"
      "m' = setState StateStopped (snd (closeEventBus m2))"
      "res = errors_Join_all ((case we of None \<Rightarrow> [] | Some e \<Rightarrow> [e]) @
         (case cx_stopErr cx of None \<Rightarrow> []
          | Some e \<Rightarrow> [Errorf [Lit ''stop context already done before stopping modules: '', Wrapped e]]) @
         stopErrs @ (case ce of None \<Rightarrow> [] | Some e \<Rightarrow> [e]))"
      "m_state m1 = StateStopping" "wf_manager m1" "wf_manager m2" "all_cancelled m1"
      "control m2 = control m1" "m_modules m1 = m_modules m" "m_moduleOrder m1 = m_moduleOrder m"
      "m_calls m' = m_calls m @ concat (map stop_calls (rev (m_orderedMods m))) @ [CCloseBus]"
proof -
  let ?m = "taskCancel (m\<lparr>m_state := StateStopping\<rparr>)"
  obtain we m1 where w: "waitForTasks cx ?m = Some (we, m1)"
    using r st by (auto simp: StopModules_def stoppable_def split: option.splits if_splits)
  have frame: "m_orderedMods m1 = m_orderedMods m" "m_state m1 = StateStopping" "m_calls m1 = m_calls m"
      "m_modules m1 = m_modules m" "m_moduleOrder m1 = m_moduleOrder m"
    using waitForTasks_frame [OF w] by (simp_all add: taskCancel_def)
  have wf1: "wf_manager m1" "all_cancelled m1"
    using waitForTasks_wf [OF _ w] wf taskCancel_wf by simp_all
  obtain stopErrs m2 where s: "stop_loop ''stop'' (rev (m_orderedMods m)) m1 = (stopErrs, m2)" by fastforce
  obtain ce m3 where c: "closeEventBus m2 = (ce, m3)" by fastforce
  have wf2: "wf_manager m2"
    using wf.R_stop_loop [of m1 "''stop''" "rev (m_orderedMods m)"] wf1 s by simp
  have ctl: "control m2 = control m1"
    using control.R_stop_loop [of "''stop''" "rev (m_orderedMods m)" m1] s by simp
  have calls: "m_calls m3 = m_calls m @ concat (map stop_calls (rev (m_orderedMods m))) @ [CCloseBus]"
    using closeEventBus_calls [of m2] wf2 c stop_loop_calls [of "''stop''" "rev (m_orderedMods m)" m1] s frame
    by (simp add: wf_manager_def)
  show ?thesis
    by (rule that [of we m1 stopErrs m2 ce])
      (use w s c wf1 wf2 ctl calls frame r st in
        \<open>auto simp: StopModules_def stoppable_def Let_def split: option.splits if_splits\<close>)
qed


section \<open>What the lifecycle operations keep\<close>

text \<open>A relation that module code keeps and that depends on the service table and the handle
  heap alone is kept by the lifecycle operations, which write neither.\<close>

locale lifecycle_code = phase_code +
  assumes R_same: "m_services m' = m_services m \<Longrightarrow> m_handles m' = m_handles m \<Longrightarrow> R m m'"
begin

lemma R_waitForTasks:
  assumes "waitForTasks cx m = Some (r, m')"
  shows "R m m'"
proof -
  have "R m (taskCancel m)"
    by (rule R_same) (simp_all add: taskCancel_def)
  then have "R m (awaited cx m)"
    using R_ends R_trans by (auto simp: awaited_def)
  moreover have "R (awaited cx m) m'"
    by (rule R_same) (simp_all add: waitForTasks_result(1) [OF assms] resetTaskCtx_def)
  ultimately show ?thesis by (rule R_trans)
qed

lemma R_closeEventBus: "R m (snd (closeEventBus m))"
  by (rule R_same) (auto simp: closeEventBus_def Let_def split: option.splits)

lemma R_finalizeFailure:
  assumes r: "finalizeFailure cx err (rollback mods phase) cleanup m = Some (e, m')"
    and cleanup: "cleanup = None \<or> cleanup = Some (\<lambda>m. m\<lparr>m_orderedMods := []\<rparr>)"
  shows "R m m'"
proof -
  obtain we m1 where w: "waitForTasks cx m = Some (we, m1)"
    using r by (auto simp: finalizeFailure_def split: option.splits)
  obtain re m2 ce m3 where s: "rollback mods phase m1 = (re, m2)" "closeEventBus m2 = (ce, m3)"
    by (meson surj_pair)
  have "R m m1" "R m1 m2" "R m2 m3"
    using R_waitForTasks [OF w] R_rollback [of m1 mods phase] R_closeEventBus [of m2] s by simp_all
  moreover have "R m3 m'"
    using r w s cleanup by (intro R_same) (auto simp: finalizeFailure_def setState_def)
  ultimately show ?thesis using R_trans by blast
qed

lemma R_InitModules:
  assumes r: "InitModules cx m = Some (res, m')"
  shows "R m m'"
proof (cases "m_state m = StateConfiguring")
  case True
  define mi where "mi = m\<lparr>m_state := StateInitializing\<rparr>"
  obtain srt ms where l: "lockSortedModules mi = (srt, ms)" by fastforce
  have s: "R m ms"
    by (rule R_same) (use l in \<open>auto simp: lockSortedModules_def mi_def split: sum.splits\<close>)
  have t: "transitionToInitializing m = ((StateInitializing, None), mi)"
    using True by (simp add: transitionToInitializing_def mi_def)
  show ?thesis
  proof (cases srt)
    case (Inl e)
    then obtain e' where "finalizeInitFailure cx e [] ms = Some (e', m')"
      using r t l by (auto simp: InitModules_def)
    then show ?thesis
      using R_trans [OF s] R_finalizeFailure by (auto simp: finalizeInitFailure_def)
  next
    case (Inr ordered)
    obtain c tm att err m1 where p: "runPhase cx ''init'' initModule 0 [] ordered ms = ((c, tm, att, err), m1)"
      by (metis surj_pair)
    then have "R ms m1"
      using R_runPhase [of initModule ms cx "''init''" 0 "[]" ordered] R_initModule by simp
    moreover have "R m1 (recordInitTiming (cx_total cx) tm m1)"
      by (rule R_same) (simp_all add: recordInitTiming_def)
    ultimately have "R m (recordInitTiming (cx_total cx) tm m1)"
      using s R_trans by blast
    moreover have "R (recordInitTiming (cx_total cx) tm m1) m'"
    proof (cases err)
      case None
      then show ?thesis
        using r t l Inr p by (intro R_same) (auto simp: InitModules_def Let_def setState_def)
    next
      case (Some e)
      then show ?thesis
        using r t l Inr p R_finalizeFailure by (auto simp: InitModules_def Let_def finalizeInitFailure_def)
    qed
    ultimately show ?thesis by (rule R_trans)
  qed
qed (use r in \<open>auto simp: InitModules_rejected R_refl\<close>)

lemma R_StartModules:
  assumes r: "StartModules cx m = Some (res, m')"
  shows "R m m'"
proof (cases "m_state m = StateInitialized")
  case True
  let ?m = "m\<lparr>m_state := StateStarting\<rparr>"
  obtain c tm att err m1 where p: "runPhase cx ''start'' startModule 0 [] (m_orderedMods m) ?m = ((c, tm, att, err), m1)"
    by (metis surj_pair)
  have "R m ?m" by (rule R_same) simp_all
  moreover have "R ?m m1"
    using R_runPhase [of startModule ?m cx "''start''" 0 "[]" "m_orderedMods m"] R_startModule p by simp
  moreover have "R m1 (recordStartTiming (cx_total cx) tm m1)"
    by (rule R_same) (simp_all add: recordStartTiming_def)
  ultimately have "R m (recordStartTiming (cx_total cx) tm m1)"
    using R_trans by blast
  moreover have "R (recordStartTiming (cx_total cx) tm m1) m'"
  proof (cases err)
    case None
    then show ?thesis
      using r True p by (intro R_same) (auto simp: StartModules_def Let_def setState_def)
  next
    case (Some e)
    then show ?thesis
      using r True p R_finalizeFailure by (auto simp: StartModules_def Let_def)
  qed
  ultimately show ?thesis by (rule R_trans)
qed (use r in \<open>auto simp: StartModules_rejected R_refl\<close>)

lemma R_StopModules:
  assumes r: "StopModules cx m = Some (res, m')"
  shows "R m m'"
proof (cases "stoppable (m_state m)")
  case True
  let ?m = "taskCancel (m\<lparr>m_state := StateStopping\<rparr>)"
  obtain we m1 where w: "waitForTasks cx ?m = Some (we, m1)"
    using r True by (auto simp: StopModules_def stoppable_def split: option.splits if_splits)
  obtain es m2 ce m3 where s: "stop_loop ''stop'' (rev (m_orderedMods m1)) m1 = (es, m2)" "closeEventBus m2 = (ce, m3)"
    by (meson surj_pair)
  have "R m ?m" by (rule R_same) (simp_all add: taskCancel_def)
  moreover have "R ?m m1" "R m1 m2" "R m2 m3"
    using R_waitForTasks [OF w] R_stop_loop [of m1 "''stop''" "rev (m_orderedMods m1)"] R_closeEventBus [of m2] s
    by simp_all
  moreover have "m' = setState StateStopped m3"
    using r True w s by (auto simp: StopModules_def stoppable_def Let_def)
  then have "R m3 m'"
    by (intro R_same) (simp_all add: setState_def)
  ultimately show ?thesis using R_trans by blast
next
  case False
  then show ?thesis
    using r by (cases "m_state m") (auto simp: StopModules_def stoppable_def R_refl)
qed

end

definition keeps_services :: "manager \<Rightarrow> manager \<Rightarrow> bool" where
  "keeps_services m m' \<longleftrightarrow> map_of (m_services m) \<subseteq>\<^sub>m map_of (m_services m')"

lemma keeps_services_same: "m_services m' = m_services m \<Longrightarrow> keeps_services m m'"
  by (simp add: keeps_services_def)

lemma keeps_services_trans: "keeps_services a b \<Longrightarrow> keeps_services b c \<Longrightarrow> keeps_services a c"
  unfolding keeps_services_def by (rule map_le_trans)

lemma keeps_services_superviseTask: "keeps_services m (superviseTask n oc m)"
  by (rule keeps_services_same) (auto simp: superviseTask_def Let_def split: option.splits)

lemma keeps_services_op: "keeps_services m (snd (exec_op op m))"
proof (cases op)
  case (OpRegisterService n svc)
  then show ?thesis
    by (auto simp: RegisterService_def Let_def keeps_services_def map_le_def)
qed (auto intro!: keeps_services_same simp: Go_def RegisterHealthCheck_def RegisterReadinessCheck_def
    Let_def split: option.splits)

interpretation services: lifecycle_code keeps_services
  by unfold_locales
    (auto intro: keeps_services_same keeps_services_superviseTask keeps_services_op keeps_services_trans
      simp: log_call_def)

interpretation handles: lifecycle_code handles_grow
  by unfold_locales (rule handles_same)

end
