(* ===== verification/Traces.thy ===== *)
theory Traces
  imports Lifecycle
begin

text \<open>
  Histories of a manager: the step relation of everything a program can do with it between two
  lifecycle calls, the managers reachable from \<open>NewManager\<close>, and the shape of the calls the
  manager has made into module code and into the event bus. From the shape follow the properties
  of the whole lifecycle: each \<open>Init\<close>, \<open>Start\<close> and \<open>Stop\<close> happens at most once, the bus is
  closed exactly when the manager is stopped, and dependencies are initialised before and
  stopped after their dependents.
\<close>

section \<open>Order of events\<close>







section \<open>Steps\<close>

inductive mstep :: "manager \<Rightarrow> manager \<Rightarrow> bool" where
  registry: "mstep m (snd (exec_op op m))"
| register: "mstep m (snd (RegisterModule md m))"
| task: "mstep m (superviseTask n oc m)"
| init: "InitModules cx m = Some (r, m') \<Longrightarrow> mstep m m'"
| start: "StartModules cx m = Some (r, m') \<Longrightarrow> mstep m m'"
| stop: "StopModules cx m = Some (r, m') \<Longrightarrow> mstep m m'"

inductive reachable :: "manager \<Rightarrow> bool" where
  new: "NewManager opts = Inr m \<Longrightarrow> reachable m"
| step: "reachable m \<Longrightarrow> mstep m m' \<Longrightarrow> reachable m'"

inductive_cases mstepE: "mstep m m'"


section \<open>The shape of a history\<close>

definition lifecycle_trace :: "gomodule list \<Rightarrow> nat \<Rightarrow> nat \<Rightarrow> nat \<Rightarrow> lcall list" where
  "lifecycle_trace ordered a b c =
     concat (map init_calls (take a ordered)) @ concat (map start_calls (take b ordered))
       @ concat (map stop_calls (rev (take c ordered)))"

definition sorted_as :: "manager \<Rightarrow> gomodule list \<Rightarrow> bool" where
  "sorted_as m ordered \<longleftrightarrow> sortModules (m_modules m) (m_moduleOrder m) = Inr ordered"

definition trace_ok :: "manager \<Rightarrow> bool" where
  "trace_ok m \<longleftrightarrow> wf_manager m \<and>
     (case m_state m of
        StateConfiguring \<Rightarrow> m_calls m = [] \<and> m_orderedMods m = []
      | StateInitialized \<Rightarrow> sorted_as m (m_orderedMods m) \<and>
          m_calls m = lifecycle_trace (m_orderedMods m) (length (m_orderedMods m)) 0 0
      | StateRunning \<Rightarrow> sorted_as m (m_orderedMods m) \<and>
          m_calls m = lifecycle_trace (m_orderedMods m) (length (m_orderedMods m)) (length (m_orderedMods m)) 0
      | StateStopped \<Rightarrow> m_calls m = [CCloseBus] \<or>
          (\<exists>ordered a b c. sorted_as m ordered \<and> b \<le> c \<and> c \<le> a \<and> a \<le> length ordered \<and>
             m_calls m = lifecycle_trace ordered a b c @ [CCloseBus])
      | _ \<Rightarrow> False)"

lemma sorted_as_cong:
  "m_modules m' = m_modules m \<Longrightarrow> m_moduleOrder m' = m_moduleOrder m \<Longrightarrow> sorted_as m' = sorted_as m"
  by (simp add: sorted_as_def fun_eq_iff)

lemma trace_ok_frame:
  assumes "trace_ok m" and "wf_manager m'" and "control m' = control m" and "m_calls m' = m_calls m"
  shows "trace_ok m'"
  using assms sorted_as_cong [of m' m] control_fields [OF assms(3)]
  by (simp add: trace_ok_def split: lifecycle_state.splits)

lemma trace_ok_RegisterModule: "trace_ok m \<Longrightarrow> trace_ok (snd (RegisterModule md m))"
proof (cases "m_state m = StateConfiguring")
  case True
  assume ok: "trace_ok m"
  have "m_state (snd (RegisterModule md m)) = m_state m" "m_calls (snd (RegisterModule md m)) = m_calls m"
      "m_orderedMods (snd (RegisterModule md m)) = m_orderedMods m"
    by (simp_all add: RegisterModule_def Let_def split: option.splits)
  then show ?thesis
    using ok True RegisterModule_wf by (simp add: trace_ok_def)
qed (simp add: RegisterModule_def)

lemma trace_ok_StoppedI:
  assumes "wf_manager m'" and "m_state m' = StateStopped" and "sorted_as m' ordered"
    and "b \<le> c" "c \<le> a" "a \<le> length ordered"
    and "m_calls m' = lifecycle_trace ordered a b c @ [CCloseBus]"
  shows "trace_ok m'"
  using assms by (auto simp: trace_ok_def)

lemma trace_ok_InitModules:
  assumes ok: "trace_ok m" and r: "InitModules cx m = Some (res, m')"
  shows "trace_ok m'"
proof (cases "m_state m = StateConfiguring")
  case True
  then have wf: "wf_manager m" and c0: "m_calls m = []"
    using ok by (simp_all add: trace_ok_def)
  show ?thesis
    using wf True r
  proof (cases rule: InitModules_outcome)
    case (unsorted e e')
    then show ?thesis using c0 by (simp add: trace_ok_def)
  next
    case (failed ordered c att e')
    show ?thesis
      by (rule trace_ok_StoppedI [of m' ordered 0 c "c + of_bool att"])
        (use failed c0 in \<open>simp_all add: sorted_as_def lifecycle_trace_def\<close>)
  next
    case (initialized ordered)
    then show ?thesis using c0 by (simp add: trace_ok_def sorted_as_def lifecycle_trace_def)
  qed
next
  case False
  then show ?thesis using ok r by (simp add: InitModules_rejected)
qed

lemma trace_ok_StartModules:
  assumes ok: "trace_ok m" and r: "StartModules cx m = Some (res, m')"
  shows "trace_ok m'"
proof (cases "m_state m = StateInitialized")
  case True
  let ?o = "m_orderedMods m"
  have wf: "wf_manager m" and s: "sorted_as m ?o" and c: "m_calls m = concat (map init_calls ?o)"
    using ok True by (simp_all add: trace_ok_def lifecycle_trace_def)
  show ?thesis
    using wf True r
  proof (cases rule: StartModules_outcome)
    case (failed c att e')
    show ?thesis
      by (rule trace_ok_StoppedI [of m' ?o "c + of_bool att" "c + of_bool att" "length ?o"])
        (use failed s c in \<open>simp_all add: sorted_as_def lifecycle_trace_def\<close>)
  next
    case running
    then show ?thesis using s c by (simp add: trace_ok_def sorted_as_def lifecycle_trace_def)
  qed
next
  case False
  then show ?thesis using ok r by (simp add: StartModules_rejected)
qed

lemma trace_ok_stoppable:
  "trace_ok m \<Longrightarrow> stoppable (m_state m) \<or> m_state m = StateStopped"
  by (auto simp: trace_ok_def stoppable_def split: lifecycle_state.splits)

lemma trace_ok_StopModules:
  assumes ok: "trace_ok m" and r: "StopModules cx m = Some (res, m')"
  shows "trace_ok m'"
proof (cases "m_state m = StateStopped")
  case True
  then show ?thesis using ok r by (simp add: StopModules_def)
next
  case False
  then have st: "stoppable (m_state m)" and wf: "wf_manager m"
    using ok trace_ok_stoppable by (auto simp: trace_ok_def)
  let ?o = "m_orderedMods m"
  show ?thesis
    using wf st r
  proof (cases rule: StopModules_outcome)
    case (1 we m1 m2 stopErrs ce)
    note eff = 1
    have m': "wf_manager m'" "m_state m' = StateStopped" "sorted_as m' = sorted_as m"
      using eff closeEventBus_wf [of m2] control_fields(1,2) [OF eff(10)]
        control_fields(1,2) [OF closeEventBus_control(1) [of m2]]
      by (simp_all add: sorted_as_def fun_eq_iff)
    consider "m_state m = StateConfiguring" | "m_state m = StateInitialized" | "m_state m = StateRunning"
      using st by (auto simp: stoppable_def)
    then show ?thesis
    proof cases
      case 1
      then show ?thesis using ok m' eff(13) by (simp add: trace_ok_def)
    next
      case 2
      then show ?thesis
        using ok m' eff(13)
        by (intro trace_ok_StoppedI [of m' ?o 0 "length ?o" "length ?o"]) (simp_all add: trace_ok_def lifecycle_trace_def)
    next
      case 3
      then show ?thesis
        using ok m' eff(13)
        by (intro trace_ok_StoppedI [of m' ?o "length ?o" "length ?o" "length ?o"]) (simp_all add: trace_ok_def lifecycle_trace_def)
    qed
  qed
qed

lemma trace_ok_mstep: "mstep m m' \<Longrightarrow> trace_ok m \<Longrightarrow> trace_ok m'"
proof (induction rule: mstep.induct)
  case (registry m op)
  then show ?case
    using trace_ok_frame [of m "snd (exec_op op m)"] exec_op_wf by (simp add: trace_ok_def)
next
  case (task m n oc)
  then show ?case
    using trace_ok_frame [of m "superviseTask n oc m"] superviseTask_wf by (simp add: trace_ok_def)
qed (auto intro: trace_ok_RegisterModule trace_ok_InitModules trace_ok_StartModules trace_ok_StopModules)

lemma NewManager_ordered: "NewManager opts = Inr m \<Longrightarrow> m_orderedMods m = []"
  using fold_apply_option [of opts zero_manager]
  by (auto simp: NewManager_def Let_def zero_manager_def split: if_splits)

lemma reachable_trace_ok: "reachable m \<Longrightarrow> trace_ok m"
proof (induction rule: reachable.induct)
  case (new opts m)
  then show ?case using NewManager_wf NewManager_ordered by (simp add: trace_ok_def)
qed (rule trace_ok_mstep)


section \<open>Properties of a history\<close>

fun call_key :: "lcall \<Rightarrow> string option" where
  "call_key (CInit k) = Some k"
| "call_key (CStart k) = Some k"
| "call_key (CStop k) = Some k"
| "call_key CCloseBus = None"

lemma set_init_calls: "set (concat (map init_calls ms)) = CInit ` mod_key ` set ms"
  by (induction ms) (auto simp: init_calls_def)

lemma set_start_calls:
  "set (concat (map start_calls ms)) = CStart ` mod_key ` {md \<in> set ms. mod_Start md \<noteq> None}"
proof (induction ms)
  case (Cons m ms)
  have "{md \<in> set (m # ms). mod_Start md \<noteq> None} =
      (if mod_Start m = None then {} else {m}) \<union> {md \<in> set ms. mod_Start md \<noteq> None}"
    by auto
  then show ?case using Cons.IH by (auto simp: start_calls_def)
qed simp

lemma set_stop_calls:
  "set (concat (map stop_calls ms)) = CStop ` mod_key ` {md \<in> set ms. mod_Stop md \<noteq> None}"
proof (induction ms)
  case (Cons m ms)
  have "{md \<in> set (m # ms). mod_Stop md \<noteq> None} =
      (if mod_Stop m = None then {} else {m}) \<union> {md \<in> set ms. mod_Stop md \<noteq> None}"
    by auto
  then show ?case using Cons.IH by (auto simp: stop_calls_def)
qed simp

lemmas set_calls = set_init_calls set_start_calls set_stop_calls

lemma distinct_concat_calls:
  assumes "\<And>md. f md = [] \<or> f md = [C (mod_key md)]" and "inj C" and "distinct (map mod_key ms)"
  shows "distinct (concat (map f ms))"
  using assms(3)
proof (induction ms)
  case (Cons m ms)
  have "C (mod_key m) \<notin> set (f md)" if "md \<in> set ms" for md
  proof -
    have "mod_key m \<noteq> mod_key md"
      using Cons.prems that by auto
    then have "C (mod_key m) \<noteq> C (mod_key md)"
      using assms(2) by (simp add: inj_eq)
    then show ?thesis using assms(1) [of md] by (elim disjE) simp_all
  qed
  then have "C (mod_key m) \<notin> set (concat (map f ms))"
    by simp
  then show ?case
    using Cons assms(1) [of m] by (elim disjE) simp_all
qed simp

lemma distinct_calls:
  assumes "distinct (map mod_key ms)"
  shows "distinct (concat (map init_calls ms))" "distinct (concat (map start_calls ms))"
    "distinct (concat (map stop_calls ms))"
proof -
  show "distinct (concat (map init_calls ms))"
    using assms by (rule distinct_concat_calls [where C = CInit, rotated 2]) (simp_all add: init_calls_def inj_def)
  show "distinct (concat (map start_calls ms))"
    using assms by (rule distinct_concat_calls [where C = CStart, rotated 2])
      (simp_all add: start_calls_def inj_def split: option.splits)
  show "distinct (concat (map stop_calls ms))"
    using assms by (rule distinct_concat_calls [where C = CStop, rotated 2])
      (simp_all add: stop_calls_def inj_def split: option.splits)
qed

lemma distinct_map_take: "distinct (map f xs) \<Longrightarrow> distinct (map f (take n xs))"
  by (simp add: take_map [symmetric])

lemma distinct_map_rev_take: "distinct (map f xs) \<Longrightarrow> distinct (map f (rev (take n xs)))"
  by (simp add: rev_map [symmetric] take_map [symmetric])

lemma lifecycle_trace_distinct:
  assumes "distinct (map mod_key ordered)"
  shows "distinct (lifecycle_trace ordered a b c)"
  unfolding lifecycle_trace_def distinct_append set_append set_calls
  using distinct_calls distinct_map_take [OF assms] distinct_map_rev_take [OF assms] by auto

lemma lifecycle_trace_set:
  "CInit k \<in> set (lifecycle_trace ordered a b c) \<longleftrightarrow> k \<in> mod_key ` set (take a ordered)"
  "CStart k \<in> set (lifecycle_trace ordered a b c) \<longleftrightarrow>
     k \<in> mod_key ` {md \<in> set (take b ordered). mod_Start md \<noteq> None}"
  "CStop k \<in> set (lifecycle_trace ordered a b c) \<longleftrightarrow>
     k \<in> mod_key ` {md \<in> set (take c ordered). mod_Stop md \<noteq> None}"
  "CCloseBus \<notin> set (lifecycle_trace ordered a b c)"
  unfolding lifecycle_trace_def set_append set_calls set_rev by auto

lemma reachable_history:
  assumes "reachable m"
  obtains (unsorted) "m_calls m = [] \<or> m_calls m = [CCloseBus]"
      "CCloseBus \<in> set (m_calls m) \<longleftrightarrow> m_state m = StateStopped"
  | (sorted) ordered a b c where "sorted_as m ordered" "wf_manager m" "b \<le> max c a" "c \<le> a" "a \<le> length ordered"
      "m_calls m = lifecycle_trace ordered a b c @ (if m_state m = StateStopped then [CCloseBus] else [])"
proof -
  have ok: "trace_ok m" using assms by (rule reachable_trace_ok)
  let ?o = "m_orderedMods m" and ?n = "length (m_orderedMods m)"
  consider "m_state m = StateConfiguring" | "m_state m = StateInitialized" | "m_state m = StateRunning"
    | "m_state m = StateStopped"
    using trace_ok_stoppable [OF ok] by (auto simp: stoppable_def)
  then show ?thesis
  proof cases
    case 1
    then show ?thesis using ok by (intro unsorted) (simp_all add: trace_ok_def)
  next
    case 2
    then show ?thesis using ok by (intro sorted [of ?o 0 0 ?n]) (simp_all add: trace_ok_def)
  next
    case 3
    then show ?thesis using ok by (intro sorted [of ?o ?n 0 ?n]) (simp_all add: trace_ok_def)
  next
    case 4
    then consider "m_calls m = [CCloseBus]"
      | ordered a b c where "sorted_as m ordered" "b \<le> c" "c \<le> a" "a \<le> length ordered"
          "m_calls m = lifecycle_trace ordered a b c @ [CCloseBus]"
      using ok by (auto simp: trace_ok_def)
    then show ?thesis
    proof cases
      case 1
      then show ?thesis using 4 by (intro unsorted) simp_all
    next
      case 2
      then show ?thesis using 4 ok by (intro sorted [of ordered b c a]) (auto simp: trace_ok_def)
    qed
  qed
qed

lemma sorted_as_result:
  assumes "sorted_as m ordered" and "wf_manager m"
  shows "topo_order ordered" "distinct (map mod_key ordered)"
  using sortModules_result assms by (auto simp: sorted_as_def wf_manager_def)



lemma concat_calls_in:
  "md \<in> set ms \<Longrightarrow> c \<in> set (f md) \<Longrightarrow> c \<in> set (concat (map f ms))"
  by auto



lemma reachable_distinct:
  assumes "reachable m"
  shows "distinct (m_calls m)"
  using assms
proof (cases rule: reachable_history)
  case (sorted ordered a b c)
  then show ?thesis
    using lifecycle_trace_distinct sorted_as_result(2) lifecycle_trace_set(4) by auto
qed auto

lemma reachable_closed: "reachable m \<Longrightarrow> CCloseBus \<in> set (m_calls m) \<longleftrightarrow> m_state m = StateStopped"
  by (cases rule: reachable_history) (auto simp: lifecycle_trace_set(4))






section \<open>Shutdown and supervised tasks\<close>

lemma map_of_None_Nil: "(\<And>n. map_of xs n = None) \<Longrightarrow> xs = []"
proof (cases xs)
  case (Cons p ps)
  assume "\<And>n. map_of xs n = None"
  from this [of "fst p"] show ?thesis using Cons by simp
qed simp

lemma awaited_empty:
  assumes wf: "wf_manager m" and w: "waitForTasks cx m = Some (r, m')" and "cx_waitErr cx = None"
  shows "m_tasks (awaited cx m) = []"
proof (cases "m_tasks m = []")
  case True
  then show ?thesis by (simp add: awaited_def taskCancel_def)
next
  case False
  have aw: "wf_tasks (awaited cx m)" using awaited_wf [OF wf] by simp
  have "map_of (m_tasks (awaited cx m)) n = None" for n
  proof (rule ccontr)
    assume "map_of (m_tasks (awaited cx m)) n \<noteq> None"
    then obtain h where h: "map_of (m_tasks (awaited cx m)) n = Some h" by blast
    then have "map_of (m_tasks m) n = Some h"
      using False by (simp add: awaited_def ends_lookup taskCancel_def split: if_splits)
    then have "handle_Done (awaited cx m) h"
      using waitForTasks_result(2) [OF w False] assms(3) by (force simp: list_all_iff dest: map_of_SomeD)
    moreover have "th_done (m_handles (awaited cx m) ! h) = Some False"
      using aw h by (auto simp: wf_tasks_def wf_handle_def)
    ultimately show False by (simp add: handle_Done_def taskHandle_Done_def)
  qed
  then show ?thesis by (rule map_of_None_Nil)
qed

lemma StopModules_tasks_lemma:
  assumes wf: "wf_manager m" and st: "stoppable (m_state m)" and r: "StopModules cx m = Some (res, m')"
  shows "\<forall>n h. map_of (m_tasks m') n = Some h \<longrightarrow>
      map_of (m_tasks m) n = Some h \<and> th_ctx (m_handles m' ! h) \<in> set (m_cancelled m')"
    and "cx_waitErr cx = None \<Longrightarrow> m_tasks m' = []" and "wf_manager m'"
  using wf st r
proof (atomize (full), cases rule: StopModules_outcome)
  case (1 we m1 m2 stopErrs ce)
  let ?m = "taskCancel (m\<lparr>m_state := StateStopping\<rparr>)"
  have wfm: "wf_manager ?m" using wf taskCancel_wf by simp
  have m1: "m1 = resetTaskCtx ((awaited cx ?m)\<lparr>m_taskErrs := []\<rparr>)"
    using waitForTasks_result(1) [OF 1(1)] .
  have t1: "map_of (m_tasks m) n = Some h" if "map_of (m_tasks m1) n = Some h" for n h
    using that by (auto simp: m1 resetTaskCtx_def awaited_def ends_lookup taskCancel_def split: if_splits)
  have q: "no_new_tasks m1 m2"
    using quiet.R_stop_loop [of m1 "''stop''" "rev (m_orderedMods m)"] 1(2) by simp
  have g: "handles_grow m1 m2"
    using grow.R_stop_loop [of m1 "''stop''" "rev (m_orderedMods m)"] 1(2) by simp
  have t2: "map_of (m_tasks m1) n = Some h" if "map_of (m_tasks m2) n = Some h" for n h
    using q that 1(6) by (simp add: no_new_tasks_def winding_down_def)
  have m': "m_tasks m' = m_tasks m2" "m_handles m' = m_handles m2" "m_cancelled m' = m_cancelled m1" "wf_manager m'"
    using 1(4,8,10) closeEventBus_wf [of m2] control_fields(8) [OF closeEventBus_control(1) [of m2]]
      control_fields(8) [OF 1(10)] by simp_all
  have "th_ctx (m_handles m' ! h) \<in> set (m_cancelled m')" if "map_of (m_tasks m1) n = Some h" for n h
  proof -
    have "h < length (m_handles m1)" using that 1(7) by (auto simp: wf_manager_def wf_tasks_def)
    then have "th_ctx (m_handles m2 ! h) = th_ctx (m_handles m1 ! h)"
      using g by (simp add: handles_grow_def)
    then show ?thesis using that 1(9) m' by (simp add: all_cancelled_def)
  qed
  moreover have "m_tasks m' = []" if "cx_waitErr cx = None"
  proof -
    have "m_tasks m1 = []"
      using awaited_empty [OF wfm 1(1) that] by (simp add: m1 resetTaskCtx_def)
    then have "map_of (m_tasks m2) n = None" for n
      using t2 [of n] by (cases "map_of (m_tasks m2) n") simp_all
    then show ?thesis unfolding m'(1) by (rule map_of_None_Nil)
  qed
  ultimately show "(\<forall>n h. map_of (m_tasks m') n = Some h \<longrightarrow>
      map_of (m_tasks m) n = Some h \<and> th_ctx (m_handles m' ! h) \<in> set (m_cancelled m')) \<and>
    (cx_waitErr cx = None \<longrightarrow> m_tasks m' = []) \<and> wf_manager m'"
    unfolding m'(1) using m'(4) t1 t2 by blast
qed

lemma reachable_wf: "reachable m \<Longrightarrow> wf_manager m"
  using reachable_trace_ok by (simp add: trace_ok_def)

lemma mstep_state_mono:
  assumes "mstep m m'" and ok: "trace_ok m"
  shows "m_state m \<le> m_state m'"
  using assms(1)
proof (cases rule: mstep.cases)
  case (registry op)
  then show ?thesis using control_fields(5) [OF exec_op_control(1) [of op m]] by simp
next
  case (register md)
  then show ?thesis by (simp add: RegisterModule_def Let_def split: option.splits)
next
  case (task n oc)
  then show ?thesis using control_fields(5) [OF control_superviseTask(1) [of n oc m]] by simp
next
  case (init cx r)
  have wf: "wf_manager m" using ok by (simp add: trace_ok_def)
  show ?thesis
  proof (cases "m_state m = StateConfiguring")
    case False
    then show ?thesis using init by (simp add: InitModules_rejected)
  qed simp
next
  case (start cx r)
  have wf: "wf_manager m" using ok by (simp add: trace_ok_def)
  show ?thesis
  proof (cases "m_state m = StateInitialized")
    case True
    from wf True start show ?thesis
      by (cases rule: StartModules_outcome) (use True in \<open>simp_all add: state_order_defs\<close>)
  next
    case False
    then show ?thesis using start by (simp add: StartModules_rejected)
  qed
next
  case (stop cx r)
  have wf: "wf_manager m" using ok by (simp add: trace_ok_def)
  show ?thesis
  proof (cases "m_state m = StateStopped")
    case True
    then show ?thesis using stop by (simp add: StopModules_def)
  next
    case False
    then have "stoppable (m_state m)" using trace_ok_stoppable [OF ok] by simp
    from wf this stop show ?thesis
      by (cases rule: StopModules_outcome) simp_all
  qed
qed

lemma mstep_services:
  assumes "mstep m m'"
  shows "keeps_services m m'"
  using assms
proof (cases rule: mstep.cases)
  case (register md)
  then show ?thesis
    by (auto intro!: keeps_services_same simp: RegisterModule_def Let_def split: option.splits)
qed (auto intro: keeps_services_op keeps_services_superviseTask services.R_InitModules
    services.R_StartModules services.R_StopModules)

lemma mstep_handles:
  assumes "mstep m m'"
  shows "handles_grow m m'"
  using assms
proof (cases rule: mstep.cases)
  case (register md)
  then show ?thesis
    by (auto intro!: handles_same simp: RegisterModule_def Let_def split: option.splits)
qed (auto intro: exec_op_grow handles_grow_superviseTask handles.R_InitModules
    handles.R_StartModules handles.R_StopModules)


section \<open>Properties of the lifecycle\<close>

text \<open>A concrete run: two modules, the second depending on the first.\<close>

definition ex_ctx :: callctx where
  "ex_ctx = \<lparr>cx_phaseErr = (\<lambda>_. None), cx_duration = (\<lambda>_. 1), cx_total = 2, cx_ends = [],
     cx_waitErr = None, cx_stopErr = None\<rparr>"

definition ex_registered :: manager where
  "ex_registered = snd (RegisterModule (Some (ex_module ''a'' []))
     (snd (RegisterModule (Some (ex_module ''b'' [''a''])) zero_manager)))"

definition ex_run :: "manager \<Rightarrow> (manager \<Rightarrow> (gerror option \<times> manager) option) \<Rightarrow> manager" where
  "ex_run m f = (case f m of None \<Rightarrow> m | Some (_, m') \<Rightarrow> m')"

definition ex_stopped :: manager where
  "ex_stopped = ex_run (ex_run ex_registered (InitModules ex_ctx)) (StopModules ex_ctx)"

lemma reachable_zero: "reachable zero_manager"
  by (rule reachable.new [of "[]"]) (simp add: NewManager_def zero_manager_def panicPolicy_valid_def)

lemma reachable_ex_registered: "reachable ex_registered"
  unfolding ex_registered_def
  by (rule reachable.step [OF reachable.step [OF reachable_zero mstep.register] mstep.register])

lemma reachable_ex_run:
  assumes "reachable m" and "\<And>m r m'. f m = Some (r, m') \<Longrightarrow> mstep m m'"
  shows "reachable (ex_run m f)"
  using assms by (auto simp: ex_run_def split: option.splits intro: reachable.step)

lemma reachable_ex_stopped: "reachable ex_stopped"
  unfolding ex_stopped_def
  by (rule reachable_ex_run [OF reachable_ex_run [OF reachable_ex_registered mstep.init] mstep.stop])

lemma ex_stopped_calls:
  "m_calls ex_stopped = [CInit ''a'', CInit ''b'', CStop ''b'', CStop ''a'', CCloseBus]"
  by code_simp

text \<open>C1. In every history of a manager, whatever is called and whatever the module code and the
  supervised tasks do, each module's \<open>Init\<close>, \<open>Start\<close> and \<open>Stop\<close> is called at most once, and
  the event bus has been closed, once, exactly when the manager is stopped.\<close>

theorem lifecycle_calls_once:
  assumes "reachable m"
  shows "distinct (m_calls m) \<and> (CCloseBus \<in> set (m_calls m) \<longleftrightarrow> m_state m = StateStopped)"
  using assms reachable_distinct reachable_closed by blast

theorem lifecycle_calls_once_witness:
  "distinct (m_calls ex_stopped) \<and> m_state ex_stopped = StateStopped"
  using lifecycle_calls_once [OF reachable_ex_stopped] ex_stopped_calls by simp



text \<open>C11. The lifecycle state only moves forward: no operation of the manager, at any point of
  its history, takes it to an earlier state, so a stopped manager stays stopped.\<close>

theorem lifecycle_state_monotone:
  assumes "reachable m" and "mstep m m'"
  shows "m_state m \<le> m_state m'"
  using mstep_state_mono [OF assms(2) reachable_trace_ok [OF assms(1)]] .

theorem lifecycle_state_monotone_witness:
  "m_state ex_registered \<le> m_state (snd (RegisterModule None ex_registered))"
  by (rule lifecycle_state_monotone [OF reachable_ex_registered mstep.register])

text \<open>C8. When a module's \<open>Init\<close> fails, or the context is done before it, exactly the modules
  initialised before it are stopped, in reverse order and after all calls of \<open>Init\<close>; then the
  bus is closed and the manager is stopped. An error is returned.\<close>

theorem InitModules_failure_rolls_back:
  assumes "wf_manager m" and "m_state m = StateConfiguring"
    and "sortModules (m_modules m) (m_moduleOrder m) = Inr ordered"
    and "InitModules cx m = Some (Some e, m')"
  shows "m_state m' = StateStopped \<and> (\<exists>c < length ordered. \<exists>att.
    m_calls m' = m_calls m @ concat (map init_calls (take (c + of_bool att) ordered))
      @ concat (map stop_calls (rev (take c ordered))) @ [CCloseBus])"
  using assms(1,2,4)
  by (cases rule: InitModules_outcome) (use assms(3) in auto)

definition ex_bad_init :: manager where
  "ex_bad_init = snd (RegisterModule (Some ((ex_module ''b'' [''a''])\<lparr>mod_Init := Ret (Some (Sentinel ''boom''))\<rparr>))
     (snd (RegisterModule (Some (ex_module ''a'' [])) zero_manager)))"

lemma ex_bad_init_facts:
  "wf_manager ex_bad_init" "m_state ex_bad_init = StateConfiguring"
  unfolding ex_bad_init_def
  by (simp_all add: RegisterModule_wf wf_zero_manager, code_simp)

lemma map_option_isSome: "(case x of None \<Rightarrow> False | Some y \<Rightarrow> P y) \<longleftrightarrow> (\<exists>y. x = Some y \<and> P y)"
  by (simp split: option.splits)

theorem InitModules_failure_rolls_back_witness:
  "\<exists>e m'. InitModules ex_ctx ex_bad_init = Some (Some e, m') \<and> m_state m' = StateStopped"
proof -
  have "case InitModules ex_ctx ex_bad_init of None \<Rightarrow> False | Some r \<Rightarrow> fst r \<noteq> None"
    by code_simp
  then obtain e m' where r: "InitModules ex_ctx ex_bad_init = Some (Some e, m')"
    by (auto simp: map_option_isSome)
  have "case sortModules (m_modules ex_bad_init) (m_moduleOrder ex_bad_init) of Inl _ \<Rightarrow> False | Inr _ \<Rightarrow> True"
    by code_simp
  then obtain ordered where "sortModules (m_modules ex_bad_init) (m_moduleOrder ex_bad_init) = Inr ordered"
    by (auto split: sum.splits)
  from InitModules_failure_rolls_back [OF ex_bad_init_facts this r] show ?thesis
    using r by blast
qed

text \<open>C9. When a module's \<open>Start\<close> fails it is stopped together with the modules started before
  it, in reverse order; a module for which the context was already done is not. The modules after
  it, although initialised, are never stopped. Then the bus is closed and the manager is
  stopped.\<close>

theorem StartModules_failure_rolls_back:
  assumes "wf_manager m" and "m_state m = StateInitialized"
    and "StartModules cx m = Some (Some e, m')"
  shows "m_state m' = StateStopped \<and> (\<exists>c < length (m_orderedMods m). \<exists>att.
    m_calls m' = m_calls m @ concat (map start_calls (take (c + of_bool att) (m_orderedMods m)))
      @ concat (map stop_calls (rev (take (c + of_bool att) (m_orderedMods m)))) @ [CCloseBus])"
  using assms by (cases rule: StartModules_outcome) auto

definition ex_bad_start :: manager where
  "ex_bad_start = ex_run (snd (RegisterModule (Some (ex_module ''b'' [''a'']))
     (snd (RegisterModule (Some ((ex_module ''a'' [])\<lparr>mod_Start := Some (Ret (Some (Sentinel ''boom'')))\<rparr>))
       zero_manager)))) (InitModules ex_ctx)"

lemma reachable_ex_bad_start: "reachable ex_bad_start"
  unfolding ex_bad_start_def
  by (rule reachable_ex_run [OF reachable.step [OF reachable.step [OF reachable_zero mstep.register]
        mstep.register] mstep.init])

theorem StartModules_failure_rolls_back_witness:
  "\<exists>e m'. StartModules ex_ctx ex_bad_start = Some (Some e, m') \<and> m_state m' = StateStopped"
proof -
  have "case StartModules ex_ctx ex_bad_start of None \<Rightarrow> False | Some r \<Rightarrow> fst r \<noteq> None"
    by code_simp
  then obtain e m' where r: "StartModules ex_ctx ex_bad_start = Some (Some e, m')"
    by (auto simp: map_option_isSome)
  have "m_state ex_bad_start = StateInitialized"
    by code_simp
  from StartModules_failure_rolls_back [OF reachable_wf [OF reachable_ex_bad_start] this r] show ?thesis
    using r by blast
qed

text \<open>A failed start leaves the modules after the failing one initialised and never stopped: here
  \<open>b\<close>, whose \<open>Init\<close> ran, although the comment of \<open>Stopper\<close> promises a \<open>Stop\<close> to every module
  whose \<open>Init\<close> succeeded.\<close>

theorem StartModules_failure_skips_initialised:
  "m_calls (ex_run (ex_run ex_bad_start (StartModules ex_ctx)) (StopModules ex_ctx)) =
     [CInit ''a'', CInit ''b'', CStart ''a'', CStop ''a'', CCloseBus]"
  by code_simp

text \<open>C7. \<open>StopModules\<close> on a manager that is not mid-phase, whatever fails on the way and even with
  an expired context, calls \<open>Stop\<close> on every module of the sorted list in reverse order, then
  closes the bus, and leaves the manager stopped; a second call does nothing and returns nil.\<close>

theorem StopModules_stops_everything:
  assumes "wf_manager m" and "stoppable (m_state m)" and "StopModules cx m = Some (r, m')"
  shows "m_state m' = StateStopped \<and>
    m_calls m' = m_calls m @ concat (map stop_calls (rev (m_orderedMods m))) @ [CCloseBus] \<and>
    StopModules cx' m' = Some (None, m')"
  using assms by (cases rule: StopModules_outcome) (simp add: StopModules_def)

theorem StopModules_stops_everything_witness:
  "\<exists>r m'. StopModules ex_ctx ex_bad_start = Some (r, m') \<and> StopModules ex_ctx m' = Some (None, m')"
proof -
  have "case StopModules ex_ctx ex_bad_start of None \<Rightarrow> False | Some r \<Rightarrow> True"
    by code_simp
  then obtain r m' where r: "StopModules ex_ctx ex_bad_start = Some (r, m')"
    by (auto simp: map_option_isSome)
  have "stoppable (m_state ex_bad_start)"
    by code_simp
  from StopModules_stops_everything [OF reachable_wf [OF reachable_ex_bad_start] this r] show ?thesis
    using r by blast
qed

lemma stopModule_always_fails:
  assumes "mod_Stop md = Some p" and "\<And>m. fst (run p m) = Some e"
  shows "\<exists>m'. stopModule phase md m = (Some (Errorf [Lit ''failed to stop module '', Quoted (mod_Name md),
     Lit '' during '', Lit phase, Lit '': '', Wrapped e]), m')"
proof -
  obtain r m' where r: "run p (log_call (CStop (mod_key md)) m) = (r, m')" by fastforce
  then have "r = Some e" using assms(2) [of "log_call (CStop (mod_key md)) m"] by simp
  then show ?thesis using assms(1) r by (simp add: stopModule_def)
qed

lemma errors_Join_all_is:
  "e \<in> set es \<Longrightarrow> errors_is e t \<Longrightarrow> \<exists>j. errors_Join_all es = Some j \<and> errors_is j t"
  by (auto simp: errors_Join_all_eq list_ex_iff)

text \<open>No shutdown failure is dropped: the error of a module's \<open>Stop\<close>, an expired context and
  the error of closing the bus are each wrapped by the error \<open>StopModules\<close> returns.\<close>

theorem StopModules_reports_failures:
  assumes "wf_manager m" and "stoppable (m_state m)" and "StopModules cx m = Some (r, m')"
  shows "(\<forall>md p e t. md \<in> set (m_orderedMods m) \<longrightarrow> mod_Stop md = Some p \<longrightarrow> (\<forall>m. fst (run p m) = Some e) \<longrightarrow>
       errors_is e t \<longrightarrow> (\<exists>j. r = Some j \<and> errors_is j t)) \<and>
    (\<forall>e t. cx_stopErr cx = Some e \<longrightarrow> errors_is e t \<longrightarrow> (\<exists>j. r = Some j \<and> errors_is j t)) \<and>
    (\<forall>eb e t. m_eventBus m = Some eb \<longrightarrow> event_bus_Close eb = Some e \<longrightarrow> errors_is e t \<longrightarrow>
       (\<exists>j. r = Some j \<and> errors_is j t))"
  using assms
proof (cases rule: StopModules_outcome)
  case (1 we m1 m2 stopErrs ce)
  have stop: "\<exists>j. r = Some j \<and> errors_is j t"
    if h: "md \<in> set (m_orderedMods m)" "mod_Stop md = Some p" "\<forall>m. fst (run p m) = Some e" "errors_is e t"
    for md p e t
  proof -
    obtain xs ys where s: "rev (m_orderedMods m) = xs @ md # ys"
      using h(1) split_list [of md "rev (m_orderedMods m)"] by auto
    let ?e = "Errorf [Lit ''failed to stop module '', Quoted (mod_Name md),
       Lit '' during '', Lit ''stop'', Lit '': '', Wrapped e]"
    obtain mx where "stopModule ''stop'' md (snd (stop_loop ''stop'' xs m1)) = (Some ?e, mx)"
      using stopModule_always_fails [of md p e] h by blast
    from stop_loop_reports [OF this, of ys] have "?e \<in> set stopErrs"
      using 1(2) s by simp
    then show ?thesis
      unfolding 1(5) using h(4) by (intro errors_Join_all_is [of ?e]) simp_all
  qed
  have expired: "\<exists>j. r = Some j \<and> errors_is j t" if "cx_stopErr cx = Some e" "errors_is e t" for e t
    unfolding 1(5) using that
    by (intro errors_Join_all_is [of "Errorf [Lit ''stop context already done before stopping modules: '', Wrapped e]"])
      simp_all
  have bus: "\<exists>j. r = Some j \<and> errors_is j t"
    if h: "m_eventBus m = Some eb" "event_bus_Close eb = Some e" "errors_is e t" for eb e t
  proof -
    have "m_eventBus m2 = Some eb"
      using h(1) control_fields(4) [OF 1(10)] waitForTasks_frame(4) [OF 1(1)] by (simp add: taskCancel_def)
    then have "ce = Some (Errorf [Lit ''failed to close event bus: '', Wrapped e])"
      using 1(3) h(2) by (simp add: closeEventBus_def Let_def)
    then show ?thesis
      unfolding 1(5) using h(3)
      by (intro errors_Join_all_is [of "Errorf [Lit ''failed to close event bus: '', Wrapped e]"]) simp_all
  qed
  show ?thesis using stop expired bus by blast
qed

definition ex_bad_bus :: manager where
  "ex_bad_bus = zero_manager\<lparr>m_eventBus := Some (UserBus (Some (Sentinel ''boom'')))\<rparr>"

theorem StopModules_reports_failures_witness:
  "\<exists>r m' j. StopModules ex_ctx ex_bad_bus = Some (r, m') \<and> r = Some j \<and> errors_is j (Sentinel ''boom'')"
proof -
  have "case StopModules ex_ctx ex_bad_bus of None \<Rightarrow> False | Some r \<Rightarrow> True"
    by code_simp
  then obtain r m' where r: "StopModules ex_ctx ex_bad_bus = Some (r, m')"
    by (auto simp: map_option_isSome)
  have wf: "wf_manager ex_bad_bus" "stoppable (m_state ex_bad_bus)"
    using wf_zero_manager by (simp_all add: ex_bad_bus_def wf_manager_def wf_tasks_def stoppable_def zero_manager_def)
  have b: "m_eventBus ex_bad_bus = Some (UserBus (Some (Sentinel ''boom'')))"
      "event_bus_Close (UserBus (Some (Sentinel ''boom''))) = Some (Sentinel ''boom'')"
    by (simp_all add: ex_bad_bus_def event_bus_Close_def)
  have "\<exists>j. r = Some j \<and> errors_is j (Sentinel ''boom'')"
    using StopModules_reports_failures [OF wf r, THEN conjunct2, THEN conjunct2] b errors_is_refl by meson
  then show ?thesis
    using r by blast
qed

text \<open>C6. When \<open>StopModules\<close> returns, a supervised task that still runs was running before the
  call and has had its context cancelled; and unless the caller's context expired, no task runs
  any more.\<close>

theorem StopModules_ends_tasks:
  assumes "wf_manager m" and "stoppable (m_state m)" and "StopModules cx m = Some (r, m')"
  shows "(\<forall>n h. map_of (m_tasks m') n = Some h \<longrightarrow>
      map_of (m_tasks m) n = Some h \<and> th_ctx (m_handles m' ! h) \<in> set (m_cancelled m')) \<and>
    (cx_waitErr cx = None \<longrightarrow> m_tasks m' = [] \<and>
      (\<forall>h < length (m_handles m'). taskHandle_Done (m_handles m' ! h)))"
proof -
  note tasks = StopModules_tasks_lemma [OF assms]
  have "taskHandle_Done (m_handles m' ! h)" if "m_tasks m' = []" "h < length (m_handles m')" for h
    using tasks(3) that by (auto simp: wf_manager_def wf_tasks_def wf_handle_def taskHandle_Done_def split: option.splits)
  then show ?thesis using tasks by blast
qed

theorem StopModules_ends_tasks_witness:
  "\<exists>r m'. StopModules ex_ctx ex_bad_start = Some (r, m') \<and> m_tasks m' = []"
proof -
  have "case StopModules ex_ctx ex_bad_start of None \<Rightarrow> False | Some r \<Rightarrow> True"
    by code_simp
  then obtain r m' where r: "StopModules ex_ctx ex_bad_start = Some (r, m')"
    by (auto simp: map_option_isSome)
  have "stoppable (m_state ex_bad_start)"
    by code_simp
  from StopModules_ends_tasks [OF reachable_wf [OF reachable_ex_bad_start] this r] show ?thesis
    using r by (auto simp: ex_ctx_def)
qed

text \<open>Errors of supervised tasks are neither lost nor reported twice: the wait reports the
  errors of the tasks that ended before it, then those of the tasks that end during it, each once
  and in order, then the timeout; and it leaves none behind.\<close>

theorem waitForTasks_errors_once:
  assumes "distinct (map fst (cx_ends cx))" and "fst ` set (cx_ends cx) \<subseteq> fst ` set (m_tasks m)"
    and "waitForTasks cx m = Some (r, m')"
  shows "r = errors_Join_all (m_taskErrs m @ concat (map (\<lambda>(n, oc). task_errors n oc) (cx_ends cx)) @
      (if m_tasks m = [] then [] else
       case cx_waitErr cx of None \<Rightarrow> []
       | Some e \<Rightarrow> [timeout_error e (map fst (m_tasks (awaited cx m)))])) \<and>
    m_taskErrs m' = []"
proof -
  have "\<forall>n \<in> fst ` set (cx_ends cx). map_of (m_tasks (taskCancel m)) n \<noteq> None"
    using assms(2) by (auto simp: taskCancel_def map_of_eq_None_iff)
  from ends_taskErrs [OF assms(1) this]
  have "m_taskErrs (awaited cx m) = m_taskErrs m @ concat (map (\<lambda>(n, oc). task_errors n oc) (cx_ends cx))"
    using assms(2) by (auto simp: awaited_def taskCancel_def)
  then show ?thesis
    using waitForTasks_result(3) [OF assms(3)] waitForTasks_frame(8) [OF assms(3)] by simp
qed

definition ex_task_ctx :: callctx where
  "ex_task_ctx = ex_ctx\<lparr>cx_ends := [(''t'', Panics ''p'')]\<rparr>"

definition ex_with_task :: manager where
  "ex_with_task = snd (Go ''t'' True zero_manager)"

theorem waitForTasks_errors_once_witness:
  "map_option fst (waitForTasks ex_task_ctx ex_with_task) =
     Some (Some (Joined (task_errors ''t'' (Panics ''p''))))"
proof -
  have "case waitForTasks ex_task_ctx ex_with_task of None \<Rightarrow> False | Some r \<Rightarrow> True"
    by code_simp
  then obtain r m' where r: "waitForTasks ex_task_ctx ex_with_task = Some (r, m')"
    by (auto simp: map_option_isSome)
  have "distinct (map fst (cx_ends ex_task_ctx))"
      "fst ` set (cx_ends ex_task_ctx) \<subseteq> fst ` set (m_tasks ex_with_task)"
    by code_simp+
  from waitForTasks_errors_once [OF this r] show ?thesis
    using r by (simp add: ex_task_ctx_def ex_ctx_def ex_with_task_def Go_def zero_manager_def Let_def TrimSpace_def
        is_space_def taskCtx_Err_def task_errors_def taskErr_of_def errors_Join_all_eq)
qed





text \<open>C13. The service registry keeps what it accepts: a service whose registration succeeds is
  not nil and resolves, under any spelling of its name up to surrounding white space, in every
  later state of the manager.\<close>

theorem registered_service_resolves:
  assumes "RegisterService name svc m = (None, m1)" and "mstep\<^sup>*\<^sup>* m1 m'" and "TrimSpace name' = TrimSpace name"
  shows "ResolveService name' m' = Inr svc \<and> \<not> isNilServiceValue svc"
proof -
  have reg: "map_of (m_services m1) (TrimSpace name) = Some svc" "TrimSpace name \<noteq> []" "\<not> isNilServiceValue svc"
    using assms(1) by (auto simp: RegisterService_def Let_def split: if_splits)
  have "keeps_services m1 m'"
    using assms(2) by (induction rule: rtranclp_induct) (auto intro: mstep_services services.R_refl services.R_trans)
  then have "map_of (m_services m') (TrimSpace name) = Some svc"
    using reg(1) by (auto simp: keeps_services_def map_le_def dom_def)
  then show ?thesis
    using reg assms(3) by (simp add: ResolveService_def Let_def)
qed

definition ex_service :: iface where
  "ex_service = IVal ''*db.Pool'' KindPointer False 7"

theorem registered_service_resolves_witness:
  "ResolveService '' db'' (snd (RegisterService ''db'' ex_service zero_manager)) = Inr ex_service"
proof -
  have r: "RegisterService ''db'' ex_service zero_manager =
      (None, snd (RegisterService ''db'' ex_service zero_manager))"
    by (simp add: RegisterService_def Let_def zero_manager_def TrimSpace_def is_space_def isNilServiceValue_def
        ex_service_def)
  have "TrimSpace '' db'' = TrimSpace ''db''" by code_simp
  from registered_service_resolves [OF r rtranclp.rtrancl_refl this] show ?thesis by simp
qed

text \<open>C12. In every reachable manager the tables are consistent: the modules are registered under
  their trimmed non-empty names and listed once in registration order, no registered service is
  nil, and a task handle is open exactly while its task is in the task table. A panic escapes the
  supervision only under the propagating policy.\<close>

theorem reachable_manager_consistent:
  assumes "reachable m"
  shows "wf_registration (m_modules m) (m_moduleOrder m) \<and>
    (\<forall>svc \<in> snd ` set (m_services m). \<not> isNilServiceValue svc) \<and>
    (\<forall>h < length (m_handles m). \<not> taskHandle_Done (m_handles m ! h) \<longleftrightarrow>
       map_of (m_tasks m) (th_name (m_handles m ! h)) = Some h) \<and>
    (m_crashed m \<longrightarrow> m_panicPolicy m = PanicPolicyPropagate)"
proof -
  have wf: "wf_manager m" using assms by (rule reachable_wf)
  have "\<not> taskHandle_Done (m_handles m ! h) \<longleftrightarrow> map_of (m_tasks m) (th_name (m_handles m ! h)) = Some h"
    if "h < length (m_handles m)" for h
  proof -
    have "wf_handle (m_tasks m) h (m_handles m ! h)"
      using wf that by (simp add: wf_manager_def wf_tasks_def)
    then show ?thesis
      by (auto simp: wf_handle_def taskHandle_Done_def split: option.splits)
  qed
  then show ?thesis using wf by (simp add: wf_manager_def)
qed

theorem reachable_manager_consistent_witness:
  "wf_registration (m_modules ex_stopped) (m_moduleOrder ex_stopped)"
  using reachable_manager_consistent [OF reachable_ex_stopped] by blast

text \<open>A finished task handle is final: once \<open>Done\<close> holds, no operation of the manager changes
  what \<open>Wait\<close> and \<open>Err\<close> return.\<close>

theorem finished_handle_is_final:
  assumes "mstep\<^sup>*\<^sup>* m m'" and "h < length (m_handles m)" and "taskHandle_Done (m_handles m ! h)"
  shows "taskHandle_Done (m_handles m' ! h) \<and>
    taskHandle_Wait (m_handles m' ! h) = Some (taskHandle_Err (m_handles m ! h)) \<and>
    taskHandle_Err (m_handles m' ! h) = taskHandle_Err (m_handles m ! h)"
proof -
  have "handles_grow m m'"
    using assms(1) by (induction rule: rtranclp_induct) (auto intro: mstep_handles handles_grow_trans)
  then have "m_handles m' ! h = m_handles m ! h"
    using assms(2,3) by (simp add: handles_grow_def)
  then show ?thesis
    using assms(3) by (auto simp: taskHandle_Done_def taskHandle_Wait_def taskHandle_Err_def split: option.splits)
qed

theorem finished_handle_is_final_witness:
  "taskHandle_Wait (m_handles (superviseTask ''t'' (Returns (Some (Sentinel ''e''))) ex_with_task) ! 0) =
     Some (Some (Sentinel ''e''))"
proof -
  let ?m = "superviseTask ''t'' (Returns (Some (Sentinel ''e''))) ex_with_task"
  have "0 < length (m_handles ?m)" "taskHandle_Done (m_handles ?m ! 0)"
      "taskHandle_Err (m_handles ?m ! 0) = Some (Sentinel ''e'')"
    by code_simp+
  with finished_handle_is_final [OF rtranclp.rtrancl_refl this(1,2)] show ?thesis by simp
qed


section \<open>A task started during a rollback\<close>

text \<open>A module whose \<open>Stop\<close> starts a task, and one that depends on it and fails to initialise.\<close>

definition ex_spawning_stop :: manager where
  "ex_spawning_stop = snd (RegisterModule (Some ((ex_module ''b'' [''a''])\<lparr>mod_Init := Ret (Some (Sentinel ''boom''))\<rparr>))
     (snd (RegisterModule (Some ((ex_module ''a'' [])\<lparr>mod_Stop := Some (Call (OpGo ''late'' True) (\<lambda>_. Ret None))\<rparr>))
       zero_manager)))"

text \<open>On the failure path the task context is recreated before the rollback, while the state is
  still \<open>StateInitializing\<close> (or \<open>StateStarting\<close>), so \<open>Go\<close> accepts a task from a module's
  \<open>Stop\<close>. The manager is stopped afterwards and the task is neither cancelled nor awaited, by this
  call or by a later \<open>StopModules\<close>, although the comment of \<open>waitForTasks\<close> has new tasks rejected
  by the lifecycle state.\<close>

theorem rollback_leaks_task:
  "case InitModules ex_ctx ex_spawning_stop of
     None \<Rightarrow> False
   | Some (_, m) \<Rightarrow>
       m_state m = StateStopped \<and> map_of (m_tasks m) ''late'' = Some 0 \<and>
       \<not> taskHandle_Done (m_handles m ! 0) \<and> th_ctx (m_handles m ! 0) \<notin> set (m_cancelled m) \<and>
       (case StopModules ex_ctx m of
          None \<Rightarrow> False
        | Some (r, m') \<Rightarrow> r = None \<and> map_of (m_tasks m') ''late'' = Some 0 \<and>
            th_ctx (m_handles m' ! 0) \<notin> set (m_cancelled m'))"
  by code_simp

end
