(* ===== verification/Diagnostics.thy ===== *)
theory Diagnostics
  imports Manager
begin

text \<open>
  The read-only views of the manager: \<open>ModuleContract\<close> and \<open>Diagnostics\<close>
  (\<open>src/diagnostics.go\<close>), the recorded timings, and the Mermaid rendering \<open>ExportDAG\<close> with its
  node identifiers (\<open>src/modulex.go\<close>).

  The views range over Go maps, whose iteration order is arbitrary; the lemmas show that they
  depend on the contents of the maps only. The Mermaid lemmas show that distinct names get
  distinct node identifiers and that no module name can break out of its line or its label.
\<close>

section \<open>Module contract and diagnostics\<close>

record contractEntry =
  ce_Name :: string
  ce_DependsOn :: "string list"

definition normalized_deps :: "string list \<Rightarrow> string list" where
  "normalized_deps rawDeps = sort (filter (\<lambda>d. d \<noteq> []) (map TrimSpace rawDeps))"

definition module_deps :: "gomodule gomap \<Rightarrow> string \<Rightarrow> string list" where
  "module_deps mods name = (case map_of mods name of None \<Rightarrow> [] | Some md \<Rightarrow> mod_DependsOn md)"

definition ModuleContract :: "manager \<Rightarrow> contractEntry list" where
  "ModuleContract m =
     map (\<lambda>name. \<lparr>ce_Name = name, ce_DependsOn = normalized_deps (module_deps (m_modules m) name)\<rparr>)
       (sorted_names (m_modules m))"

record taskDiagnostic =
  td_Name :: string
  td_Done :: bool
  td_Err :: "gerror option"

definition taskDiagnostic_of :: "taskHandle \<Rightarrow> taskDiagnostic" where
  "taskDiagnostic_of t =
     (let done = taskHandle_Done t
      in \<lparr>td_Name = th_name t, td_Done = done, td_Err = (if done then taskHandle_Err t else None)\<rparr>)"

definition taskDiagnostics :: "manager \<Rightarrow> taskDiagnostic list" where
  "taskDiagnostics m =
     sort_key td_Name (map (\<lambda>(_, h). taskDiagnostic_of (m_handles m ! h)) (m_tasks m))"

definition sortedModuleTimings :: "int gomap \<Rightarrow> (string \<times> int) list" where
  "sortedModuleTimings tm = (if tm = [] then [] else sort_key fst tm)"

record lifecycleTimings =
  lt_InitModules :: int
  lt_StartModules :: int
  lt_ModuleInit :: "(string \<times> int) list"
  lt_ModuleStart :: "(string \<times> int) list"

definition lifecycleTimings_of :: "manager \<Rightarrow> lifecycleTimings" where
  "lifecycleTimings_of m =
     \<lparr>lt_InitModules = m_initTotal m, lt_StartModules = m_startTotal m,
      lt_ModuleInit = sortedModuleTimings (m_initTimings m),
      lt_ModuleStart = sortedModuleTimings (m_startTimings m)\<rparr>"

definition serviceNames :: "manager \<Rightarrow> string list" where
  "serviceNames m = sorted_names (m_services m)"

definition sortedCheckNames :: "check_fn gomap \<Rightarrow> string list" where
  "sortedCheckNames checks = sorted_names checks"

record diagnostics =
  dg_State :: string
  dg_Modules :: "contractEntry list"
  dg_Services :: "string list"
  dg_Tasks :: "taskDiagnostic list"
  dg_HealthChecks :: "string list"
  dg_ReadinessChecks :: "string list"
  dg_Timings :: lifecycleTimings

definition manager_Diagnostics :: "manager \<Rightarrow> diagnostics" where
  "manager_Diagnostics m =
     \<lparr>dg_State = lifecycle_state_String (m_state m), dg_Modules = ModuleContract m,
      dg_Services = serviceNames m, dg_Tasks = taskDiagnostics m,
      dg_HealthChecks = sortedCheckNames (HealthChecks m),
      dg_ReadinessChecks = sortedCheckNames (ReadinessChecks m),
      dg_Timings = lifecycleTimings_of m\<rparr>"


section \<open>Mermaid\<close>

definition safe_char :: "char \<Rightarrow> bool" where
  "safe_char c \<longleftrightarrow> (CHR ''A'' \<le> c \<and> c \<le> CHR ''Z'') \<or> (CHR ''a'' \<le> c \<and> c \<le> CHR ''z'')
     \<or> (CHR ''0'' \<le> c \<and> c \<le> CHR ''9'') \<or> c = CHR ''_'' \<or> c = CHR ''-''"

definition mermaidSafeID :: "string \<Rightarrow> bool" where
  "mermaidSafeID name \<longleftrightarrow> name \<noteq> [] \<and> list_all safe_char name"

definition synthetic :: "nat \<Rightarrow> string" where
  "synthetic n = CHR ''n'' # itoa n"

lemma synthetic_inj [simp]: "synthetic a = synthetic b \<longleftrightarrow> a = b"
  by (simp add: synthetic_def)

function skip_reserved :: "string list \<Rightarrow> nat \<Rightarrow> nat" where
  "skip_reserved reserved counter =
     (if synthetic counter \<in> set reserved then skip_reserved reserved (Suc counter) else counter)"
  by auto

text \<open>Finitely many names are reserved, so only finitely many counters are skipped.\<close>

lemma finite_reserved: "finite {k. counter \<le> k \<and> synthetic k \<in> set reserved}"
proof (rule finite_subset)
  show "{k. counter \<le> k \<and> synthetic k \<in> set reserved} \<subseteq> synthetic -` set reserved" by auto
  show "finite (synthetic -` set reserved)"
    by (rule finite_vimageI) (auto simp: inj_def)
qed

termination skip_reserved
proof (relation "measure (\<lambda>(reserved, counter). card {k. counter \<le> k \<and> synthetic k \<in> set reserved})")
  fix reserved counter
  assume "synthetic counter \<in> set reserved"
  then have "counter \<in> {k. counter \<le> k \<and> synthetic k \<in> set reserved}"
    by simp
  moreover have "counter \<notin> {k. Suc counter \<le> k \<and> synthetic k \<in> set reserved}"
    by simp
  moreover have "{k. Suc counter \<le> k \<and> synthetic k \<in> set reserved} \<subseteq> {k. counter \<le> k \<and> synthetic k \<in> set reserved}"
    by auto
  ultimately have "{k. Suc counter \<le> k \<and> synthetic k \<in> set reserved} \<subset> {k. counter \<le> k \<and> synthetic k \<in> set reserved}"
    by blast
  then show "((reserved, Suc counter), (reserved, counter)) \<in>
      measure (\<lambda>(reserved, counter). card {k. counter \<le> k \<and> synthetic k \<in> set reserved})"
    using psubset_card_mono [OF finite_reserved] by simp
qed simp

declare skip_reserved.simps [simp del]

fun assign_ids :: "string list \<Rightarrow> string list \<Rightarrow> string gomap \<Rightarrow> nat \<Rightarrow> string gomap" where
  "assign_ids reserved [] ids counter = ids"
| "assign_ids reserved (name # names) ids counter =
     (if map_of ids name \<noteq> None then assign_ids reserved names ids counter
      else if mermaidSafeID name then assign_ids reserved names (AList.update name name ids) counter
      else let c = skip_reserved reserved counter
           in assign_ids reserved names (AList.update name (synthetic c) ids) (Suc c))"

definition mermaidNodeIDs :: "string list \<Rightarrow> string gomap" where
  "mermaidNodeIDs names = assign_ids (filter mermaidSafeID names) names [] 0"

definition mermaidEscape_char :: "char \<Rightarrow> string" where
  "mermaidEscape_char c =
     (if c = CHR 0x22 then ''#quot;'' else if c = CHR ''<'' then ''#lt;''
      else if c = CHR ''>'' then ''#gt;'' else if c = CHR 0x0A \<or> c = CHR 0x0D then '' '' else [c])"

definition mermaidEscapeLabel :: "string \<Rightarrow> string" where
  "mermaidEscapeLabel name = concat (map mermaidEscape_char name)"

definition mermaidNode :: "string \<Rightarrow> string \<Rightarrow> string" where
  "mermaidNode nid name =
     (if mermaidSafeID name then nid @ ''['' @ name @ '']''
      else nid @ ''['' @ strconv_Quote (mermaidEscapeLabel name) @ '']'')"

definition go_index :: "string gomap \<Rightarrow> string \<Rightarrow> string" where
  "go_index mp k = (case map_of mp k of None \<Rightarrow> [] | Some v \<Rightarrow> v)"

definition dag_deps :: "gomodule gomap \<Rightarrow> string \<Rightarrow> string list" where
  "dag_deps mods name = filter (\<lambda>d. d \<noteq> []) (map TrimSpace (sort (module_deps mods name)))"

definition dag_line :: "string \<Rightarrow> string" where
  "dag_line s = ''    '' @ s @ [CHR 0x0A]"

definition dag_block :: "string gomap \<Rightarrow> gomodule gomap \<Rightarrow> string \<Rightarrow> string" where
  "dag_block ids mods name =
     dag_line (mermaidNode (go_index ids name) name)
     @ concat (map (\<lambda>dep. dag_line (go_index ids name @ '' --> '' @ go_index ids dep)) (dag_deps mods name))"

definition dag_inputs :: "gomodule gomap \<Rightarrow> string list" where
  "dag_inputs mods = sorted_names mods @ concat (map (dag_deps mods) (sorted_names mods))"

definition ExportDAG :: "manager \<Rightarrow> string" where
  "ExportDAG m =
     (let mods = m_modules m; ids = mermaidNodeIDs (dag_inputs mods)
      in ''graph TD'' @ [CHR 0x0A] @ concat (map (dag_block ids mods) (sorted_names mods)))"


section \<open>Independence of the iteration order\<close>

lemma fold_update_fresh:
  "distinct (map fst (acc @ mp)) \<Longrightarrow> fold (\<lambda>(k, v) checks. AList.update k v checks) mp acc = acc @ mp"
proof (induction mp arbitrary: acc)
  case (Cons p mp)
  obtain k v where p: "p = (k, v)" by fastforce
  then have "AList.update k v acc = acc @ [(k, v)]"
    using Cons.prems update_fresh [of k acc v] by force
  then show ?case using Cons p by simp
qed simp

lemma HealthChecks_id: "wf_manager m \<Longrightarrow> HealthChecks m = m_healthChecks m"
  using fold_update_fresh [of "[]" "m_healthChecks m"] by (simp add: HealthChecks_def wf_manager_def wf_names_def)

lemma ReadinessChecks_id: "wf_manager m \<Longrightarrow> ReadinessChecks m = m_readinessChecks m"
  using fold_update_fresh [of "[]" "m_readinessChecks m"] by (simp add: ReadinessChecks_def wf_manager_def wf_names_def)

lemma sort_key_perm:
  fixes f :: "'a \<Rightarrow> 'b::linorder"
  assumes "mset xs = mset ys" and "distinct (map f xs)"
  shows "sort_key f xs = sort_key f ys"
proof (rule sort_key_inj_key_eq)
  show "mset xs = mset (sort_key f ys)" using assms(1) by simp
  show "inj_on f (set xs)" using assms(2) by (simp add: distinct_map)
  show "sorted (map f (sort_key f ys))" by simp
qed

text \<open>Two managers that differ only in the order in which their maps are iterated.\<close>

definition same_maps :: "manager \<Rightarrow> manager \<Rightarrow> bool" where
  "same_maps m m' \<longleftrightarrow>
     m' = m\<lparr>m_modules := m_modules m', m_services := m_services m', m_tasks := m_tasks m',
       m_healthChecks := m_healthChecks m', m_readinessChecks := m_readinessChecks m',
       m_initTimings := m_initTimings m', m_startTimings := m_startTimings m'\<rparr> \<and>
     mset (m_modules m') = mset (m_modules m) \<and> mset (m_services m') = mset (m_services m) \<and>
     mset (m_tasks m') = mset (m_tasks m) \<and> mset (m_healthChecks m') = mset (m_healthChecks m) \<and>
     mset (m_readinessChecks m') = mset (m_readinessChecks m) \<and>
     mset (m_initTimings m') = mset (m_initTimings m) \<and> mset (m_startTimings m') = mset (m_startTimings m)"

lemma same_maps_scalars:
  assumes "same_maps m m'"
  shows "m_state m' = m_state m" "m_initTotal m' = m_initTotal m" "m_startTotal m' = m_startTotal m"
proof -
  obtain a b c d e f g where "m' = m\<lparr>m_modules := a, m_services := b, m_tasks := c, m_healthChecks := d,
      m_readinessChecks := e, m_initTimings := f, m_startTimings := g\<rparr>"
    using assms unfolding same_maps_def by blast
  then show "m_state m' = m_state m" "m_initTotal m' = m_initTotal m" "m_startTotal m' = m_startTotal m"
    by simp_all
qed

lemma same_maps_msets:
  assumes "same_maps m m'"
  shows "mset (m_modules m') = mset (m_modules m)" "mset (m_services m') = mset (m_services m)"
    "mset (m_tasks m') = mset (m_tasks m)" "mset (m_healthChecks m') = mset (m_healthChecks m)"
    "mset (m_readinessChecks m') = mset (m_readinessChecks m)"
    "mset (m_initTimings m') = mset (m_initTimings m)" "mset (m_startTimings m') = mset (m_startTimings m)"
  using assms unfolding same_maps_def by blast+

lemma module_deps_perm:
  "distinct (map fst mods) \<Longrightarrow> mset mods' = mset mods \<Longrightarrow> module_deps mods' = module_deps mods"
  using map_of_perm [of mods mods'] by (simp add: module_deps_def fun_eq_iff)

lemma ModuleContract_perm:
  assumes "distinct (map fst (m_modules m))" and "mset (m_modules m') = mset (m_modules m)"
  shows "ModuleContract m' = ModuleContract m"
  using module_deps_perm [OF assms] sorted_names_perm [OF assms(2)] by (simp add: ModuleContract_def)

lemma sortedModuleTimings_perm:
  "distinct (map fst tm) \<Longrightarrow> mset tm' = mset tm \<Longrightarrow> sortedModuleTimings tm' = sortedModuleTimings tm"
  using sort_key_perm [of tm tm' fst] by (auto simp: sortedModuleTimings_def)

lemma ExportDAG_perm:
  assumes "distinct (map fst (m_modules m))" and "mset (m_modules m') = mset (m_modules m)"
  shows "ExportDAG m' = ExportDAG m"
proof -
  have "dag_deps (m_modules m') = dag_deps (m_modules m)"
    using module_deps_perm [OF assms] by (simp add: dag_deps_def fun_eq_iff)
  then have "dag_block ids (m_modules m') = dag_block ids (m_modules m)" "dag_inputs (m_modules m') = dag_inputs (m_modules m)"
    for ids
    using sorted_names_perm [OF assms(2)] by (simp_all add: dag_block_def [abs_def] dag_inputs_def)
  then show ?thesis
    using sorted_names_perm [OF assms(2)] by (simp only: ExportDAG_def Let_def)
qed

lemma wf_tasks_open:
  assumes "wf_tasks m" and "(n, h) \<in> set (m_tasks m)"
  shows "taskDiagnostic_of (m_handles m ! h) = \<lparr>td_Name = n, td_Done = False, td_Err = None\<rparr>"
proof -
  have "map_of (m_tasks m) n = Some h"
    using assms by (simp add: wf_tasks_def)
  then have "th_name (m_handles m ! h) = n" "th_done (m_handles m ! h) = Some False"
    using assms(1) by (auto simp: wf_tasks_def wf_handle_def)
  then show ?thesis by (simp add: taskDiagnostic_of_def taskHandle_Done_def)
qed

lemma taskDiagnostics_open:
  assumes "wf_tasks m"
  shows "taskDiagnostics m = map (\<lambda>n. \<lparr>td_Name = n, td_Done = False, td_Err = None\<rparr>) (sorted_names (m_tasks m))"
proof -
  let ?d = "\<lambda>n. \<lparr>td_Name = n, td_Done = False, td_Err = None\<rparr>"
  have "map (\<lambda>(_, h). taskDiagnostic_of (m_handles m ! h)) (m_tasks m) = map ?d (map fst (m_tasks m))"
    using wf_tasks_open [OF assms] by auto
  then have "taskDiagnostics m = sort_key td_Name (map ?d (map fst (m_tasks m)))"
    by (simp only: taskDiagnostics_def)
  also have "\<dots> = map ?d (sort (map fst (m_tasks m)))"
    by (rule sort_key_inj_key_eq) (simp_all add: inj_on_def comp_def image_mset.compositionality)
  finally show ?thesis by (simp add: sorted_names_def)
qed


section \<open>Mermaid identifiers and labels\<close>

lemma skip_reserved_fresh: "synthetic (skip_reserved reserved counter) \<notin> set reserved \<and> counter \<le> skip_reserved reserved counter"
proof (induction reserved counter rule: skip_reserved.induct)
  case (1 reserved counter)
  then show ?case by (subst (1 2) skip_reserved.simps) auto
qed

text \<open>The identifiers assigned so far: a safe name keeps itself, an unsafe name has a synthetic
  identifier below the counter that no safe name has, and no two names share one.\<close>

definition ids_ok :: "string list \<Rightarrow> string gomap \<Rightarrow> nat \<Rightarrow> bool" where
  "ids_ok reserved ids counter \<longleftrightarrow>
     (\<forall>k v. map_of ids k = Some v \<longrightarrow>
        (if mermaidSafeID k then v = k \<and> k \<in> set reserved
         else v \<notin> set reserved \<and> (\<exists>c < counter. v = synthetic c))) \<and>
     (\<forall>j k v. map_of ids j = Some v \<longrightarrow> map_of ids k = Some v \<longrightarrow> j = k)"

lemma ids_ok_inj: "ids_ok reserved ids c \<Longrightarrow> map_of ids j = Some v \<Longrightarrow> map_of ids k = Some v \<Longrightarrow> j = k"
  by (simp add: ids_ok_def)

lemma ids_ok_value:
  "ids_ok reserved ids c \<Longrightarrow> map_of ids k = Some v \<Longrightarrow>
   if mermaidSafeID k then v = k \<and> k \<in> set reserved else v \<notin> set reserved \<and> (\<exists>d < c. v = synthetic d)"
  unfolding ids_ok_def by (elim conjE allE [where x = k] allE [where x = v] impE)

lemma ids_ok_safe:
  assumes "ids_ok reserved ids counter" and "mermaidSafeID n" and "n \<in> set reserved" and "map_of ids n = None"
  shows "ids_ok reserved (AList.update n n ids) counter"
  using assms unfolding ids_ok_def map_of_update by (auto split: if_splits)

lemma ids_ok_unsafe:
  assumes "ids_ok reserved ids counter" and "\<not> mermaidSafeID n"
    and "counter \<le> c" and "synthetic c \<notin> set reserved"
  shows "ids_ok reserved (AList.update n (synthetic c) ids) (Suc c)"
proof -
  have "map_of ids k \<noteq> Some (synthetic c)" for k
  proof
    assume "map_of ids k = Some (synthetic c)"
    from ids_ok_value [OF assms(1) this] show False
      using assms(3,4) by (auto split: if_splits)
  qed
  moreover have "\<exists>d < Suc c. v = synthetic d" if "\<exists>d < counter. v = synthetic d" for v
    using that assms(3) by auto
  ultimately show ?thesis
    using assms(1,2,4) unfolding ids_ok_def map_of_update by (auto split: if_splits)
qed

lemma assign_ids_ok:
  assumes "ids_ok reserved ids counter" and "\<forall>n \<in> set names. mermaidSafeID n \<longrightarrow> n \<in> set reserved"
  shows "(\<exists>c. ids_ok reserved (assign_ids reserved names ids counter) c) \<and>
    dom (map_of (assign_ids reserved names ids counter)) = dom (map_of ids) \<union> set names"
  using assms
proof (induction reserved names ids counter rule: assign_ids.induct)
  case (2 reserved n names ids counter)
  then show ?case
    using ids_ok_safe [of reserved ids counter n] skip_reserved_fresh [of reserved counter]
      ids_ok_unsafe [of reserved ids counter n "skip_reserved reserved counter"]
    by (auto simp: Let_def)
qed auto

lemma mermaidNodeIDs_ok:
  obtains c where "ids_ok (filter mermaidSafeID names) (mermaidNodeIDs names) c"
    "dom (map_of (mermaidNodeIDs names)) = set names"
proof -
  have "ids_ok (filter mermaidSafeID names) [] 0" by (simp add: ids_ok_def)
  from assign_ids_ok [OF this, of names] show ?thesis
    using that by (auto simp: mermaidNodeIDs_def)
qed

definition plain :: "char \<Rightarrow> bool" where
  "plain c \<longleftrightarrow> c \<noteq> CHR 0x0A \<and> c \<noteq> CHR 0x0D \<and> c \<noteq> CHR 0x22 \<and> c \<noteq> CHR ''<'' \<and> c \<noteq> CHR ''>''"

lemma safe_char_plain: "safe_char c \<Longrightarrow> plain c"
  by (auto simp: plain_def safe_char_def less_eq_char_def)

lemma mermaidEscapeLabel_plain: "list_all plain (mermaidEscapeLabel name)"
  by (induction name) (auto simp: mermaidEscapeLabel_def mermaidEscape_char_def plain_def)

lemma hex_digit_safe: "safe_char (hex_digit n)"
proof -
  have "\<forall>i < 16. safe_char (''0123456789abcdef'' ! i)" by code_simp
  then show ?thesis by (simp add: hex_digit_def)
qed

lemma plain_literals:
  "plain (CHR 0x5C)" "plain (CHR ''a'')" "plain (CHR ''b'')" "plain (CHR ''f'')" "plain (CHR ''n'')"
  "plain (CHR ''r'')" "plain (CHR ''t'')" "plain (CHR ''v'')" "plain (CHR ''x'')"
  by (simp_all add: plain_def)

lemma plain_not_quote: "plain c \<Longrightarrow> c \<noteq> CHR 0x22"
  by (simp add: plain_def)

lemma quote_char_plain: "plain c \<Longrightarrow> list_all plain (quote_char c)"
  unfolding quote_char_def Let_def
  by (simp add: plain_literals hex_digit_safe safe_char_plain plain_not_quote)

lemma strconv_Quote_plain:
  assumes "list_all plain s"
  shows "\<exists>body. strconv_Quote s = CHR 0x22 # body @ [CHR 0x22] \<and> list_all plain body"
proof -
  have "list_all plain (concat (map quote_char s))"
    using assms by (induction s) (simp_all add: quote_char_plain)
  then show ?thesis unfolding strconv_Quote_def by blast
qed

lemma digit_char_safe: "d < 10 \<Longrightarrow> safe_char (digit_char d)"
  by (simp add: safe_char_def less_eq_char_def of_digit_char)

lemma itoa_safe: "list_all safe_char (itoa n)"
proof (induction n rule: itoa.induct)
  case (1 n)
  show ?case
  proof (cases "n < 10")
    case True
    then show ?thesis by (simp add: itoa.simps [of n] digit_char_safe)
  next
    case False
    then show ?thesis using 1 by (simp add: itoa.simps [of n] digit_char_safe)
  qed
qed

lemma synthetic_safe: "list_all safe_char (synthetic n)"
  using itoa_safe by (simp add: synthetic_def safe_char_def less_eq_char_def)

lemma go_index_ids_safe: "list_all safe_char (go_index (mermaidNodeIDs names) k)"
proof -
  obtain c where ok: "ids_ok (filter mermaidSafeID names) (mermaidNodeIDs names) c"
    using mermaidNodeIDs_ok .
  show ?thesis
  proof (cases "map_of (mermaidNodeIDs names) k")
    case (Some v)
    from ids_ok_value [OF ok Some] show ?thesis
      using Some synthetic_safe by (auto simp: go_index_def mermaidSafeID_def split: if_splits)
  qed (simp add: go_index_def)
qed


section \<open>Properties of the views\<close>

text \<open>Diagnostics, the module contract and the Mermaid rendering are deterministic: they do not
  depend on the order in which the manager's Go maps are iterated.\<close>

theorem diagnostics_deterministic:
  assumes "wf_manager m" and "wf_manager m'" and "same_maps m m'"
    and "distinct (map fst (m_initTimings m))" and "distinct (map fst (m_startTimings m))"
  shows "manager_Diagnostics m' = manager_Diagnostics m \<and> ExportDAG m' = ExportDAG m"
proof -
  have mods: "distinct (map fst (m_modules m))"
    using assms(1) by (simp add: wf_manager_def wf_registration_def wf_modules_def)
  have eq: "m_state m' = m_state m" "m_initTotal m' = m_initTotal m" "m_startTotal m' = m_startTotal m"
    using same_maps_scalars [OF assms(3)] by simp_all
  note perm = same_maps_msets [OF assms(3)]
  have "taskDiagnostics m' = taskDiagnostics m"
    using assms(1,2) sorted_names_perm [OF perm(3)] by (simp add: taskDiagnostics_open)
  moreover have "lifecycleTimings_of m' = lifecycleTimings_of m"
    using sortedModuleTimings_perm [OF assms(4) perm(6)] sortedModuleTimings_perm [OF assms(5) perm(7)] eq
    by (simp add: lifecycleTimings_of_def)
  moreover have "HealthChecks m' = m_healthChecks m'" "HealthChecks m = m_healthChecks m"
      "ReadinessChecks m' = m_readinessChecks m'" "ReadinessChecks m = m_readinessChecks m"
    using assms(1,2) by (simp_all add: HealthChecks_id ReadinessChecks_id)
  ultimately show ?thesis
    using ModuleContract_perm [OF mods perm(1)] ExportDAG_perm [OF mods perm(1)] eq
      sorted_names_perm [OF perm(2)] sorted_names_perm [OF perm(4)] sorted_names_perm [OF perm(5)]
    by (simp add: manager_Diagnostics_def serviceNames_def sortedCheckNames_def)
qed

definition ex_services :: "iface gomap \<Rightarrow> manager" where
  "ex_services svcs = zero_manager\<lparr>m_services := svcs\<rparr>"

theorem diagnostics_deterministic_witness:
  "manager_Diagnostics (ex_services [(''b'', IVal ''T'' KindOther False 1), (''a'', IVal ''T'' KindOther False 2)]) =
   manager_Diagnostics (ex_services [(''a'', IVal ''T'' KindOther False 2), (''b'', IVal ''T'' KindOther False 1)])"
  (is "manager_Diagnostics ?m' = manager_Diagnostics ?m")
proof -
  have wf: "wf_manager (ex_services svcs)"
    if "wf_names svcs" "\<forall>svc \<in> snd ` set svcs. \<not> isNilServiceValue svc" for svcs
    using wf_zero_manager that by (simp add: ex_services_def wf_manager_def wf_tasks_def zero_manager_def)
  have "wf_manager ?m" "wf_manager ?m'"
    by (rule wf; code_simp)+
  moreover have "same_maps ?m ?m'"
    by (simp add: same_maps_def ex_services_def zero_manager_def)
  ultimately show ?thesis
    using diagnostics_deterministic [of ?m ?m'] by (simp add: ex_services_def zero_manager_def)
qed

text \<open>The module contract is insensitive to white space, empty entries and order in the declared
  dependencies: modules with the same keys whose dependency lists have the same trimmed,
  non-empty entries give the same contract.\<close>

theorem ModuleContract_normalizes:
  assumes "map fst (m_modules m') = map fst (m_modules m)"
    and "\<forall>k. mset (filter (\<lambda>d. d \<noteq> []) (map TrimSpace (module_deps (m_modules m') k))) =
      mset (filter (\<lambda>d. d \<noteq> []) (map TrimSpace (module_deps (m_modules m) k)))"
  shows "ModuleContract m' = ModuleContract m"
proof -
  have "normalized_deps (module_deps (m_modules m') k) = normalized_deps (module_deps (m_modules m) k)" for k
    unfolding normalized_deps_def using assms(2) by (metis properties_for_sort sorted_sort mset_sort)
  then show ?thesis
    using assms(1) by (simp add: ModuleContract_def sorted_names_def)
qed

definition ex_deps_manager :: "string list \<Rightarrow> manager" where
  "ex_deps_manager deps = zero_manager\<lparr>m_modules := [(''x'', ex_module ''x'' deps)]\<rparr>"

theorem ModuleContract_normalizes_witness:
  "ModuleContract (ex_deps_manager ['' b '', [], ''a'']) = ModuleContract (ex_deps_manager [''a'', ''b''])"
  by (rule ModuleContract_normalizes)
    (auto simp: ex_deps_manager_def module_deps_def ex_module_def TrimSpace_def is_space_def)

text \<open>C18. Distinct names never share a Mermaid node identifier, and a name that is already safe is its
  own identifier.\<close>

theorem mermaidNodeIDs_injective:
  assumes "a \<in> set names" and "b \<in> set names"
  shows "(go_index (mermaidNodeIDs names) a = go_index (mermaidNodeIDs names) b \<longleftrightarrow> a = b) \<and>
    (mermaidSafeID a \<longrightarrow> go_index (mermaidNodeIDs names) a = a)"
proof -
  obtain c where ok: "ids_ok (filter mermaidSafeID names) (mermaidNodeIDs names) c"
    and dom: "dom (map_of (mermaidNodeIDs names)) = set names"
    using mermaidNodeIDs_ok .
  obtain v where v: "map_of (mermaidNodeIDs names) a = Some v"
    using assms(1) dom by (metis domD)
  obtain w where w: "map_of (mermaidNodeIDs names) b = Some w"
    using assms(2) dom by (metis domD)
  have "a = b" if "v = w"
    using ids_ok_inj [OF ok v] w that by simp
  moreover have "v = a" if "mermaidSafeID a"
    using ids_ok_value [OF ok v] that by simp
  moreover have "v = w" if "a = b"
    using v w that by simp
  ultimately show ?thesis
    unfolding go_index_def v w option.case by blast
qed

theorem mermaidNodeIDs_injective_witness:
  "go_index (mermaidNodeIDs [''n0'', ''a b'', ''c d'']) ''a b'' \<noteq> go_index (mermaidNodeIDs [''n0'', ''a b'', ''c d'']) ''n0''"
  using mermaidNodeIDs_injective [of "''a b''" "[''n0'', ''a b'', ''c d'']" "''n0''"] by simp

lemma count_newline_safe: "list_all plain s \<Longrightarrow> count_list s (CHR 0x0A) = 0"
  by (induction s) (auto simp: plain_def)

lemma safe_plain: "list_all safe_char s \<Longrightarrow> list_all plain s"
  using safe_char_plain by (auto simp: list_all_iff)

lemma mermaidNode_newline:
  assumes "list_all safe_char nid"
  shows "count_list (mermaidNode nid name) (CHR 0x0A) = 0"
proof (cases "mermaidSafeID name")
  case True
  then show ?thesis
    using assms by (simp add: mermaidNode_def mermaidSafeID_def count_newline_safe safe_plain)
next
  case False
  obtain body where "strconv_Quote (mermaidEscapeLabel name) = CHR 0x22 # body @ [CHR 0x22]" "list_all plain body"
    using strconv_Quote_plain [OF mermaidEscapeLabel_plain] by blast
  then show ?thesis
    using False assms by (simp add: mermaidNode_def count_newline_safe safe_plain)
qed

lemma count_list_concat: "count_list (concat xss) c = (\<Sum>xs \<leftarrow> xss. count_list xs c)"
  by (induction xss) simp_all

lemma dag_block_newlines:
  "count_list (dag_block (mermaidNodeIDs names) mods name) (CHR 0x0A) = Suc (length (dag_deps mods name))"
proof -
  have "count_list (dag_line (go_index (mermaidNodeIDs names) name @ '' --> '' @ go_index (mermaidNodeIDs names) dep)) (CHR 0x0A) = 1"
    for dep
    using go_index_ids_safe by (simp add: dag_line_def count_newline_safe safe_plain)
  moreover have "count_list (dag_line (mermaidNode (go_index (mermaidNodeIDs names) name) name)) (CHR 0x0A) = 1"
    using mermaidNode_newline [OF go_index_ids_safe] by (simp add: dag_line_def)
  ultimately show ?thesis
    by (simp add: dag_block_def count_list_concat comp_def sum_list_triv)
qed

text \<open>No module or dependency name can inject Mermaid source: the label of a module with an unsafe
  name is a quoted text whose body contains no quote, angle bracket or line break, and the rendering has
  exactly one line per module and per dependency edge besides its first.\<close>

theorem ExportDAG_lines:
  "count_list (ExportDAG m) (CHR 0x0A) =
     Suc (\<Sum>name \<leftarrow> sorted_names (m_modules m). Suc (length (dag_deps (m_modules m) name))) \<and>
   (\<exists>body. strconv_Quote (mermaidEscapeLabel name) = CHR 0x22 # body @ [CHR 0x22] \<and> list_all plain body)"
  using strconv_Quote_plain [OF mermaidEscapeLabel_plain]
  by (simp add: ExportDAG_def Let_def count_list_concat comp_def dag_block_newlines)

end
