(* ===== verification/Wire.thy ===== *)
theory Wire
  imports Traces
begin

text \<open>
  Typed access to the registry (\<open>src/wire.go\<close>) and typed configuration
  (\<open>src/typedconfig.go\<close>).

  A type is its name; the type assertion \<open>v.(T)\<close> is decided by the parameter \<open>asserts\<close> (dynamic
  type, asserted type), which is Go's type system and not code of the repository. \<open>Provide\<close> and
  \<open>Resolve\<close> take the registry they are given as the two functions they call; the locale
  \<open>service_registry\<close> holds the laws they rely on, and the manager satisfies them.
\<close>

section \<open>Typed keys\<close>

record service_key =
  key_name :: string
  key_type :: string

definition NewKey :: "string \<Rightarrow> string \<Rightarrow> service_key" where
  "NewKey T name = \<lparr>key_name = TrimSpace name, key_type = T\<rparr>"

definition emptyKeyError :: gerror where
  "emptyKeyError = Errorf [Wrapped ErrInvalidServiceName, Lit '': service key must not be empty'']"

definition dynamic_type_name :: "iface \<Rightarrow> string" where
  "dynamic_type_name v = (case v of INil \<Rightarrow> ''<nil>'' | IVal t _ _ _ \<Rightarrow> t)"

definition Provide :: "(string \<Rightarrow> iface \<Rightarrow> 's \<Rightarrow> gerror option \<times> 's) \<Rightarrow> service_key \<Rightarrow> iface \<Rightarrow> 's \<Rightarrow> gerror option \<times> 's" where
  "Provide register key svc s =
     (if key_name key = [] then (Some emptyKeyError, s)
      else case register (key_name key) svc s of
        (Some err, s') \<Rightarrow> (Some err, s')
      | (None, s') \<Rightarrow> (None, s'))"

definition type_assert :: "(string \<Rightarrow> string \<Rightarrow> bool) \<Rightarrow> iface \<Rightarrow> string \<Rightarrow> bool" where
  "type_assert asserts v T = (case v of INil \<Rightarrow> False | IVal t _ _ _ \<Rightarrow> asserts t T)"

definition Resolve :: "(string \<Rightarrow> string \<Rightarrow> bool) \<Rightarrow> (string \<Rightarrow> 's \<Rightarrow> iface result) \<Rightarrow> service_key \<Rightarrow> 's \<Rightarrow> iface result" where
  "Resolve asserts resolve key s =
     (if key_name key = [] then Inl emptyKeyError
      else case resolve (key_name key) s of
        Inl err \<Rightarrow> Inl err
      | Inr raw \<Rightarrow>
          if type_assert asserts raw (key_type key) then Inr raw
          else Inl (Errorf [Wrapped ErrServiceTypeMismatch, Lit '': service '', Quoted (key_name key),
                            Lit '' is '', Lit (dynamic_type_name raw), Lit '', not '', Lit (key_type key)]))"


section \<open>The registry interface\<close>

locale service_registry =
  fixes register :: "string \<Rightarrow> iface \<Rightarrow> 's \<Rightarrow> gerror option \<times> 's"
    and resolve :: "string \<Rightarrow> 's \<Rightarrow> iface result"
    and later :: "'s \<Rightarrow> 's \<Rightarrow> bool"
  assumes registered: "register name svc s = (None, s1) \<Longrightarrow> later s1 s' \<Longrightarrow> resolve name s' = Inr svc"
    and accepted: "register name svc s = (None, s1) \<Longrightarrow> svc \<noteq> INil"
begin

lemma provided_resolves:
  assumes "Provide register key svc s = (None, s1)" and "later s1 s'"
    and "asserts (dyn_type svc) (key_type key)"
  shows "Resolve asserts resolve key s' = Inr svc"
proof -
  have r: "key_name key \<noteq> []" "register (key_name key) svc s = (None, s1)"
    using assms(1) by (auto simp: Provide_def split: if_splits prod.splits option.splits)
  obtain t k n i where "svc = IVal t k n i"
    using accepted [OF r(2)] by (cases svc) auto
  then show ?thesis
    using r(1) registered [OF r(2) assms(2)] assms(3) by (simp add: Resolve_def type_assert_def)
qed

lemma resolved_has_type:
  "Resolve asserts resolve key s = Inr svc \<Longrightarrow> type_assert asserts svc (key_type key)"
  by (auto simp: Resolve_def split: if_splits sum.splits)

lemma wrong_type_rejected:
  assumes "Provide register key svc s = (None, s1)" and "later s1 s'" and "key_name key' = key_name key"
    and "\<not> asserts (dyn_type svc) (key_type key')"
  shows "\<exists>e. Resolve asserts resolve key' s' = Inl e \<and> errors_is e ErrServiceTypeMismatch"
proof -
  have r: "key_name key \<noteq> []" "register (key_name key) svc s = (None, s1)"
    using assms(1) by (auto simp: Provide_def split: if_splits prod.splits option.splits)
  obtain t k n i where "svc = IVal t k n i"
    using accepted [OF r(2)] by (cases svc) auto
  then show ?thesis
    using r(1) registered [OF r(2) assms(2)] assms(3,4) by (simp add: Resolve_def type_assert_def)
qed

end

text \<open>The manager is such a registry, in all its later states.\<close>

lemma RegisterService_accepted: "RegisterService name svc m = (None, m1) \<Longrightarrow> svc \<noteq> INil"
  by (auto simp: RegisterService_def Let_def isNilServiceValue_def split: if_splits)

lemma RegisterService_resolves:
  assumes "RegisterService name svc m = (None, m1)" and "mstep\<^sup>*\<^sup>* m1 m'"
  shows "ResolveService name m' = Inr svc"
proof -
  have reg: "map_of (m_services m1) (TrimSpace name) = Some svc" "TrimSpace name \<noteq> []"
    using assms(1) by (auto simp: RegisterService_def Let_def split: if_splits)
  have "keeps_services m1 m'"
    using assms(2) by (induction rule: rtranclp_induct) (auto intro: mstep_services services.R_refl services.R_trans)
  then have "map_of (m_services m') (TrimSpace name) = Some svc"
    using reg(1) by (auto simp: keeps_services_def map_le_def dom_def)
  then show ?thesis using reg(2) by (simp add: ResolveService_def Let_def)
qed

interpretation registry: service_registry RegisterService ResolveService "mstep\<^sup>*\<^sup>*"
  by unfold_locales (simp_all add: RegisterService_resolves RegisterService_accepted)


section \<open>Typed configuration\<close>

definition ErrConfigTypeMismatch :: gerror where
  "ErrConfigTypeMismatch = Sentinel ''config target type mismatch''"

text \<open>The loader assigns to the pointed-to variable; \<open>heap\<close> maps the identities of pointers to the
  values they point to.\<close>

definition typedConfigLoader :: "string \<Rightarrow> 'c \<Rightarrow> iface \<Rightarrow> (nat \<Rightarrow> 'c) \<Rightarrow> gerror option \<times> (nat \<Rightarrow> 'c)" where
  "typedConfigLoader T cfg target heap =
     (case target of
        IVal t KindPointer False i \<Rightarrow>
          if t = ''*'' @ T then (None, heap(i := cfg))
          else (Some (Errorf [Wrapped ErrConfigTypeMismatch, Lit '': GetConfig target must be *'', Lit T,
                              Lit '', got '', Lit (dynamic_type_name target)]), heap)
      | _ \<Rightarrow> (Some (Errorf [Wrapped ErrConfigTypeMismatch, Lit '': GetConfig target must be *'', Lit T,
                            Lit '', got '', Lit (dynamic_type_name target)]), heap))"

definition WithTypedConfig :: "string \<Rightarrow> managerOption" where
  "WithTypedConfig T = WithConfigLoader (Some (\<lambda>target. fst (typedConfigLoader T () target (\<lambda>_. ()))))"

lemma typedConfigLoader_error_indep:
  "fst (typedConfigLoader T cfg target heap) = fst (typedConfigLoader T () target (\<lambda>_. ()))"
  by (auto simp: typedConfigLoader_def split: iface.splits kind.splits bool.splits)


section \<open>Properties\<close>

text \<open>Typed round trip: a service provided under a typed key resolves under that key in every later
  state of the manager, given that its dynamic type asserts to the key's type; under a key of the
  same name whose type it does not assert to, resolution fails with the type-mismatch error.\<close>

theorem Provide_Resolve:
  assumes "Provide RegisterService key svc m = (None, m1)" and "mstep\<^sup>*\<^sup>* m1 m'"
    and "key_name key' = key_name key"
  shows "(asserts (dyn_type svc) (key_type key) \<longrightarrow> Resolve asserts ResolveService key m' = Inr svc) \<and>
    (\<not> asserts (dyn_type svc) (key_type key') \<longrightarrow>
       (\<exists>e. Resolve asserts ResolveService key' m' = Inl e \<and> errors_is e ErrServiceTypeMismatch))"
  using registry.provided_resolves [OF assms(1,2)] registry.wrong_type_rejected [OF assms] by blast

theorem Provide_Resolve_witness:
  "Resolve (=) ResolveService (NewKey ''*db.Pool'' '' db '')
     (snd (Provide RegisterService (NewKey ''*db.Pool'' ''db'') ex_service zero_manager)) = Inr ex_service"
proof -
  let ?k = "NewKey ''*db.Pool'' ''db''"
  have p: "Provide RegisterService ?k ex_service zero_manager =
      (None, snd (Provide RegisterService ?k ex_service zero_manager))"
    by (simp add: Provide_def NewKey_def RegisterService_def Let_def zero_manager_def TrimSpace_def is_space_def
        isNilServiceValue_def ex_service_def)
  have k: "NewKey ''*db.Pool'' '' db '' = ?k"
    by (simp add: NewKey_def TrimSpace_def is_space_def)
  have "dyn_type ex_service = key_type ?k"
    by (simp add: ex_service_def NewKey_def)
  with Provide_Resolve [OF p rtranclp.rtrancl_refl, of ?k "(=)"] show ?thesis
    unfolding k by blast
qed

text \<open>\<open>GetConfig\<close> on a manager with a typed configuration writes the configuration through a
  non-nil pointer of exactly its type, and otherwise fails with the type-mismatch error and writes
  nothing.\<close>

theorem typed_config:
  assumes "NewManager [WithTypedConfig T] = Inr m"
  shows "(GetConfig target m = None \<longleftrightarrow> (\<exists>i. target = IVal (''*'' @ T) KindPointer False i)) \<and>
    (GetConfig target m = None \<longrightarrow> snd (typedConfigLoader T cfg target heap) (dyn_id target) = cfg) \<and>
    (GetConfig target m \<noteq> None \<longrightarrow> snd (typedConfigLoader T cfg target heap) = heap \<and>
       (\<exists>e. GetConfig target m = Some e \<and> errors_is e ErrConfigTypeMismatch))"
proof -
  have "m_configLoader m = Some (\<lambda>target. fst (typedConfigLoader T () target (\<lambda>_. ())))"
    using assms by (auto simp: NewManager_def Let_def WithTypedConfig_def split: if_splits)
  then have g: "GetConfig target m = fst (typedConfigLoader T cfg target heap)"
    using typedConfigLoader_error_indep [of T cfg target heap] by (simp add: GetConfig_def)
  show ?thesis
    unfolding g by (auto simp: typedConfigLoader_def split: iface.splits kind.splits bool.splits)
qed

theorem typed_config_witness:
  "GetConfig (IVal ''*Config'' KindPointer False 3)
     (zero_manager\<lparr>m_configLoader := Some (\<lambda>target. fst (typedConfigLoader ''Config'' () target (\<lambda>_. ())))\<rparr>) = None"
proof -
  have "NewManager [WithTypedConfig ''Config''] =
      Inr (zero_manager\<lparr>m_configLoader := Some (\<lambda>target. fst (typedConfigLoader ''Config'' () target (\<lambda>_. ())))\<rparr>)"
    by (simp add: NewManager_def WithTypedConfig_def zero_manager_def panicPolicy_valid_def)
  from typed_config [OF this, of "IVal ''*Config'' KindPointer False 3" "()" "\<lambda>_. ()"] show ?thesis by simp
qed

end
