(* ===== verification/Workerpool.thy ===== *)
theory Workerpool
  imports Errors "HOL-Library.Word"
begin

text \<open>
  The bounded worker pool of \<open>src/workerpool/workerpool.go\<close>. \<open>Submit\<close>, \<open>Close\<close> and the workers run
  concurrently, so the pool is a step relation whose steps are the atomic actions of the three
  functions: a lock-protected section, one communication on a channel, one update of an atomic
  counter. A submission is named by a fresh number, the identity of its handle.

  \<open>p_waiting\<close> are the calls of \<open>Submit\<close> blocked in the select, \<open>p_sent\<close> those that have sent their
  task and not yet counted it as accepted; both are counted by \<open>inFlight\<close>. A worker's state is its
  position in the loop of \<open>worker\<close>. \<open>p_dropped\<close> (the submissions that were refused) and
  \<open>p_crashed\<close> (a send on a closed channel, or a handle's channel closed twice, which panic) are not
  fields of the code.
\<close>

section \<open>State\<close>

definition ErrClosed :: gerror where
  "ErrClosed = Sentinel ''worker pool is closed''"

definition ErrPanic :: gerror where
  "ErrPanic = Sentinel ''worker pool task panicked''"

datatype wstate =
    WIdle
  | WTaken nat
  | WRunning nat
  | WReturned nat "gerror option"
  | WCompleted nat "gerror option"
  | WCounted nat "gerror option"
  | WExited

record pool =
  p_cap :: nat
  p_queue :: "nat list"
  p_tasksClosed :: bool
  p_closed :: bool
  p_done :: bool
  p_waiting :: "nat list"
  p_sent :: "nat list"
  p_ws :: "wstate list"
  p_results :: "(nat \<times> gerror option) list"
  p_next :: nat
  p_running :: "64 word"
  p_accepted :: "64 word"
  p_completed :: "64 word"
  p_failed :: "64 word"
  p_rejected :: "64 word"
  p_dropped :: "nat list"
  p_crashed :: bool

definition wp_New :: "int \<Rightarrow> int \<Rightarrow> pool result" where
  "wp_New workers queueCapacity =
     (if workers \<le> 0 then Inl (Errorf [Lit ''workers must be positive: got '', Num workers])
      else if queueCapacity < 0
      then Inl (Errorf [Lit ''queue capacity must not be negative: got '', Num queueCapacity])
      else Inr \<lparr>p_cap = nat queueCapacity, p_queue = [], p_tasksClosed = False, p_closed = False,
        p_done = False, p_waiting = [], p_sent = [], p_ws = replicate (nat workers) WIdle,
        p_results = [], p_next = 0, p_running = 0, p_accepted = 0, p_completed = 0, p_failed = 0,
        p_rejected = 0, p_dropped = [], p_crashed = False\<rparr>)"

text \<open>How a task's function ends, and the error \<open>runTask\<close> makes of it.\<close>

datatype task_end = TReturns "gerror option" | TPanics string

definition runTask :: "task_end \<Rightarrow> gerror option" where
  "runTask e = (case e of TReturns r \<Rightarrow> r
     | TPanics v \<Rightarrow> Some (Errorf [Wrapped ErrPanic, Lit '': '', Lit v]))"

text \<open>\<open>Handle.setResult\<close>: closing the handle's channel a second time panics.\<close>

definition setResult :: "nat \<Rightarrow> gerror option \<Rightarrow> pool \<Rightarrow> pool" where
  "setResult j e p =
     (if map_of (p_results p) j \<noteq> None then p\<lparr>p_crashed := True\<rparr>
      else p\<lparr>p_results := (j, e) # p_results p\<rparr>)"

text \<open>\<open>Handle.Wait\<close>: the result, or the context's error; \<open>None\<close> while it blocks.\<close>

definition handle_Wait :: "nat \<Rightarrow> gerror option \<Rightarrow> pool \<Rightarrow> gerror option option" where
  "handle_Wait j ctxErr p =
     (case map_of (p_results p) j of Some e \<Rightarrow> Some e
      | None \<Rightarrow> (case ctxErr of Some e \<Rightarrow> Some (Some e) | None \<Rightarrow> None))"

text \<open>\<open>Close\<close> returns nil once the pool is drained, or the context's error.\<close>

definition close_returns :: "gerror option \<Rightarrow> pool \<Rightarrow> gerror option option" where
  "close_returns ctxErr p =
     (if p_done p then Some None else case ctxErr of Some e \<Rightarrow> Some (Some e) | None \<Rightarrow> None)"

record pool_stats =
  st_Workers :: nat
  st_Queued :: nat
  st_Running :: "64 word"
  st_Accepted :: "64 word"
  st_Completed :: "64 word"
  st_Failed :: "64 word"
  st_Rejected :: "64 word"

definition Stats :: "pool \<Rightarrow> pool_stats" where
  "Stats p = \<lparr>st_Workers = length (p_ws p), st_Queued = length (p_queue p), st_Running = p_running p,
     st_Accepted = p_accepted p, st_Completed = p_completed p, st_Failed = p_failed p,
     st_Rejected = p_rejected p\<rparr>"


section \<open>Steps\<close>

text \<open>The checks \<open>Submit\<close> makes before it touches the pool.\<close>

definition submit_precheck :: "bool \<Rightarrow> gerror option \<Rightarrow> gerror option" where
  "submit_precheck fnGiven ctxErr =
     (if \<not> fnGiven then Some (Errorf [Lit ''task must not be nil'']) else ctxErr)"

text \<open>The rest of \<open>Submit\<close>.\<close>

inductive submit_step :: "pool \<Rightarrow> pool \<Rightarrow> bool" where
  refused: "p_closed p \<Longrightarrow> submit_step p (p\<lparr>p_rejected := p_rejected p + 1\<rparr>)"
| enter: "\<not> p_closed p \<Longrightarrow>
    submit_step p (p\<lparr>p_waiting := p_next p # p_waiting p, p_next := Suc (p_next p)\<rparr>)"
| enqueue: "p_waiting p = us @ j # vs \<Longrightarrow> \<not> p_tasksClosed p \<Longrightarrow> length (p_queue p) < p_cap p \<Longrightarrow>
    submit_step p (p\<lparr>p_waiting := us @ vs, p_queue := p_queue p @ [j], p_sent := j # p_sent p\<rparr>)"
| handoff: "p_waiting p = us @ j # vs \<Longrightarrow> \<not> p_tasksClosed p \<Longrightarrow> p_queue p = [] \<Longrightarrow> p_ws p = xs @ WIdle # ys \<Longrightarrow>
    submit_step p (p\<lparr>p_waiting := us @ vs, p_ws := xs @ WTaken j # ys, p_sent := j # p_sent p\<rparr>)"
| send_closed: "j \<in> set (p_waiting p) \<Longrightarrow> p_tasksClosed p \<Longrightarrow> submit_step p (p\<lparr>p_crashed := True\<rparr>)"
| accepted: "p_sent p = us @ j # vs \<Longrightarrow>
    submit_step p (p\<lparr>p_sent := us @ vs, p_accepted := p_accepted p + 1\<rparr>)"
| cancelled: "p_waiting p = us @ j # vs \<Longrightarrow>
    submit_step p (p\<lparr>p_waiting := us @ vs, p_dropped := j # p_dropped p, p_rejected := p_rejected p + 1\<rparr>)"
| closing: "p_waiting p = us @ j # vs \<Longrightarrow> p_closed p \<Longrightarrow>
    submit_step p (p\<lparr>p_waiting := us @ vs, p_dropped := j # p_dropped p, p_rejected := p_rejected p + 1\<rparr>)"

text \<open>\<open>Close\<close> and the goroutine it starts.\<close>

inductive close_step :: "pool \<Rightarrow> pool \<Rightarrow> bool" where
  close: "\<not> p_closed p \<Longrightarrow> close_step p (p\<lparr>p_closed := True\<rparr>)"
| close_tasks: "p_closed p \<Longrightarrow> \<not> p_tasksClosed p \<Longrightarrow> p_waiting p = [] \<Longrightarrow> p_sent p = [] \<Longrightarrow>
    close_step p (p\<lparr>p_tasksClosed := True\<rparr>)"
| drained: "p_tasksClosed p \<Longrightarrow> \<not> p_done p \<Longrightarrow> list_all (\<lambda>w. w = WExited) (p_ws p) \<Longrightarrow>
    close_step p (p\<lparr>p_done := True\<rparr>)"

text \<open>The loop of \<open>worker\<close>.\<close>

inductive worker_step :: "pool \<Rightarrow> pool \<Rightarrow> bool" where
  take: "p_ws p = xs @ WIdle # ys \<Longrightarrow> p_queue p = j # q \<Longrightarrow>
    worker_step p (p\<lparr>p_ws := xs @ WTaken j # ys, p_queue := q\<rparr>)"
| exit: "p_ws p = xs @ WIdle # ys \<Longrightarrow> p_queue p = [] \<Longrightarrow> p_tasksClosed p \<Longrightarrow>
    worker_step p (p\<lparr>p_ws := xs @ WExited # ys\<rparr>)"
| start: "p_ws p = xs @ WTaken j # ys \<Longrightarrow>
    worker_step p (p\<lparr>p_ws := xs @ WRunning j # ys, p_running := p_running p + 1\<rparr>)"
| return: "p_ws p = xs @ WRunning j # ys \<Longrightarrow>
    worker_step p (p\<lparr>p_ws := xs @ WReturned j (runTask e) # ys, p_running := p_running p - 1\<rparr>)"
| completed: "p_ws p = xs @ WReturned j e # ys \<Longrightarrow>
    worker_step p (p\<lparr>p_ws := xs @ WCompleted j e # ys, p_completed := p_completed p + 1\<rparr>)"
| failed: "p_ws p = xs @ WCompleted j e # ys \<Longrightarrow>
    worker_step p (p\<lparr>p_ws := xs @ WCounted j e # ys,
      p_failed := (if e \<noteq> None then p_failed p + 1 else p_failed p)\<rparr>)"
| result: "p_ws p = xs @ WCounted j e # ys \<Longrightarrow>
    worker_step p (setResult j e (p\<lparr>p_ws := xs @ WIdle # ys\<rparr>))"

definition pool_step :: "pool \<Rightarrow> pool \<Rightarrow> bool" where
  "pool_step p p' \<longleftrightarrow> submit_step p p' \<or> close_step p p' \<or> worker_step p p'"

inductive pool_reachable :: "pool \<Rightarrow> bool" where
  new: "wp_New w c = Inr p \<Longrightarrow> pool_reachable p"
| step: "pool_reachable p \<Longrightarrow> pool_step p p' \<Longrightarrow> pool_reachable p'"


section \<open>Invariant\<close>

fun wjob :: "wstate \<Rightarrow> nat list" where
  "wjob (WTaken j) = [j]"
| "wjob (WRunning j) = [j]"
| "wjob (WReturned j e) = [j]"
| "wjob (WCompleted j e) = [j]"
| "wjob (WCounted j e) = [j]"
| "wjob _ = []"

definition jobs :: "wstate list \<Rightarrow> nat list" where
  "jobs ws = concat (map wjob ws)"

lemma jobs_simps [simp]: "jobs [] = []" "jobs (w # ws) = wjob w @ jobs ws" "jobs (us @ vs) = jobs us @ jobs vs"
  by (simp_all add: jobs_def)

fun is_running :: "wstate \<Rightarrow> bool" where
  "is_running (WRunning j) = True"
| "is_running _ = False"

fun uncounted :: "wstate \<Rightarrow> bool" where
  "uncounted (WTaken j) = True"
| "uncounted (WRunning j) = True"
| "uncounted (WReturned j e) = True"
| "uncounted _ = False"

text \<open>Every submission is in exactly one place: waiting, queued, with a worker, finished or
  refused.\<close>

definition places :: "pool \<Rightarrow> nat multiset" where
  "places p = mset (p_waiting p) + mset (p_queue p) + mset (jobs (p_ws p)) + mset (map fst (p_results p))
     + mset (p_dropped p)"

definition pool_ok :: "pool \<Rightarrow> bool" where
  "pool_ok p \<longleftrightarrow>
     places p = mset [0..<p_next p] \<and>
     distinct (p_sent p) \<and> set (p_sent p) \<subseteq> set (p_queue p) \<union> set (jobs (p_ws p)) \<union> fst ` set (p_results p) \<and>
     length (p_queue p) \<le> p_cap p \<and>
     (p_tasksClosed p \<longrightarrow> p_closed p \<and> p_waiting p = [] \<and> p_sent p = []) \<and>
     (WExited \<in> set (p_ws p) \<longrightarrow> p_tasksClosed p \<and> p_queue p = []) \<and>
     (p_done p \<longrightarrow> p_tasksClosed p \<and> list_all (\<lambda>w. w = WExited) (p_ws p)) \<and>
     p_running p = of_nat (length (filter is_running (p_ws p))) \<and>
     p_accepted p + of_nat (length (p_sent p)) =
       of_nat (length (p_queue p)) + of_nat (length (filter uncounted (p_ws p))) + p_completed p \<and>
     p_ws p \<noteq> [] \<and> \<not> p_crashed p"

lemma places_distinct:
  assumes "pool_ok p"
  shows "distinct (p_waiting p @ p_queue p @ jobs (p_ws p) @ map fst (p_results p) @ p_dropped p)"
proof -
  have "mset (p_waiting p @ p_queue p @ jobs (p_ws p) @ map fst (p_results p) @ p_dropped p) = mset [0..<p_next p]"
    using assms by (simp add: pool_ok_def places_def ac_simps)
  then show ?thesis
    using mset_eq_imp_distinct_iff by (metis distinct_upt)
qed

lemma wp_New_ok: "wp_New w c = Inr p \<Longrightarrow> pool_ok p"
  by (auto simp: wp_New_def pool_ok_def places_def filter_replicate jobs_def split: if_splits)

lemma submit_step_ok:
  assumes "submit_step p p'" and ok: "pool_ok p"
  shows "pool_ok p'"
  using assms(1)
proof (cases rule: submit_step.cases)
  case refused
  then show ?thesis using ok by (auto simp: pool_ok_def places_def)
next
  case enter
  then show ?thesis using ok by (auto simp: pool_ok_def places_def)
next
  case (enqueue us j vs)
  have "j \<notin> set (p_sent p)"
    using ok places_distinct [OF ok] enqueue(2) by (auto simp: pool_ok_def)
  then show ?thesis
    using enqueue ok by (auto simp: pool_ok_def places_def algebra_simps)
next
  case (handoff us j vs xs ys)
  have "j \<notin> set (p_sent p)"
    using ok places_distinct [OF ok] handoff(2) by (auto simp: pool_ok_def)
  then show ?thesis
    using handoff ok by (auto simp: pool_ok_def places_def algebra_simps)
next
  case (send_closed j)
  then show ?thesis using ok by (simp add: pool_ok_def)
next
  case (accepted us j vs)
  then show ?thesis using ok by (auto simp: pool_ok_def places_def algebra_simps)
next
  case (cancelled us j vs)
  then show ?thesis using ok by (auto simp: pool_ok_def places_def)
next
  case (closing us j vs)
  then show ?thesis using ok by (auto simp: pool_ok_def places_def)
qed

lemma close_step_ok:
  assumes "close_step p p'" and ok: "pool_ok p"
  shows "pool_ok p'"
  using assms by (cases rule: close_step.cases) (auto simp: pool_ok_def places_def)

lemma worker_step_ok:
  assumes "worker_step p p'" and ok: "pool_ok p"
  shows "pool_ok p'"
  using assms(1)
proof (cases rule: worker_step.cases)
  case (take xs ys j q)
  then show ?thesis using ok by (auto simp: pool_ok_def places_def algebra_simps)
next
  case (exit xs ys)
  then show ?thesis using ok by (auto simp: pool_ok_def places_def)
next
  case (start xs j ys)
  then show ?thesis using ok by (auto simp: pool_ok_def places_def algebra_simps)
next
  case (return xs j ys e)
  then show ?thesis using ok by (auto simp: pool_ok_def places_def algebra_simps)
next
  case (completed xs j e ys)
  then show ?thesis using ok by (auto simp: pool_ok_def places_def algebra_simps)
next
  case (failed xs j e ys)
  then show ?thesis using ok by (auto simp: pool_ok_def places_def)
next
  case (result xs j e ys)
  have "map_of (p_results p) j = None"
    using places_distinct [OF ok] result(2) by (auto simp: map_of_eq_None_iff)
  then have "p' = p\<lparr>p_ws := xs @ WIdle # ys, p_results := (j, e) # p_results p\<rparr>"
    using result(1) by (simp add: setResult_def)
  then show ?thesis using result(2) ok by (auto simp: pool_ok_def places_def)
qed

lemma pool_reachable_ok: "pool_reachable p \<Longrightarrow> pool_ok p"
  by (induction rule: pool_reachable.induct)
    (auto simp: pool_step_def intro: wp_New_ok submit_step_ok close_step_ok worker_step_ok)


section \<open>Draining\<close>

text \<open>After \<open>Close\<close>, the steps of the pool other than refusing new submissions strictly decrease a
  measure, and one of them is possible until the pool is drained.\<close>

fun weight :: "wstate \<Rightarrow> nat" where
  "weight WExited = 0"
| "weight WIdle = 1"
| "weight (WCounted j e) = 3"
| "weight (WCompleted j e) = 4"
| "weight (WReturned j e) = 5"
| "weight (WRunning j) = 6"
| "weight (WTaken j) = 7"

definition backlog :: "pool \<Rightarrow> nat" where
  "backlog p = of_bool (\<not> p_done p) + of_bool (\<not> p_tasksClosed p) + sum_list (map weight (p_ws p))
     + 8 * length (p_queue p) + 10 * length (p_waiting p) + length (p_sent p)"

definition drain_step :: "pool \<Rightarrow> pool \<Rightarrow> bool" where
  "drain_step p p' \<longleftrightarrow> pool_step p p' \<and> p' \<noteq> p\<lparr>p_rejected := p_rejected p + 1\<rparr>"

lemma drain_submit:
  assumes "submit_step p p'" and "p' \<noteq> p\<lparr>p_rejected := p_rejected p + 1\<rparr>" and "pool_ok p" and "p_closed p"
  shows "backlog p' < backlog p \<and> p_closed p'"
  using assms(1)
proof (cases rule: submit_step.cases)
  case (send_closed j)
  then show ?thesis using assms(3) by (simp add: pool_ok_def)
qed (use assms in \<open>simp_all add: backlog_def\<close>)

lemma drain_close:
  "close_step p p' \<Longrightarrow> p_closed p \<Longrightarrow> backlog p' < backlog p \<and> p_closed p'"
  by (induction rule: close_step.induct) (simp_all add: backlog_def)

lemma drain_worker:
  "worker_step p p' \<Longrightarrow> p_closed p \<Longrightarrow> backlog p' < backlog p \<and> p_closed p'"
  by (induction rule: worker_step.induct) (simp_all add: backlog_def setResult_def)

lemma drain_step_decreases:
  "drain_step p p' \<Longrightarrow> pool_ok p \<Longrightarrow> p_closed p \<Longrightarrow> backlog p' < backlog p \<and> p_closed p' \<and> pool_ok p'"
  unfolding drain_step_def pool_step_def
  using drain_submit drain_close drain_worker submit_step_ok close_step_ok worker_step_ok by blast

lemma worker_progress:
  assumes "w \<in> set (p_ws p)" and "w \<noteq> WExited" and "p_tasksClosed p"
  shows "\<exists>p'. worker_step p p'"
proof -
  obtain xs ys where s: "p_ws p = xs @ w # ys"
    using assms(1) split_list by fastforce
  show ?thesis
  proof (cases w)
    case WIdle
    then show ?thesis
      using s assms(3) worker_step.exit [of p xs ys] worker_step.take [of p xs ys] by (cases "p_queue p") auto
  next
    case (WTaken j)
    show ?thesis using worker_step.start [OF s [unfolded WTaken]] by (rule exI)
  next
    case (WRunning j)
    show ?thesis using worker_step.return [OF s [unfolded WRunning]] by (rule exI)
  next
    case (WReturned j e)
    show ?thesis using worker_step.completed [OF s [unfolded WReturned]] by (rule exI)
  next
    case (WCompleted j e)
    show ?thesis using worker_step.failed [OF s [unfolded WCompleted]] by (rule exI)
  next
    case (WCounted j e)
    show ?thesis using worker_step.result [OF s [unfolded WCounted]] by (rule exI)
  next
    case WExited
    then show ?thesis using assms(2) by simp
  qed
qed

lemma drain_progress:
  assumes "pool_ok p" and "p_closed p" and "\<not> p_done p"
  shows "\<exists>p'. drain_step p p'"
proof -
  consider (waiting) j vs where "p_waiting p = j # vs" | (sent) j vs where "p_sent p = j # vs"
    | (unclosed) "p_waiting p = []" "p_sent p = []" "\<not> p_tasksClosed p"
    | (exited) "p_tasksClosed p" "list_all (\<lambda>w. w = WExited) (p_ws p)"
    | (busy) w where "p_tasksClosed p" "w \<in> set (p_ws p)" "w \<noteq> WExited"
    by (cases "p_waiting p"; cases "p_sent p") (auto simp: list_all_iff)
  then show ?thesis
  proof cases
    case waiting
    from submit_step.closing [of p "[]", OF _ assms(2)] waiting show ?thesis
      unfolding drain_step_def pool_step_def by (fastforce dest: arg_cong [of _ _ p_waiting])
  next
    case sent
    from submit_step.accepted [of p "[]"] sent show ?thesis
      unfolding drain_step_def pool_step_def by (fastforce dest: arg_cong [of _ _ p_sent])
  next
    case unclosed
    from close_step.close_tasks [OF assms(2) unclosed(3,1,2)] show ?thesis
      using unclosed unfolding drain_step_def pool_step_def by (fastforce dest: arg_cong [of _ _ p_tasksClosed])
  next
    case exited
    from close_step.drained [OF exited(1) assms(3) exited(2)] show ?thesis
      using assms(3) unfolding drain_step_def pool_step_def by (fastforce dest: arg_cong [of _ _ p_done])
  next
    case busy
    then obtain p' where p': "worker_step p p'"
      using worker_progress by blast
    then have "backlog p' < backlog p"
      using drain_worker assms(2) by blast
    then have "p' \<noteq> p\<lparr>p_rejected := p_rejected p + 1\<rparr>"
      by (auto simp: backlog_def)
    then show ?thesis
      using p' by (auto simp: drain_step_def pool_step_def)
  qed
qed

lemma drain_exists:
  "pool_ok p \<Longrightarrow> p_closed p \<Longrightarrow> \<exists>p'. drain_step\<^sup>*\<^sup>* p p' \<and> p_done p'"
proof (induction "backlog p" arbitrary: p rule: less_induct)
  case less
  show ?case
  proof (cases "p_done p")
    case False
    then obtain p1 where p1: "drain_step p p1"
      using drain_progress less.prems by blast
    from drain_step_decreases [OF this less.prems] obtain p' where "drain_step\<^sup>*\<^sup>* p1 p'" "p_done p'"
      using less.hyps by blast
    then show ?thesis
      using p1 by (meson converse_rtranclp_into_rtranclp)
  qed blast
qed

lemma drain_no_infinite:
  assumes "pool_ok (f 0)" and "p_closed (f 0)" and "\<forall>i. drain_step (f i) (f (Suc i))"
  shows False
proof -
  have "pool_ok (f i) \<and> p_closed (f i) \<and> backlog (f i) + i \<le> backlog (f 0)" for i
  proof (induction i)
    case (Suc i)
    then show ?case
      using drain_step_decreases [of "f i" "f (Suc i)"] assms(3) by force
  qed (use assms in simp)
  from this [of "Suc (backlog (f 0))"] show False by simp
qed


section \<open>Properties of the pool\<close>

definition ex_pool :: pool where
  "ex_pool = (case wp_New 2 1 of Inr p \<Rightarrow> p | Inl _ \<Rightarrow> undefined)"

lemma reachable_ex_pool: "pool_reachable ex_pool"
  by (rule pool_reachable.new [of 2 1]) (simp add: ex_pool_def wp_New_def)

lemma reachable_ex_pool_closed: "pool_reachable (ex_pool\<lparr>p_closed := True\<rparr>)"
proof (rule pool_reachable.step [OF reachable_ex_pool])
  have "\<not> p_closed ex_pool" by (simp add: ex_pool_def wp_New_def)
  then show "pool_step ex_pool (ex_pool\<lparr>p_closed := True\<rparr>)"
    unfolding pool_step_def by (intro disjI2 disjI1 close_step.close)
qed

text \<open>C15. In every interleaving of submitters, closers and workers, no send hits a closed channel and no
  result is set twice; the queue never exceeds its capacity and no more tasks run than there are
  workers; and the counters account, modulo \<open>2 ^ 64\<close>, for every task sent.\<close>

theorem pool_safe:
  assumes "pool_reachable p"
  shows "\<not> p_crashed p \<and> st_Queued (Stats p) \<le> p_cap p \<and>
    length (filter is_running (p_ws p)) \<le> st_Workers (Stats p) \<and>
    st_Running (Stats p) = of_nat (length (filter is_running (p_ws p))) \<and>
    st_Accepted (Stats p) + of_nat (length (p_sent p)) =
      of_nat (st_Queued (Stats p)) + of_nat (length (filter uncounted (p_ws p))) + st_Completed (Stats p)"
  using pool_reachable_ok [OF assms] by (simp add: pool_ok_def Stats_def)

theorem pool_safe_witness: "\<not> p_crashed (ex_pool\<lparr>p_closed := True\<rparr>)"
  using pool_safe [OF reachable_ex_pool_closed] by blast

text \<open>C14. When \<open>Close\<close> has returned nil, every task that was ever accepted has its result, exactly one,
  and every other submission was refused: nothing accepted is lost by the shutdown.\<close>

theorem pool_drained_complete:
  assumes "pool_reachable p" and "close_returns None p = Some None"
  shows "(\<forall>j < p_next p. (map_of (p_results p) j \<noteq> None) \<noteq> (j \<in> set (p_dropped p))) \<and>
    distinct (map fst (p_results p)) \<and> p_accepted p = p_completed p"
proof -
  have ok: "pool_ok p" and drained: "p_done p"
    using pool_reachable_ok [OF assms(1)] assms(2) by (simp_all add: close_returns_def split: if_splits)
  have ws: "p_ws p = replicate (length (p_ws p)) WExited" "p_waiting p = []" "p_sent p = []" "p_queue p = []"
    using ok drained by (auto simp: pool_ok_def list_all_iff replicate_length_same [symmetric] neq_Nil_conv)
  have none: "jobs (p_ws p) = []" "filter uncounted (p_ws p) = []"
    by (subst ws(1), simp add: jobs_def)+
  have all: "mset (map fst (p_results p)) + mset (p_dropped p) = mset [0..<p_next p]"
    using ok ws none by (simp add: pool_ok_def places_def)
  have "distinct (map fst (p_results p) @ p_dropped p)"
    using places_distinct [OF ok] by simp
  moreover have "set (map fst (p_results p)) \<union> set (p_dropped p) = {0..<p_next p}"
    using arg_cong [OF all, of set_mset] by simp
  ultimately have "\<forall>j < p_next p. (map_of (p_results p) j \<noteq> None) \<noteq> (j \<in> set (p_dropped p))"
    by (auto simp: map_of_eq_None_iff)
  then show ?thesis
    using \<open>distinct (map fst (p_results p) @ p_dropped p)\<close> ok ws none by (simp add: pool_ok_def)
qed

definition ex_drained :: pool where
  "ex_drained = ex_pool\<lparr>p_closed := True, p_tasksClosed := True, p_ws := [WExited, WExited], p_done := True\<rparr>"

lemma reachable_ex_drained: "pool_reachable ex_drained"
proof -
  let ?p1 = "ex_pool\<lparr>p_closed := True\<rparr>"
  let ?p2 = "?p1\<lparr>p_tasksClosed := True\<rparr>"
  let ?p3 = "?p2\<lparr>p_ws := [] @ WExited # [WIdle]\<rparr>"
  let ?p4 = "?p3\<lparr>p_ws := [WExited] @ WExited # []\<rparr>"
  have ws: "p_ws ex_pool = [WIdle, WIdle]"
    by (simp add: ex_pool_def wp_New_def numeral_2_eq_2)
  have f: "p_queue ex_pool = []" "p_waiting ex_pool = []" "p_sent ex_pool = []" "\<not> p_tasksClosed ex_pool" "\<not> p_done ex_pool"
    by (simp_all add: ex_pool_def wp_New_def)
  have s2: "pool_step ?p1 ?p2"
    using close_step.close_tasks [of ?p1] f by (simp add: pool_step_def)
  have s3: "pool_step ?p2 ?p3"
    using worker_step.exit [of ?p2 "[]" "[WIdle]"] f ws by (simp add: pool_step_def)
  have s4: "pool_step ?p3 ?p4"
    using worker_step.exit [of ?p3 "[WExited]" "[]"] f by (simp add: pool_step_def)
  have s5: "pool_step ?p4 (?p4\<lparr>p_done := True\<rparr>)"
    using close_step.drained [of ?p4] f by (simp add: pool_step_def)
  have "?p4\<lparr>p_done := True\<rparr> = ex_drained"
    by (simp add: ex_drained_def)
  with s2 s3 s4 s5 show ?thesis
    using reachable_ex_pool_closed pool_reachable.step by metis
qed

theorem pool_drained_complete_witness: "p_accepted ex_drained = p_completed ex_drained"
proof -
  have "close_returns None ex_drained = Some None"
    by (simp add: close_returns_def ex_drained_def)
  from pool_drained_complete [OF reachable_ex_drained this] show ?thesis by blast
qed

text \<open>C16. A closed pool drains: provided the task functions return, there is no infinite run of its
  steps after \<open>Close\<close> (refusing further submissions aside), and until it is drained some step is
  possible; so the wait of \<open>Close\<close> ends.\<close>

theorem pool_drains:
  assumes "pool_reachable p" and "p_closed p"
  shows "(\<nexists>f. f 0 = p \<and> (\<forall>i. drain_step (f i) (f (Suc i)))) \<and>
    (\<forall>p'. drain_step\<^sup>*\<^sup>* p p' \<longrightarrow> p_done p' \<or> (\<exists>p''. drain_step p' p'')) \<and>
    (\<exists>p'. drain_step\<^sup>*\<^sup>* p p' \<and> close_returns None p' = Some None)"
proof -
  have ok: "pool_ok p" using assms(1) by (rule pool_reachable_ok)
  have "pool_ok p' \<and> p_closed p'" if "drain_step\<^sup>*\<^sup>* p p'" for p'
    using that by (induction rule: rtranclp_induct) (use ok assms(2) drain_step_decreases in blast)+
  then have "\<forall>p'. drain_step\<^sup>*\<^sup>* p p' \<longrightarrow> p_done p' \<or> (\<exists>p''. drain_step p' p'')"
    using drain_progress by blast
  moreover have "\<exists>p'. drain_step\<^sup>*\<^sup>* p p' \<and> close_returns None p' = Some None"
    using drain_exists [OF ok assms(2)] by (auto simp: close_returns_def)
  moreover have "\<nexists>f. f 0 = p \<and> (\<forall>i. drain_step (f i) (f (Suc i)))"
    using drain_no_infinite ok assms(2) by blast
  ultimately show ?thesis by blast
qed

theorem pool_drains_witness:
  "\<exists>p'. drain_step\<^sup>*\<^sup>* (ex_pool\<lparr>p_closed := True\<rparr>) p' \<and> close_returns None p' = Some None"
  using pool_drains [OF reachable_ex_pool_closed] by simp

end
