(* ===== verification/AppRun.thy ===== *)
theory AppRun
  imports Traces
begin

text \<open>
  The boot sequence of \<open>src/app/app.go\<close>: \<open>Run\<close> builds a manager, runs the setup hook, registers,
  initialises and starts the modules, waits for the shutdown signal and drives the stop sequence,
  which is also the clean-up of every early exit.

  The setup hook is foreign code with the manager at hand, a function on managers; that it acts
  on the manager through its operations only is the hypothesis \<open>uses_operations\<close>. A stop hook is
  its result. The events record the hooks and the call of \<open>StopModules\<close> in the order they happen.
  \<open>Run\<close> is \<open>None\<close> when a lifecycle call does not return.
\<close>

datatype app_event = EPreStop nat | EStopModules | EPostStop nat

record app_options =
  ao_managerOpts :: "managerOption list"
  ao_setup :: "(manager \<Rightarrow> gerror option \<times> manager) option"
  ao_preStop :: "gerror option list"
  ao_postStop :: "gerror option list"

datatype app_option =
    WithManagerOptions "managerOption list"
  | WithSetup "(manager \<Rightarrow> gerror option \<times> manager) option"
  | WithPreStop "gerror option"
  | WithPostStop "gerror option"

fun apply_app_option :: "app_option \<Rightarrow> app_options \<Rightarrow> app_options" where
  "apply_app_option (WithManagerOptions opts) o' = o'\<lparr>ao_managerOpts := ao_managerOpts o' @ opts\<rparr>"
| "apply_app_option (WithSetup fn) o' = o'\<lparr>ao_setup := fn\<rparr>"
| "apply_app_option (WithPreStop r) o' = o'\<lparr>ao_preStop := ao_preStop o' @ [r]\<rparr>"
| "apply_app_option (WithPostStop r) o' = o'\<lparr>ao_postStop := ao_postStop o' @ [r]\<rparr>"

definition newOptions :: "app_option list \<Rightarrow> app_options" where
  "newOptions opts = fold apply_app_option opts
     \<lparr>ao_managerOpts = [], ao_setup = None, ao_preStop = [], ao_postStop = []\<rparr>"

definition app_error :: "string \<Rightarrow> gerror \<Rightarrow> gerror" where
  "app_error what e = Errorf [Lit ''app: '', Lit what, Lit '': '', Wrapped e]"

definition hook_errors :: "string \<Rightarrow> gerror option list \<Rightarrow> gerror list" where
  "hook_errors what rs = map (app_error what) (List.map_filter id rs)"

definition runStop :: "app_options \<Rightarrow> callctx \<Rightarrow> manager \<Rightarrow> (gerror option \<times> manager \<times> app_event list) option" where
  "runStop cfg cx mgr =
     (case StopModules cx mgr of
        None \<Rightarrow> None
      | Some (r, mgr') \<Rightarrow>
          (let errs = hook_errors ''pre-stop hook failed'' (ao_preStop cfg)
               @ (case r of None \<Rightarrow> [] | Some e \<Rightarrow> [app_error ''stop failed'' e])
               @ hook_errors ''post-stop hook failed'' (ao_postStop cfg)
           in Some (errors_Join_all errs, mgr',
                map EPreStop [0..<length (ao_preStop cfg)] @ [EStopModules]
                @ map EPostStop [0..<length (ao_postStop cfg)])))"

fun registerModules :: "nat \<Rightarrow> gomodule option list \<Rightarrow> manager \<Rightarrow> gerror option \<times> manager" where
  "registerModules i [] mgr = (None, mgr)"
| "registerModules i (None # mods) mgr =
     (Some (Errorf [Lit ''app: module at index '', Num (int i), Lit '' must not be nil'']), mgr)"
| "registerModules i (Some md # mods) mgr =
     (case RegisterModule (Some md) mgr of
        (Some e, mgr') \<Rightarrow>
          (Some (Errorf [Lit ''app: failed to register module '', Quoted (mod_Name md), Lit '': '', Wrapped e]), mgr')
      | (None, mgr') \<Rightarrow> registerModules (Suc i) mods mgr')"

definition runSetup :: "app_options \<Rightarrow> manager \<Rightarrow> gerror option \<times> manager" where
  "runSetup cfg mgr =
     (case ao_setup cfg of
        None \<Rightarrow> (None, mgr)
      | Some fn \<Rightarrow> (case fn mgr of
            (Some e, mgr') \<Rightarrow> (Some (app_error ''setup failed'' e), mgr')
          | (None, mgr') \<Rightarrow> (None, mgr')))"

definition startModules :: "app_options \<Rightarrow> callctx \<Rightarrow> callctx \<Rightarrow> gomodule option list \<Rightarrow> manager \<Rightarrow>
    (gerror option \<times> manager) option" where
  "startModules cfg initCx startCx modules mgr =
     (case runSetup cfg mgr of
        (Some e, mgr) \<Rightarrow> Some (Some e, mgr)
      | (None, mgr) \<Rightarrow>
          (case registerModules 0 modules mgr of
             (Some e, mgr) \<Rightarrow> Some (Some e, mgr)
           | (None, mgr) \<Rightarrow>
               (case InitModules initCx mgr of
                  None \<Rightarrow> None
                | Some (Some e, mgr) \<Rightarrow> Some (Some (app_error ''init failed'' e), mgr)
                | Some (None, mgr) \<Rightarrow>
                    (case StartModules startCx mgr of
                       None \<Rightarrow> None
                     | Some (Some e, mgr) \<Rightarrow> Some (Some (app_error ''start failed'' e), mgr)
                     | Some (None, mgr) \<Rightarrow> Some (None, mgr)))))"

text \<open>The result: \<open>Run\<close>'s error, the manager unless its construction failed, and the events.\<close>

definition Run :: "(iface \<Rightarrow> gerror option) option \<Rightarrow> gomodule option list \<Rightarrow> app_option list \<Rightarrow>
    callctx \<Rightarrow> callctx \<Rightarrow> callctx \<Rightarrow> (gerror option \<times> manager option \<times> app_event list) option" where
  "Run configLoader modules opts initCx startCx stopCx =
     (let cfg = newOptions opts in
      case NewManager (WithConfigLoader configLoader # ao_managerOpts cfg) of
        Inl e \<Rightarrow> Some (Some (app_error ''failed to construct manager'' e), None, [])
      | Inr mgr \<Rightarrow>
          (case startModules cfg initCx startCx modules mgr of
             None \<Rightarrow> None
           | Some (Some err, mgr) \<Rightarrow>
               (case runStop cfg stopCx mgr of
                  None \<Rightarrow> None
                | Some (stopErr, mgr, ev) \<Rightarrow>
                    Some (Some (case stopErr of None \<Rightarrow> err | Some e \<Rightarrow> Joined [err, e]), Some mgr, ev))
           | Some (None, mgr) \<Rightarrow>
               (case runStop cfg stopCx mgr of
                  None \<Rightarrow> None
                | Some (stopErr, mgr, ev) \<Rightarrow> Some (stopErr, Some mgr, ev))))"


section \<open>Every exit stops the manager\<close>

definition uses_operations :: "app_options \<Rightarrow> bool" where
  "uses_operations cfg \<longleftrightarrow> (\<forall>fn m. ao_setup cfg = Some fn \<longrightarrow> mstep\<^sup>*\<^sup>* m (snd (fn m)))"

lemma reachable_steps: "mstep\<^sup>*\<^sup>* m m' \<Longrightarrow> reachable m \<Longrightarrow> reachable m'"
  by (induction rule: rtranclp_induct) (auto intro: reachable.step)

lemma registerModules_reachable:
  "reachable m \<Longrightarrow> reachable (snd (registerModules i mods m))"
proof (induction i mods m rule: registerModules.induct)
  case (3 i md mods mgr)
  have "reachable (snd (RegisterModule (Some md) mgr))"
    by (rule reachable.step [OF "3.prems" mstep.register])
  then show ?case
    using "3.IH" by (cases "RegisterModule (Some md) mgr") (auto split: option.splits)
qed simp_all

lemma runSetup_reachable:
  assumes "uses_operations cfg" and "reachable m"
  shows "reachable (snd (runSetup cfg m))"
proof (cases "ao_setup cfg")
  case None
  then show ?thesis using assms(2) by (simp add: runSetup_def)
next
  case (Some fn)
  then have "reachable (snd (fn m))"
    using assms reachable_steps by (auto simp: uses_operations_def)
  then show ?thesis
    using Some by (cases "fn m") (simp add: runSetup_def split: option.splits)
qed

lemma startModules_reachable:
  assumes "uses_operations cfg" and "reachable m" and "startModules cfg initCx startCx mods m = Some (r, m')"
  shows "reachable m'"
proof -
  obtain e1 m1 where s1: "runSetup cfg m = (e1, m1)" by fastforce
  obtain e2 m2 where s2: "registerModules 0 mods m1 = (e2, m2)" by fastforce
  have r1: "reachable m1" using runSetup_reachable [OF assms(1,2)] s1 by simp
  have r2: "reachable m2" using registerModules_reachable [OF r1, of 0 mods] s2 by simp
  have init: "InitModules initCx m2 = Some (e, m3) \<Longrightarrow> reachable m3" for e m3
    using reachable.step [OF r2 mstep.init] .
  have start: "InitModules initCx m2 = Some (e, m3) \<Longrightarrow> StartModules startCx m3 = Some (e', m4) \<Longrightarrow> reachable m4"
    for e m3 e' m4
    using reachable.step [OF init mstep.start] .
  show ?thesis
    using assms(3) s1 s2 r1 r2 init start
    by (auto simp: startModules_def split: option.splits)
qed

lemma runStop_effect:
  assumes "reachable m" and "runStop cfg cx m = Some (r, m', ev)"
  shows "reachable m'" "m_state m' = StateStopped"
    "ev = map EPreStop [0..<length (ao_preStop cfg)] @ [EStopModules] @ map EPostStop [0..<length (ao_postStop cfg)]"
proof -
  obtain s where s: "StopModules cx m = Some (s, m')"
    using assms(2) by (auto simp: runStop_def Let_def split: option.splits)
  show "reachable m'"
    by (rule reachable.step [OF assms(1) mstep.stop [OF s]])
  show "m_state m' = StateStopped"
  proof (cases "m_state m = StateStopped")
    case True
    then show ?thesis using s by (simp add: StopModules_def)
  next
    case False
    then have "stoppable (m_state m)"
      using trace_ok_stoppable [OF reachable_trace_ok [OF assms(1)]] by simp
    from reachable_wf [OF assms(1)] this s show ?thesis
      by (cases rule: StopModules_outcome) simp
  qed
  show "ev = map EPreStop [0..<length (ao_preStop cfg)] @ [EStopModules] @ map EPostStop [0..<length (ao_postStop cfg)]"
    using assms(2) s by (simp add: runStop_def Let_def)
qed

lemma hook_error_reported:
  "Some e \<in> set rs \<Longrightarrow> errors_is e t \<Longrightarrow> \<exists>h \<in> set (hook_errors what rs). errors_is h t"
  by (force simp: hook_errors_def app_error_def List.map_filter_def)

lemma runStop_reports:
  assumes "runStop cfg cx m = Some (r, m', ev)" and "Some e \<in> set (ao_preStop cfg) \<union> set (ao_postStop cfg)"
    and "errors_is e t"
  shows "\<exists>j. r = Some j \<and> errors_is j t"
proof -
  obtain s where r: "r = errors_Join_all (hook_errors ''pre-stop hook failed'' (ao_preStop cfg)
      @ (case s of None \<Rightarrow> [] | Some e \<Rightarrow> [app_error ''stop failed'' e])
      @ hook_errors ''post-stop hook failed'' (ao_postStop cfg))"
    using assms(1) by (auto simp: runStop_def Let_def split: option.splits)
  obtain h where "h \<in> set (hook_errors ''pre-stop hook failed'' (ao_preStop cfg))
      \<union> set (hook_errors ''post-stop hook failed'' (ao_postStop cfg))" "errors_is h t"
    using hook_error_reported [OF _ assms(3)] assms(2) by (metis Un_iff)
  then show ?thesis
    unfolding r by (intro errors_Join_all_is [of h]) auto
qed

lemma Run_cases:
  assumes "Run loader modules opts initCx startCx stopCx = Some (r, Some m', ev)"
  obtains mgr serr m1 stopErr where
    "NewManager (WithConfigLoader loader # ao_managerOpts (newOptions opts)) = Inr mgr"
    "startModules (newOptions opts) initCx startCx modules mgr = Some (serr, m1)"
    "runStop (newOptions opts) stopCx m1 = Some (stopErr, m', ev)"
    "r = (case serr of None \<Rightarrow> stopErr
          | Some err \<Rightarrow> Some (case stopErr of None \<Rightarrow> err | Some e \<Rightarrow> Joined [err, e]))"
  using assms that
  by (auto simp: Run_def Let_def split: sum.splits option.splits prod.splits)

text \<open>C17. However \<open>Run\<close> exits after the manager was built (failing setup, registration, init or start, or
  the shutdown signal), the manager is stopped, its bus closed once, and all pre-stop hooks, the
  stop of the modules and all post-stop hooks have run, once each and in that order; the error of
  any hook is wrapped by the returned error.\<close>

theorem Run_always_stops:
  assumes "Run loader modules opts initCx startCx stopCx = Some (r, Some m', ev)"
    and "uses_operations (newOptions opts)"
  shows "m_state m' = StateStopped \<and> CCloseBus \<in> set (m_calls m') \<and> distinct (m_calls m') \<and>
    ev = map EPreStop [0..<length (ao_preStop (newOptions opts))] @ [EStopModules]
      @ map EPostStop [0..<length (ao_postStop (newOptions opts))] \<and>
    (\<forall>e t. Some e \<in> set (ao_preStop (newOptions opts)) \<union> set (ao_postStop (newOptions opts)) \<longrightarrow>
       errors_is e t \<longrightarrow> (\<exists>j. r = Some j \<and> errors_is j t))"
  using assms(1)
proof (cases rule: Run_cases)
  case (1 mgr serr m1 stopErr)
  have "reachable mgr" using 1(1) by (rule reachable.new)
  then have m1: "reachable m1"
    using startModules_reachable [OF assms(2) _ 1(2)] by simp
  note eff = runStop_effect [OF m1 1(3)]
  have "\<exists>j. r = Some j \<and> errors_is j t"
    if "Some e \<in> set (ao_preStop (newOptions opts)) \<union> set (ao_postStop (newOptions opts))" "errors_is e t" for e t
    using runStop_reports [OF 1(3) that] 1(4) by (auto split: option.splits)
  then show ?thesis
    using eff reachable_distinct [OF eff(1)] reachable_closed [OF eff(1)] by (intro conjI allI impI) simp_all
qed

definition ex_post_fails :: "app_option list" where
  "ex_post_fails = [WithPostStop (Some (Sentinel ''flush''))]"

theorem Run_always_stops_witness:
  "\<exists>r m' ev j. Run None [Some (ex_module ''a'' []), None] ex_post_fails ex_ctx ex_ctx ex_ctx = Some (r, Some m', ev) \<and>
     m_state m' = StateStopped \<and> r = Some j \<and> errors_is j (Sentinel ''flush'')"
proof -
  have "case Run None [Some (ex_module ''a'' []), None] ex_post_fails ex_ctx ex_ctx ex_ctx of
      None \<Rightarrow> False | Some (_, m, _) \<Rightarrow> (case m of None \<Rightarrow> False | Some _ \<Rightarrow> True)"
    by code_simp
  then obtain r m' ev where r: "Run None [Some (ex_module ''a'' []), None] ex_post_fails ex_ctx ex_ctx ex_ctx = Some (r, Some m', ev)"
    by (auto split: option.splits)
  have o: "newOptions ex_post_fails = \<lparr>ao_managerOpts = [], ao_setup = None, ao_preStop = [], ao_postStop = [Some (Sentinel ''flush'')]\<rparr>"
    by (simp add: newOptions_def ex_post_fails_def)
  have u: "uses_operations (newOptions ex_post_fails)"
    by (simp add: uses_operations_def o)
  have "Some (Sentinel ''flush'') \<in> set (ao_preStop (newOptions ex_post_fails)) \<union> set (ao_postStop (newOptions ex_post_fails))"
    by (simp add: o)
  with Run_always_stops [OF r u] have "m_state m' = StateStopped" "\<exists>j. r = Some j \<and> errors_is j (Sentinel ''flush'')"
    using errors_is_refl by blast+
  then show ?thesis using r by blast
qed

end
