(* ===== verification/GoRegexp.thy ===== *)
theory GoRegexp
  imports Prelude
begin

text \<open>
  The part of Go's \<open>regexp\<close> package that the secret scanners use. A pattern is a term of
  \<open>re\<close>; \<open>re_ends\<close> lists where a match that starts at a position may end, in the order
  of preference of the leftmost-first semantics (greedy repetition first, lazy repetition last,
  left alternative first). A position is the byte before it, for word boundaries, and the rest of
  the text. \<open>MatchString\<close> and \<open>ReplaceAllString\<close> are built on it. Repetition of a character
  class is a recursion over the text; repetition of a group stops where an iteration matches
  nothing, so as many iterations as there are bytes left are enough.
\<close>

datatype re =
    Class "char \<Rightarrow> bool"
  | Star "char \<Rightarrow> bool"
  | LazyStar "char \<Rightarrow> bool"
  | Opt "char \<Rightarrow> bool"
  | Rep re
  | WordBoundary
  | TextStart
  | TextEnd
  | Empty
  | Seq re re
  | Alt re re

type_synonym pos = "char option \<times> string"

fun star_ends :: "(char \<Rightarrow> bool) \<Rightarrow> char option \<Rightarrow> string \<Rightarrow> pos list" where
  "star_ends P p [] = [(p, [])]"
| "star_ends P p (c # cs) =
     (if P c then star_ends P (Some c) cs @ [(p, c # cs)] else [(p, c # cs)])"

fun lazy_ends :: "(char \<Rightarrow> bool) \<Rightarrow> char option \<Rightarrow> string \<Rightarrow> pos list" where
  "lazy_ends P p [] = [(p, [])]"
| "lazy_ends P p (c # cs) = (p, c # cs) # (if P c then lazy_ends P (Some c) cs else [])"

definition in_range :: "char \<Rightarrow> char \<Rightarrow> char \<Rightarrow> bool" where
  [go_defs]: "in_range a b c \<longleftrightarrow> of_char a \<le> (of_char c :: nat) \<and> (of_char c :: nat) \<le> of_char b"

definition is_upper :: "char \<Rightarrow> bool" where
  [go_defs]: "is_upper = in_range CHR ''A'' CHR ''Z''"

definition is_lower :: "char \<Rightarrow> bool" where
  [go_defs]: "is_lower = in_range CHR ''a'' CHR ''z''"

definition is_digit :: "char \<Rightarrow> bool" where
  [go_defs]: "is_digit = in_range CHR ''0'' CHR ''9''"

definition is_alnum :: "char \<Rightarrow> bool" where
  [go_defs]: "is_alnum c \<longleftrightarrow> is_upper c \<or> is_lower c \<or> is_digit c"

text \<open>The ASCII word characters \<open>\b\<close> is about, and the class \<open>\s\<close>.\<close>

definition is_word :: "char \<Rightarrow> bool" where
  [go_defs]: "is_word c \<longleftrightarrow> is_alnum c \<or> c = CHR ''_''"

definition re_space :: "char \<Rightarrow> bool" where
  [go_defs]: "re_space c \<longleftrightarrow> c \<in> {CHR 0x09, CHR 0x0A, CHR 0x0C, CHR 0x0D, CHR '' ''}"

definition to_lower :: "char \<Rightarrow> char" where
  [go_defs]: "to_lower c = (if is_upper c then char_of (of_char c + 32 :: nat) else c)"

definition to_upper :: "char \<Rightarrow> char" where
  [go_defs]: "to_upper c = (if is_lower c then char_of (of_char c - 32 :: nat) else c)"

definition at_boundary :: "pos \<Rightarrow> bool" where
  [go_defs]: "at_boundary q = (case q of (p, s) \<Rightarrow>
     (case p of None \<Rightarrow> False | Some c \<Rightarrow> is_word c) \<noteq>
     (case s of [] \<Rightarrow> False | c # _ \<Rightarrow> is_word c))"

fun rep_ends :: "(pos \<Rightarrow> pos list) \<Rightarrow> nat \<Rightarrow> pos \<Rightarrow> pos list" where
  "rep_ends m 0 q = [q]"
| "rep_ends m (Suc n) q =
     concat (map (rep_ends m n) (filter (\<lambda>q'. length (snd q') < length (snd q)) (m q))) @ [q]"

primrec re_ends :: "re \<Rightarrow> pos \<Rightarrow> pos list" where
  "re_ends (Class P) q = (case snd q of [] \<Rightarrow> [] | c # cs \<Rightarrow> if P c then [(Some c, cs)] else [])"
| "re_ends (Star P) q = star_ends P (fst q) (snd q)"
| "re_ends (LazyStar P) q = lazy_ends P (fst q) (snd q)"
| "re_ends (Opt P) q =
     (case snd q of [] \<Rightarrow> [q] | c # cs \<Rightarrow> (if P c then [(Some c, cs)] else []) @ [q])"
| "re_ends (Rep r) q = rep_ends (re_ends r) (length (snd q)) q"
| "re_ends WordBoundary q = (if at_boundary q then [q] else [])"
| "re_ends TextStart q = (if fst q = None then [q] else [])"
| "re_ends TextEnd q = (if snd q = [] then [q] else [])"
| "re_ends Empty q = [q]"
| "re_ends (Seq a b) q = concat (map (re_ends b) (re_ends a q))"
| "re_ends (Alt a b) q = re_ends a q @ re_ends b q"

text \<open>Literals, also under the flag \<open>(?i)\<close>, sequences, alternatives and \<open>x{n,}\<close>.\<close>

definition re_seq :: "re list \<Rightarrow> re" where
  [go_defs]: "re_seq rs = foldr Seq rs Empty"

definition re_lit :: "string \<Rightarrow> re" where
  [go_defs]: "re_lit s = re_seq (map (\<lambda>c. Class (\<lambda>x. x = c)) s)"

definition re_lit_fold :: "string \<Rightarrow> re" where
  [go_defs]: "re_lit_fold s = re_seq (map (\<lambda>c. Class (\<lambda>x. to_lower x = to_lower c)) s)"

fun re_alts :: "re list \<Rightarrow> re" where
  "re_alts [] = Class (\<lambda>_. False)"
| "re_alts [r] = r"
| "re_alts (r # rs) = Alt r (re_alts rs)"

definition re_at_least :: "nat \<Rightarrow> (char \<Rightarrow> bool) \<Rightarrow> re" where
  [go_defs]: "re_at_least n P = re_seq (replicate n (Class P) @ [Star P])"

text \<open>\<open>(*Regexp).MatchString\<close>: does a match start anywhere.\<close>

fun match_from :: "re \<Rightarrow> char option \<Rightarrow> string \<Rightarrow> bool" where
  "match_from r p [] = (re_ends r (p, []) \<noteq> [])"
| "match_from r p (c # cs) = (re_ends r (p, c # cs) \<noteq> [] \<or> match_from r (Some c) cs)"

definition MatchString :: "re \<Rightarrow> string \<Rightarrow> bool" where
  [go_defs]: "MatchString r s = match_from r None s"

text \<open>\<open>(*Regexp).ReplaceAllString\<close> with a replacement free of \<open>$\<close>: the leftmost match is
  replaced and the search goes on after it. A pattern that matched the empty text here would be
  skipped over; no pattern of the repository does.\<close>

function replace_from :: "re \<Rightarrow> string \<Rightarrow> char option \<Rightarrow> string \<Rightarrow> string" where
  "replace_from r new p s = (case s of
     [] \<Rightarrow> []
   | c # cs \<Rightarrow>
     (case re_ends r (p, s) of
        [] \<Rightarrow> c # replace_from r new (Some c) cs
      | (p', s') # _ \<Rightarrow>
          if length s' < length s then new @ replace_from r new p' s'
          else c # replace_from r new (Some c) cs))"
  by pat_completeness auto
termination replace_from by (relation "measure (\<lambda>(r, new, p, s). length s)") auto

declare replace_from.simps [simp del]

definition ReplaceAllString :: "re \<Rightarrow> string \<Rightarrow> string \<Rightarrow> string" where
  [go_defs]: "ReplaceAllString r s new = replace_from r new None s"


section \<open>Properties of the matcher\<close>

lemma replace_from_no_match:
  "\<not> match_from r p s \<Longrightarrow> replace_from r new p s = s"
proof (induction s arbitrary: p)
  case Nil
  then show ?case by (subst replace_from.simps) simp
next
  case (Cons c cs)
  then show ?case by (subst replace_from.simps) simp
qed

lemma ReplaceAllString_no_match: "\<not> MatchString r s \<Longrightarrow> ReplaceAllString r s new = s"
  by (simp add: MatchString_def ReplaceAllString_def replace_from_no_match)

text \<open>Where a match ends is a suffix of where it started.\<close>

lemma star_ends_suffix: "q \<in> set (star_ends P p s) \<Longrightarrow> suffix (snd q) s"
  by (induction P p s rule: star_ends.induct) (auto split: if_splits intro: suffix_ConsI)

lemma lazy_ends_suffix: "q \<in> set (lazy_ends P p s) \<Longrightarrow> suffix (snd q) s"
  by (induction P p s rule: lazy_ends.induct) (auto split: if_splits intro: suffix_ConsI)

lemma rep_ends_suffix:
  assumes "\<And>q q'. q' \<in> set (m q) \<Longrightarrow> suffix (snd q') (snd q)"
  shows "q' \<in> set (rep_ends m n q) \<Longrightarrow> suffix (snd q') (snd q)"
proof (induction n arbitrary: q)
  case (Suc n)
  then consider "q' = q" | q1 where "q1 \<in> set (m q)" "q' \<in> set (rep_ends m n q1)" by auto
  then show ?case
  proof cases
    case (2 q1)
    then show ?thesis using assms Suc.IH suffix_order.trans by blast
  qed simp
qed simp

lemma re_ends_suffix: "q' \<in> set (re_ends r q) \<Longrightarrow> suffix (snd q') (snd q)"
proof (induction r arbitrary: q q')
  case (Seq a b)
  then obtain q1 where "q1 \<in> set (re_ends a q)" and "q' \<in> set (re_ends b q1)" by auto
  then show ?case using Seq.IH suffix_order.trans by blast
next
  case (Rep r)
  then show ?case using rep_ends_suffix [of "re_ends r"] by auto
qed (auto split: list.splits if_splits intro: suffix_ConsI dest: star_ends_suffix lazy_ends_suffix)


section \<open>What a pattern means\<close>

text \<open>The declarative meaning of a pattern, without an order of preference: \<open>matches r p w s\<close>
  says that \<open>r\<close> matches the text \<open>w\<close> when \<open>p\<close> is the byte before it and \<open>s\<close> the text behind.\<close>

definition before :: "char option \<Rightarrow> string \<Rightarrow> char option" where
  "before p w = (if w = [] then p else Some (last w))"

lemma before_simps [simp]:
  "before p [] = p" "before p (c # w) = before (Some c) w" "before p (u @ v) = before (before p u) v"
  by (auto simp: before_def)

inductive matches :: "re \<Rightarrow> char option \<Rightarrow> string \<Rightarrow> string \<Rightarrow> bool" where
  Class: "P c \<Longrightarrow> matches (Class P) p [c] s"
| Star: "list_all P w \<Longrightarrow> matches (Star P) p w s"
| LazyStar: "list_all P w \<Longrightarrow> matches (LazyStar P) p w s"
| Opt: "matches (Opt P) p [] s"
| Opt_one: "P c \<Longrightarrow> matches (Opt P) p [c] s"
| Rep: "matches (Rep r) p [] s"
| Rep_more: "matches r p u (v @ s) \<Longrightarrow> matches (Rep r) (before p u) v s \<Longrightarrow> matches (Rep r) p (u @ v) s"
| WordBoundary: "at_boundary (p, s) \<Longrightarrow> matches WordBoundary p [] s"
| TextStart: "matches TextStart None [] s"
| TextEnd: "matches TextEnd p [] []"
| Empty: "matches Empty p [] s"
| Seq: "matches a p u (v @ s) \<Longrightarrow> matches b (before p u) v s \<Longrightarrow> matches (Seq a b) p (u @ v) s"
| Alt_left: "matches a p w s \<Longrightarrow> matches (Alt a b) p w s"
| Alt_right: "matches b p w s \<Longrightarrow> matches (Alt a b) p w s"

inductive_simps matches_simps [simp]:
  "matches (Class P) p w s" "matches (Star P) p w s" "matches (LazyStar P) p w s" "matches (Opt P) p w s"
  "matches WordBoundary p w s" "matches TextStart p w s" "matches TextEnd p w s" "matches Empty p w s"
  "matches (Alt a b) p w s"

inductive_simps matches_Seq: "matches (Seq a b) p w s"
inductive_simps matches_Rep: "matches (Rep r) p w s"

text \<open>The matcher of the model finds exactly these matches.\<close>

lemma star_ends_iff:
  "(p', s') \<in> set (star_ends P p s) \<longleftrightarrow> (\<exists>w. s = w @ s' \<and> p' = before p w \<and> list_all P w)"
proof (induction P p s rule: star_ends.induct)
  case (2 P p c cs)
  have "(\<exists>w. c # cs = w @ s' \<and> p' = before p w \<and> list_all P w) \<longleftrightarrow>
      (p' = p \<and> s' = c # cs) \<or> (P c \<and> (\<exists>w. cs = w @ s' \<and> p' = before (Some c) w \<and> list_all P w))"
    by (auto simp: Cons_eq_append_conv)
  then show ?case using 2 by auto
qed auto

lemma lazy_ends_iff:
  "(p', s') \<in> set (lazy_ends P p s) \<longleftrightarrow> (\<exists>w. s = w @ s' \<and> p' = before p w \<and> list_all P w)"
proof (induction P p s rule: lazy_ends.induct)
  case (2 P p c cs)
  have "(\<exists>w. c # cs = w @ s' \<and> p' = before p w \<and> list_all P w) \<longleftrightarrow>
      (p' = p \<and> s' = c # cs) \<or> (P c \<and> (\<exists>w. cs = w @ s' \<and> p' = before (Some c) w \<and> list_all P w))"
    by (auto simp: Cons_eq_append_conv)
  then show ?case using 2 by auto
qed auto

lemma rep_ends_sound:
  assumes m: "\<And>p s p' s'. (p', s') \<in> set (re_ends r (p, s)) \<Longrightarrow> \<exists>w. s = w @ s' \<and> p' = before p w \<and> matches r p w s'"
  shows "(p', s') \<in> set (rep_ends (re_ends r) n (p, s)) \<Longrightarrow>
    \<exists>w. s = w @ s' \<and> p' = before p w \<and> matches (Rep r) p w s'"
proof (induction n arbitrary: p s)
  case (Suc n)
  then consider "p' = p" "s' = s"
    | p1 s1 where "(p1, s1) \<in> set (re_ends r (p, s))" "(p', s') \<in> set (rep_ends (re_ends r) n (p1, s1))"
    by auto
  then show ?case
  proof cases
    case 1
    then show ?thesis by (auto intro: matches.Rep)
  next
    case (2 p1 s1)
    then obtain u where "s = u @ s1" "p1 = before p u" "matches r p u s1" using m by blast
    moreover obtain v where "s1 = v @ s'" "p' = before p1 v" "matches (Rep r) p1 v s'" using Suc.IH 2 by blast
    ultimately show ?thesis by (intro exI [of _ "u @ v"]) (auto intro: matches.Rep_more)
  qed
qed (auto intro: matches.Rep)

lemma rep_ends_complete:
  assumes m: "\<And>p w s. matches r p w s \<Longrightarrow> (before p w, s) \<in> set (re_ends r (p, w @ s))"
  shows "matches r' p w s \<Longrightarrow> r' = Rep r \<Longrightarrow> length (w @ s) \<le> n \<Longrightarrow>
    (before p w, s) \<in> set (rep_ends (re_ends r) n (p, w @ s))"
proof (induction r' p w s arbitrary: n rule: matches.induct)
  case (Rep r0 p s)
  then show ?case by (cases n) auto
next
  case (Rep_more r0 p u v s)
  show ?case
  proof (cases "u = []")
    case True
    then show ?thesis using Rep_more by simp
  next
    case False
    then obtain n' where n: "n = Suc n'" using Rep_more.prems by (cases n) auto
    have "(before p u, v @ s) \<in> set (re_ends r (p, u @ v @ s))" using m Rep_more by blast
    moreover have "(before (before p u) v, s) \<in> set (rep_ends (re_ends r) n' (before p u, v @ s))"
      using Rep_more False n by (cases u) auto
    moreover have "length (v @ s) < length (u @ v @ s)" using False by simp
    ultimately have "\<exists>q \<in> set (re_ends r (p, u @ v @ s)). length (snd q) < length (u @ v @ s) \<and>
        (before p (u @ v), s) \<in> set (rep_ends (re_ends r) n' q)"
      by (intro bexI [of _ "(before p u, v @ s)"]) simp_all
    then show ?thesis using n by auto
  qed
qed auto

lemma re_ends_sound:
  "(p', s') \<in> set (re_ends r (p, s)) \<Longrightarrow> \<exists>w. s = w @ s' \<and> p' = before p w \<and> matches r p w s'"
proof (induction r arbitrary: p s p' s')
  case (Rep r)
  then show ?case using rep_ends_sound [of r p' s' _ p s] by auto
next
  case (Seq a b)
  then obtain p1 s1 where "(p1, s1) \<in> set (re_ends a (p, s))" "(p', s') \<in> set (re_ends b (p1, s1))" by auto
  moreover from this(1) obtain u where "s = u @ s1" "p1 = before p u" "matches a p u s1" using Seq.IH(1) by blast
  moreover from calculation(2) obtain v where "s1 = v @ s'" "p' = before p1 v" "matches b p1 v s'" using Seq.IH(2) by blast
  ultimately show ?case by (intro exI [of _ "u @ v"]) (auto intro: matches.Seq)
next
  case (Alt a b)
  then show ?case by fastforce
qed (auto simp: star_ends_iff lazy_ends_iff split: list.splits if_splits)

lemma re_ends_complete: "matches r p w s \<Longrightarrow> (before p w, s) \<in> set (re_ends r (p, w @ s))"
proof (induction r arbitrary: p w s)
  case (Rep r)
  then show ?case using rep_ends_complete [of r "Rep r" p w s] by simp
next
  case (Seq a b)
  then obtain u v where "w = u @ v" "matches a p u (v @ s)" "matches b (before p u) v s"
    by (auto simp: matches_Seq)
  then show ?case using Seq.IH(1) [of p u "v @ s"] Seq.IH(2) [of "before p u" v s] by force
qed (auto simp: star_ends_iff lazy_ends_iff split: list.splits)

lemma match_from_iff: "match_from r p s \<longleftrightarrow> (\<exists>u w v. s = u @ w @ v \<and> matches r (before p u) w v)"
proof -
  have ends: "re_ends r (p, s) \<noteq> [] \<longleftrightarrow> (\<exists>w v. s = w @ v \<and> matches r p w v)" for p s
  proof
    assume "re_ends r (p, s) \<noteq> []"
    then obtain p' s' where "(p', s') \<in> set (re_ends r (p, s))" by (metis last_in_set surj_pair)
    then show "\<exists>w v. s = w @ v \<and> matches r p w v" using re_ends_sound by blast
  next
    assume "\<exists>w v. s = w @ v \<and> matches r p w v"
    then show "re_ends r (p, s) \<noteq> []" using re_ends_complete by fastforce
  qed
  show ?thesis
  proof (induction s arbitrary: p)
    case Nil
    then show ?case by (simp add: ends)
  next
    case (Cons c cs)
    have "(\<exists>u w v. c # cs = u @ w @ v \<and> matches r (before p u) w v) \<longleftrightarrow>
        (\<exists>w v. c # cs = w @ v \<and> matches r p w v) \<or> (\<exists>u w v. cs = u @ w @ v \<and> matches r (before (Some c) u) w v)"
      (is "?L \<longleftrightarrow> ?A \<or> ?B")
    proof
      assume ?L
      then obtain u w v where uwv: "c # cs = u @ w @ v" "matches r (before p u) w v" by blast
      then show "?A \<or> ?B" by (cases u) auto
    next
      have "?L" if "c # cs = w @ v" "matches r p w v" for w v
        using that by (intro exI [of _ "[]"] exI [of _ w] exI [of _ v]) simp
      moreover have "?L" if "cs = u @ w @ v" "matches r (before (Some c) u) w v" for u w v
        using that by (intro exI [of _ "c # u"] exI [of _ w] exI [of _ v]) simp
      ultimately show "?A \<or> ?B \<Longrightarrow> ?L" by blast
    qed
    then show ?case using Cons.IH [of "Some c"] ends [of p "c # cs"] by simp
  qed
qed

lemma MatchString_iff: "MatchString r s \<longleftrightarrow> (\<exists>u w v. s = u @ w @ v \<and> matches r (before None u) w v)"
  by (simp add: MatchString_def match_from_iff)


text \<open>The meaning of the derived forms.\<close>

definition re_opt :: "re \<Rightarrow> re" where
  [go_defs]: "re_opt r = Alt r Empty"

lemma matches_re_seq [simp]:
  "matches (re_seq []) p w s \<longleftrightarrow> w = []"
  "matches (re_seq (r # rs)) p w s \<longleftrightarrow>
     (\<exists>u v. w = u @ v \<and> matches r p u (v @ s) \<and> matches (re_seq rs) (before p u) v s)"
  by (auto simp: re_seq_def matches_Seq)

lemma matches_re_lit [simp]: "matches (re_lit t) p w s \<longleftrightarrow> w = t"
proof -
  have "matches (re_seq (map (\<lambda>c. Class (\<lambda>x. x = c)) t)) p w s \<longleftrightarrow> w = t"
    by (induction t arbitrary: p w) auto
  then show ?thesis by (simp add: re_lit_def)
qed

lemma matches_re_alts [simp]: "matches (re_alts rs) p w s \<longleftrightarrow> (\<exists>r \<in> set rs. matches r p w s)"
  by (induction rs rule: re_alts.induct) auto

lemma matches_re_opt [simp]: "matches (re_opt r) p w s \<longleftrightarrow> w = [] \<or> matches r p w s"
  by (auto simp: re_opt_def)

lemma matches_at_least_one [simp]: "matches (re_at_least 1 P) p w s \<longleftrightarrow> w \<noteq> [] \<and> list_all P w"
proof -
  have "re_at_least 1 P = re_seq [Class P, Star P]" by (simp add: re_at_least_def)
  then have "matches (re_at_least 1 P) p w s \<longleftrightarrow> (\<exists>c v. w = c # v \<and> P c \<and> list_all P v)"
    by (auto intro: exI [of _ "[_]"])
  then show ?thesis by (cases w) auto
qed

text \<open>Repeating a pattern that looks neither ahead nor behind.\<close>

lemma matches_Rep_iff:
  assumes "\<And>p w s. matches r p w s \<longleftrightarrow> L w"
  shows "matches (Rep r) p w s \<longleftrightarrow> (\<exists>ws. w = concat ws \<and> list_all L ws)"
proof
  have "matches r' p w s \<Longrightarrow> r' = Rep r \<Longrightarrow> \<exists>ws. w = concat ws \<and> list_all L ws" for r'
  proof (induction r' p w s rule: matches.induct)
    case (Rep r0 p s)
    then show ?case by (intro exI [of _ "[]"]) simp
  next
    case (Rep_more r0 p u v s)
    then obtain ws where "v = concat ws" "list_all L ws" by blast
    then show ?case using Rep_more assms by (intro exI [of _ "u # ws"]) auto
  qed auto
  then show "matches (Rep r) p w s \<Longrightarrow> \<exists>ws. w = concat ws \<and> list_all L ws" by blast
next
  have "list_all L ws \<Longrightarrow> matches (Rep r) p (concat ws) s" for ws
  proof (induction ws arbitrary: p)
    case Nil
    then show ?case by (auto intro: matches.Rep)
  next
    case (Cons x ws)
    then show ?case using assms by (auto intro!: matches.Rep_more)
  qed
  then show "\<exists>ws. w = concat ws \<and> list_all L ws \<Longrightarrow> matches (Rep r) p w s" by blast
qed

text \<open>A pattern anchored at the start of the text, and one anchored at both ends.\<close>

lemma MatchString_anchored:
  "MatchString (re_seq (TextStart # rs)) s \<longleftrightarrow> (\<exists>w v. s = w @ v \<and> matches (re_seq rs) None w v)"
proof -
  have "before None u = None \<longleftrightarrow> u = []" for u by (simp add: before_def)
  then show ?thesis by (auto simp: MatchString_iff)
qed

lemma matches_re_seq_end:
  "matches (re_seq (rs @ [TextEnd])) p w s \<longleftrightarrow> s = [] \<and> matches (re_seq rs) p w []"
proof (cases "s = []")
  case True
  then show ?thesis by (induction rs arbitrary: p w) simp_all
next
  case False
  then show ?thesis by (induction rs arbitrary: p w) simp_all
qed

lemma MatchString_whole:
  "MatchString (re_seq (TextStart # rs @ [TextEnd])) s \<longleftrightarrow> matches (re_seq rs) None s []"
  by (auto simp: MatchString_anchored matches_re_seq_end)

end
