(* ===== verification/Provenance.thy ===== *)
theory Provenance
  imports Errors GoRegexp
begin

text \<open>
  The provenance envelope of package \<open>provenance\<close>: its records, the secret patterns, the
  redaction of free text and the validation that backs it up. Times are nanosecond counts from
  Go's zero time, so \<open>IsZero\<close> is equality with 0; durations are nanoseconds.
\<close>

section \<open>The schema\<close>

definition SchemaVersion :: string where
  "SchemaVersion = ''1.0.0''"

definition redactionMarker :: string where
  "redactionMarker = ''[REDACTED]''"

type_synonym Status = string

definition StatusPass :: Status where "StatusPass = ''pass''"
definition StatusFail :: Status where "StatusFail = ''fail''"
definition StatusSkipped :: Status where "StatusSkipped = ''skipped''"
definition StatusUnavailable :: Status where "StatusUnavailable = ''unavailable''"
definition StatusApprovalRequired :: Status where "StatusApprovalRequired = ''approval_required''"

type_synonym CommandClass = string

definition ClassSafe :: CommandClass where "ClassSafe = ''safe''"
definition ClassMutating :: CommandClass where "ClassMutating = ''mutating''"
definition ClassNetworked :: CommandClass where "ClassNetworked = ''networked''"
definition ClassDestructive :: CommandClass where "ClassDestructive = ''destructive''"
definition ClassApprovalRequired :: CommandClass where "ClassApprovalRequired = ''approval_required''"

lemmas status_defs = StatusPass_def StatusFail_def StatusSkipped_def StatusUnavailable_def
  StatusApprovalRequired_def
lemmas class_defs = ClassSafe_def ClassMutating_def ClassNetworked_def ClassDestructive_def
  ClassApprovalRequired_def

definition VerificationFocused :: string where "VerificationFocused = ''focused''"
definition VerificationFull :: string where "VerificationFull = ''full''"
definition VerificationSecretScan :: string where "VerificationSecretScan = ''secret_scan''"
definition VerificationProtectedPaths :: string where
  "VerificationProtectedPaths = ''protected_paths''"

record RepoState =
  rs_Path :: string
  rs_Branch :: string
  rs_Commit :: string
  rs_Dirty :: bool

record AgentInfo =
  ai_Name :: string
  ai_Version :: string
  ai_Tool :: string
  ai_ToolVersion :: string
  ai_CLIVersion :: string

record FileChange =
  fc_Path :: string
  fc_OldPath :: string
  fc_Type :: string
  fc_Hash :: string

record CommandResult =
  cr_Name :: string
  cr_Args :: "string list"
  cr_Classification :: CommandClass
  cr_Status :: Status
  cr_ExitCode :: "int option"
  cr_Duration :: int
  cr_EnvironmentNeeds :: "string list"
  cr_Output :: string
  cr_Reason :: string

record VerificationResult =
  vr_Name :: string
  vr_Category :: string
  vr_Status :: Status
  vr_Duration :: int
  vr_Message :: string
  vr_Reason :: string

record Approval =
  ap_Action :: string
  ap_ApprovedBy :: string
  ap_ApprovedAt :: int
  ap_Notes :: string

record RollbackStatus =
  rb_Available :: bool
  rb_Applied :: bool
  rb_Method :: string
  rb_Notes :: string

record Envelope =
  e_SchemaVersion :: string
  e_Repository :: RepoState
  e_Agent :: AgentInfo
  e_Changes :: "FileChange list"
  e_Commands :: "CommandResult list"
  e_Verification :: "VerificationResult list"
  e_Approvals :: "Approval list"
  e_Rollback :: "RollbackStatus option"
  e_CreatedAt :: int


section \<open>Secret patterns and redaction\<close>

definition re_quote :: "char \<Rightarrow> bool" where
  [go_defs]: "re_quote c \<longleftrightarrow> c = CHR 0x27 \<or> c = CHR 0x22"

definition awsSecretPattern :: re where
  [go_defs]: "awsSecretPattern = re_seq
     [WordBoundary, re_lit_fold ''AWS_SECRET'',
      Star (\<lambda>c. is_upper c \<or> is_lower c \<or> c = CHR ''_''), Star re_space,
      Class (\<lambda>c. c = CHR '':'' \<or> c = CHR ''=''), Star re_space, Opt re_quote,
      re_at_least 8 (\<lambda>c. is_alnum c \<or> c = CHR ''/'' \<or> c = CHR ''+'' \<or> c = CHR ''=''),
      Opt re_quote]"

definition pemPrivateKeyPattern :: re where
  [go_defs]: "pemPrivateKeyPattern = re_seq
     [re_lit ''-----BEGIN '', Star (\<lambda>c. is_upper c \<or> c = CHR '' ''), re_lit ''PRIVATE KEY-----'',
      LazyStar (\<lambda>_. True),
      re_lit ''-----END '', Star (\<lambda>c. is_upper c \<or> c = CHR '' ''), re_lit ''PRIVATE KEY-----'']"

definition githubTokenPattern :: re where
  [go_defs]: "githubTokenPattern = re_seq
     [WordBoundary,
      re_alts (map re_lit [''ghp_'', ''gho_'', ''ghu_'', ''ghs_'', ''ghr_'', ''github_pat_'']),
      re_at_least 20 is_word, WordBoundary]"

definition jwt_char :: "char \<Rightarrow> bool" where
  [go_defs]: "jwt_char c \<longleftrightarrow> is_word c \<or> c = CHR ''-''"

definition jwtPattern :: re where
  [go_defs]: "jwtPattern = re_seq
     [WordBoundary, re_lit ''eyJ'', re_at_least 1 jwt_char, re_lit ''.'', re_at_least 1 jwt_char,
      re_lit ''.'', re_at_least 1 jwt_char, WordBoundary]"

definition genericAssignmentPattern :: re where
  [go_defs]: "genericAssignmentPattern = re_seq
     [re_alts (map re_lit_fold [''key'', ''token'', ''password'', ''secret'']), Star re_space,
      Class (\<lambda>c. c = CHR '':'' \<or> c = CHR ''=''), Star re_space, Opt re_quote,
      re_at_least 6 (\<lambda>c. \<not> re_space c \<and> \<not> re_quote c \<and> c \<noteq> CHR '',''), Opt re_quote]"

definition specificSecretPatterns :: "re list" where
  "specificSecretPatterns =
     [awsSecretPattern, pemPrivateKeyPattern, githubTokenPattern, jwtPattern]"

definition secretPatterns :: "re list" where
  "secretPatterns =
     [awsSecretPattern, pemPrivateKeyPattern, githubTokenPattern, genericAssignmentPattern,
      jwtPattern]"

definition containsSecret :: "string \<Rightarrow> bool" where
  "containsSecret s = list_ex (\<lambda>r. MatchString r s) secretPatterns"

fun redact_loop :: "string \<Rightarrow> bool \<Rightarrow> re list \<Rightarrow> string \<times> bool" where
  "redact_loop s changed [] = (s, changed)"
| "redact_loop s changed (r # rs) =
     (if MatchString r s then redact_loop (ReplaceAllString r s redactionMarker) True rs
      else redact_loop s changed rs)"

definition redactWith :: "string \<Rightarrow> re list \<Rightarrow> string \<times> bool" where
  "redactWith s patterns = (if s = '''' then (s, False) else redact_loop s False patterns)"

definition redactString :: "string \<Rightarrow> string \<times> bool" where
  "redactString s = redactWith s secretPatterns"

definition RedactSecrets :: "string \<Rightarrow> string \<times> bool" where
  "RedactSecrets s = redactString s"

definition RedactHighConfidenceSecrets :: "string \<Rightarrow> string \<times> bool" where
  "RedactHighConfidenceSecrets s = redactWith s specificSecretPatterns"

definition redact_command :: "CommandResult \<Rightarrow> CommandResult" where
  "redact_command c = c\<lparr>
     cr_Output := fst (redactString (cr_Output c)),
     cr_Reason := fst (redactString (cr_Reason c)),
     cr_Args := map (\<lambda>a. fst (redactString a)) (cr_Args c)\<rparr>"

definition redact_verification :: "VerificationResult \<Rightarrow> VerificationResult" where
  "redact_verification v = v\<lparr>
     vr_Message := fst (redactString (vr_Message v)),
     vr_Reason := fst (redactString (vr_Reason v))\<rparr>"

definition redact_approval :: "Approval \<Rightarrow> Approval" where
  "redact_approval a = a\<lparr>ap_Notes := fst (redactString (ap_Notes a))\<rparr>"

definition redact_rollback :: "RollbackStatus \<Rightarrow> RollbackStatus" where
  "redact_rollback r = r\<lparr>rb_Notes := fst (redactString (rb_Notes r))\<rparr>"

definition Redact :: "Envelope \<Rightarrow> Envelope" where
  "Redact e = e\<lparr>
     e_Commands := map redact_command (e_Commands e),
     e_Verification := map redact_verification (e_Verification e),
     e_Approvals := map redact_approval (e_Approvals e),
     e_Rollback := map_option redact_rollback (e_Rollback e)\<rparr>"


section \<open>Validation\<close>

definition requiresReason :: "Status \<Rightarrow> bool" where
  "requiresReason st \<longleftrightarrow> st = StatusSkipped \<or> st = StatusUnavailable"

text \<open>The error of one entry of a numbered list: \<open>kind[i] (name): problem\<close>.\<close>

definition entry_error :: "string \<Rightarrow> nat \<Rightarrow> string \<Rightarrow> msg_part list \<Rightarrow> gerror" where
  "entry_error kind i name problem =
     Errorf ([Lit kind, Lit ''['', Num (int i), Lit ''] ('', Lit name, Lit ''): ''] @ problem)"

definition secret_problem :: "string \<Rightarrow> msg_part list" where
  "secret_problem fld = [Lit fld, Lit '' contains an unredacted secret-shaped value'']"

definition reason_problem :: "Status \<Rightarrow> msg_part list" where
  "reason_problem st = [Lit ''reason is required when status is '', Quoted st]"

definition validateCommand :: "nat \<Rightarrow> CommandResult \<Rightarrow> gerror list" where
  "validateCommand i c =
     (if requiresReason (cr_Status c) \<and> TrimSpace (cr_Reason c) = ''''
      then [entry_error ''commands'' i (cr_Name c) (reason_problem (cr_Status c))] else []) @
     (if containsSecret (cr_Output c)
      then [entry_error ''commands'' i (cr_Name c) (secret_problem ''output'')] else []) @
     (if containsSecret (cr_Reason c)
      then [entry_error ''commands'' i (cr_Name c) (secret_problem ''reason'')] else []) @
     (if list_ex containsSecret (cr_Args c)
      then [entry_error ''commands'' i (cr_Name c) (secret_problem ''args'')] else [])"

definition validateVerification :: "nat \<Rightarrow> VerificationResult \<Rightarrow> gerror list" where
  "validateVerification i v =
     (if requiresReason (vr_Status v) \<and> TrimSpace (vr_Reason v) = ''''
      then [entry_error ''verification'' i (vr_Name v) (reason_problem (vr_Status v))] else []) @
     (if containsSecret (vr_Message v)
      then [entry_error ''verification'' i (vr_Name v) (secret_problem ''message'')] else []) @
     (if containsSecret (vr_Reason v)
      then [entry_error ''verification'' i (vr_Name v) (secret_problem ''reason'')] else [])"

definition validateApproval :: "nat \<Rightarrow> Approval \<Rightarrow> gerror list" where
  "validateApproval i a =
     (if containsSecret (ap_Notes a)
      then [entry_error ''approvals'' i (ap_Action a) (secret_problem ''notes'')] else [])"

definition indexed :: "(nat \<Rightarrow> 'a \<Rightarrow> 'b list) \<Rightarrow> 'a list \<Rightarrow> 'b list" where
  "indexed f xs = concat (map (\<lambda>(i, x). f i x) (enumerate 0 xs))"

definition required_error :: "bool \<Rightarrow> string \<Rightarrow> gerror list" where
  "required_error missing what = (if missing then [Sentinel (what @ '' is required'')] else [])"

definition envelope_Validate :: "Envelope \<Rightarrow> gerror option" where
  "envelope_Validate e = errors_Join_all (
     required_error (e_SchemaVersion e = '''') ''schema_version'' @
     required_error (rs_Path (e_Repository e) = '''') ''repository.path'' @
     required_error (rs_Commit (e_Repository e) = '''') ''repository.commit'' @
     required_error (e_CreatedAt e = 0) ''created_at'' @
     indexed validateCommand (e_Commands e) @
     indexed validateVerification (e_Verification e) @
     indexed validateApproval (e_Approvals e) @
     (case e_Rollback e of None \<Rightarrow> []
      | Some r \<Rightarrow> if containsSecret (rb_Notes r)
                  then [Errorf [Lit ''rollback: '', Lit ''notes contains an unredacted secret-shaped value'']]
                  else []))"


section \<open>Correctness\<close>

lemma indexed_Nil_iff: "indexed f xs = [] \<longleftrightarrow> (\<forall>i<length xs. f i (xs ! i) = [])"
proof -
  have "indexed f xs = [] \<longleftrightarrow> (\<forall>p \<in> set (enumerate 0 xs). f (fst p) (snd p) = [])"
    by (auto simp: indexed_def concat_eq_Nil_conv)
  also have "\<dots> \<longleftrightarrow> (\<forall>i<length xs. f i (xs ! i) = [])"
    by (auto simp: Ball_def in_set_enumerate_eq split_paired_All)
  finally show ?thesis .
qed

lemma redact_loop_unchanged:
  "\<forall>r \<in> set rs. \<not> MatchString r s \<Longrightarrow> redact_loop s b rs = (s, b)"
  by (induction rs) auto

lemma redact_loop_True: "snd (redact_loop s True rs)"
  by (induction rs arbitrary: s) auto

lemma redact_loop_changed: "snd (redact_loop s b rs) \<longleftrightarrow> b \<or> (\<exists>r \<in> set rs. MatchString r s)"
  by (induction rs arbitrary: b) (auto simp: redact_loop_True)

lemma containsSecret_iff: "containsSecret s \<longleftrightarrow> (\<exists>r \<in> set secretPatterns. MatchString r s)"
  by (simp add: containsSecret_def list_ex_iff)

lemma containsSecret_Nil [simp]: "\<not> containsSecret ''''"
  by code_simp

text \<open>Redaction reports a change exactly when the scan finds something, and leaves text the scan
  accepts alone.\<close>

lemma redactString_changed: "snd (redactString s) \<longleftrightarrow> containsSecret s"
  by (cases "s = ''''")
    (simp_all add: redactString_def redactWith_def redact_loop_changed containsSecret_iff [symmetric])

lemma redactString_clean: "\<not> containsSecret s \<Longrightarrow> redactString s = (s, False)"
  by (simp add: redactString_def redactWith_def redact_loop_unchanged containsSecret_iff)

text \<open>An envelope is accepted exactly when its required fields are present, every skipped or
  unavailable step gives a reason, and no free-text field matches a secret pattern.\<close>

definition clean_command :: "CommandResult \<Rightarrow> bool" where
  "clean_command c \<longleftrightarrow> (requiresReason (cr_Status c) \<longrightarrow> TrimSpace (cr_Reason c) \<noteq> '''') \<and>
     (\<forall>s \<in> set (cr_Output c # cr_Reason c # cr_Args c). \<not> containsSecret s)"

definition clean_verification :: "VerificationResult \<Rightarrow> bool" where
  "clean_verification v \<longleftrightarrow> (requiresReason (vr_Status v) \<longrightarrow> TrimSpace (vr_Reason v) \<noteq> '''') \<and>
     \<not> containsSecret (vr_Message v) \<and> \<not> containsSecret (vr_Reason v)"

lemma validateCommand_Nil [simp]: "validateCommand i c = [] \<longleftrightarrow> clean_command c"
  by (auto simp: validateCommand_def clean_command_def list_ex_iff)

lemma validateVerification_Nil [simp]: "validateVerification i v = [] \<longleftrightarrow> clean_verification v"
  by (auto simp: validateVerification_def clean_verification_def)

lemma validateApproval_Nil [simp]: "validateApproval i a = [] \<longleftrightarrow> \<not> containsSecret (ap_Notes a)"
  by (simp add: validateApproval_def)

lemma indexed_Nil_all: "(\<And>i x. f i x = [] \<longleftrightarrow> P x) \<Longrightarrow> indexed f xs = [] \<longleftrightarrow> (\<forall>x \<in> set xs. P x)"
  by (simp add: indexed_Nil_iff all_set_conv_all_nth)

lemma indexed_clean [simp]:
  "indexed validateCommand cs = [] \<longleftrightarrow> (\<forall>c \<in> set cs. clean_command c)"
  "indexed validateVerification vs = [] \<longleftrightarrow> (\<forall>v \<in> set vs. clean_verification v)"
  "indexed validateApproval as = [] \<longleftrightarrow> (\<forall>a \<in> set as. \<not> containsSecret (ap_Notes a))"
  by (rule indexed_Nil_all, simp)+

lemma required_error_Nil [simp]: "required_error b w = [] \<longleftrightarrow> \<not> b"
  by (simp add: required_error_def)

text \<open>\<open>Validate\<close> accepts an envelope exactly when the required fields are set, every
  skipped or unavailable command or verification step carries a reason that is not blank, and none
  of the free-text fields (command arguments, output and reason, verification message and reason,
  approval notes, rollback notes) matches a secret pattern.\<close>

theorem envelope_Validate_iff:
  "envelope_Validate e = None \<longleftrightarrow>
     e_SchemaVersion e \<noteq> '''' \<and> rs_Path (e_Repository e) \<noteq> '''' \<and>
     rs_Commit (e_Repository e) \<noteq> '''' \<and> e_CreatedAt e \<noteq> 0 \<and>
     list_all clean_command (e_Commands e) \<and>
     list_all clean_verification (e_Verification e) \<and>
     list_all (\<lambda>a. \<not> containsSecret (ap_Notes a)) (e_Approvals e) \<and>
     \<not> (case e_Rollback e of None \<Rightarrow> False | Some r \<Rightarrow> containsSecret (rb_Notes r))"
  by (auto simp: envelope_Validate_def list_all_iff split: option.splits)

text \<open>\<open>Redact\<close> changes nothing in an envelope that \<open>Validate\<close> accepts.\<close>

lemma Redact_valid:
  assumes "envelope_Validate e = None"
  shows "Redact e = e"
proof -
  have cmd: "redact_command c = c" if "clean_command c" for c
  proof -
    have "map (\<lambda>a. fst (redactString a)) (cr_Args c) = cr_Args c"
      using that by (intro map_idI) (simp add: clean_command_def redactString_clean)
    then show ?thesis using that by (simp add: clean_command_def redact_command_def redactString_clean)
  qed
  have ver: "redact_verification v = v" if "clean_verification v" for v
    using that by (simp add: clean_verification_def redact_verification_def redactString_clean)
  have "map redact_command (e_Commands e) = e_Commands e"
    using assms by (intro map_idI) (simp add: cmd envelope_Validate_def)
  moreover have "map redact_verification (e_Verification e) = e_Verification e"
    using assms by (intro map_idI) (simp add: ver envelope_Validate_def)
  moreover have "map redact_approval (e_Approvals e) = e_Approvals e"
    using assms
    by (intro map_idI) (simp add: redactString_clean redact_approval_def envelope_Validate_def)
  moreover have "map_option redact_rollback (e_Rollback e) = e_Rollback e"
    using assms by (cases "e_Rollback e")
      (simp_all add: envelope_Validate_def redact_rollback_def redactString_clean split: if_splits)
  ultimately show ?thesis by (simp add: Redact_def)
qed

text \<open>\<open>Redact\<close> can leave text behind that \<open>Validate\<close> still reports as an unredacted
  secret. On \<open>token:key = hunter2\<close> the generic assignment pattern cannot start at
  \<open>token:\<close>, whose value \<open>key\<close> is too short, and replaces \<open>key = hunter2\<close>; the
  marker then stands where the value of \<open>token:\<close> is expected, so the redacted text
  \<open>token:[REDACTED]\<close> matches again.\<close>

theorem Redact_then_Validate_fails:
  "redactString ''token:key = hunter2'' = (''token:[REDACTED]'', True) \<and>
   containsSecret (fst (redactString ''token:key = hunter2''))"
  by code_simp


end
