(* ===== verification/GoPath.thy ===== *)
theory GoPath
  imports Errors
begin

text \<open>
  The operations of Go's packages \<open>path\<close> and \<open>path/filepath\<close> (on Unix) that the modelled
  packages use: the glob matcher \<open>path.Match\<close>, and \<open>Clean\<close> on the components of a path.
  A glob is split into chunks at its stars, each chunk is parsed into items, and matching follows
  the library's strategy of retrying only the last star.
\<close>

section \<open>Globs\<close>

datatype glob_item =
    GLit char
  | GAny
  | GClass bool "(char \<times> char) list"

definition ErrBadPattern :: gerror where
  "ErrBadPattern = Sentinel ''syntax error in pattern''"

abbreviation (input) "BACKSLASH \<equiv> CHR 0x5C"

definition get_esc :: "string \<Rightarrow> (char \<times> string) option" where
  [go_defs]: "get_esc s = (case s of
     [] \<Rightarrow> None
   | c # cs \<Rightarrow>
     if c = CHR ''-'' \<or> c = CHR '']'' then None
     else if c = BACKSLASH then
       (case cs of [] \<Rightarrow> None | d # ds \<Rightarrow> if ds = [] then None else Some (d, ds))
     else if cs = [] then None else Some (c, cs))"

lemma get_esc_length: "get_esc s = Some (c, r) \<Longrightarrow> length r < length s"
  by (auto simp: get_esc_def split: list.splits if_splits)

function class_ranges :: "string \<Rightarrow> bool \<Rightarrow> ((char \<times> char) list \<times> string) option" where
  "class_ranges s started =
     (if started \<and> s \<noteq> [] \<and> hd s = CHR '']'' then Some ([], tl s)
      else case get_esc s of
        None \<Rightarrow> None
      | Some (lo, r) \<Rightarrow>
        (if r \<noteq> [] \<and> hd r = CHR ''-'' then
           (case get_esc (tl r) of
              None \<Rightarrow> None
            | Some (hi, r2) \<Rightarrow> map_option (\<lambda>(rs, t). ((lo, hi) # rs, t)) (class_ranges r2 True))
         else map_option (\<lambda>(rs, t). ((lo, lo) # rs, t)) (class_ranges r True)))"
  by pat_completeness auto
termination class_ranges
proof (relation "measure (\<lambda>(s, _). length s)", goal_cases)
  case (2 s started x2 lo r x2' hi r2)
  then have "length r < length s" and "length r2 < length (tl r)"
    by (auto dest: get_esc_length)
  then show ?case by simp
next
  case (3 s started x2 lo r)
  then show ?case by (auto dest: get_esc_length)
qed simp

declare class_ranges.simps [simp del]

lemma class_ranges_length: "class_ranges s b = Some (rs, t) \<Longrightarrow> length t < length s"
proof (induction s b arbitrary: rs t rule: class_ranges.induct)
  case (1 s b)
  show ?case
  proof (cases "b \<and> s \<noteq> [] \<and> hd s = CHR '']''")
    case True
    then show ?thesis using 1(3) by (cases s) (auto simp: class_ranges.simps [of _ True])
  next
    case False
    then obtain lo r where e: "get_esc s = Some (lo, r)"
      using 1 by (auto simp: class_ranges.simps [of s b] split: option.splits)
    note l = get_esc_length [OF e]
    show ?thesis
    proof (cases "r \<noteq> [] \<and> hd r = CHR ''-''")
      case True
      then obtain hi r2 where e2: "get_esc (tl r) = Some (hi, r2)"
        using 1 False e by (auto simp: class_ranges.simps [of s b] split: option.splits)
      then have "length r2 < length r" using get_esc_length [OF e2] by simp
      moreover obtain rs' where "class_ranges r2 True = Some (rs', t)"
        using 1 False e e2 True by (auto simp: class_ranges.simps [of s b] split: option.splits)
      then have "length t < length r2" using 1(1) [OF False e _ True e2] by simp
      ultimately show ?thesis using l by simp
    next
      case F2: False
      obtain rs' where "class_ranges r True = Some (rs', t)"
        using 1 False e F2 by (auto simp: class_ranges.simps [of s b] split: option.splits)
      then have "length t < length r" using 1(2) [OF False e _ F2] by simp
      then show ?thesis using l by simp
    qed
  qed
qed

text \<open>A chunk is a pattern without stars.\<close>

function glob_items :: "string \<Rightarrow> glob_item list option" where
  "glob_items s = (case s of
     [] \<Rightarrow> Some []
   | c # cs \<Rightarrow>
     if c = CHR ''['' then
       (let neg = (cs \<noteq> [] \<and> hd cs = CHR ''^'') in
        case class_ranges (if neg then tl cs else cs) False of
          None \<Rightarrow> None
        | Some (rs, t) \<Rightarrow> map_option (Cons (GClass neg rs)) (glob_items t))
     else if c = CHR ''?'' then map_option (Cons GAny) (glob_items cs)
     else if c = BACKSLASH then
       (case cs of [] \<Rightarrow> None | d # ds \<Rightarrow> map_option (Cons (GLit d)) (glob_items ds))
     else map_option (Cons (GLit c)) (glob_items cs))"
  by pat_completeness auto
termination glob_items
  by (relation "measure length")
    (auto dest!: class_ranges_length split: if_splits)

declare glob_items.simps [simp del]

fun item_matches :: "glob_item \<Rightarrow> char \<Rightarrow> bool" where
  "item_matches (GLit c) x = (c = x)"
| "item_matches GAny x = (x \<noteq> CHR ''/'')"
| "item_matches (GClass neg rs) x = (list_ex (\<lambda>(lo, hi). lo \<le> x \<and> x \<le> hi) rs \<noteq> neg)"

fun match_items :: "glob_item list \<Rightarrow> string \<Rightarrow> string option" where
  "match_items [] s = Some s"
| "match_items (i # is) [] = None"
| "match_items (i # is) (x # xs) = (if item_matches i x then match_items is xs else None)"

fun scan_body :: "string \<Rightarrow> bool \<Rightarrow> string \<times> string" where
  "scan_body [] inrange = ([], [])"
| "scan_body [c] inrange = (if c = CHR ''*'' \<and> \<not> inrange then ([], [c]) else ([c], []))"
| "scan_body (c # d # r) inrange =
     (if c = BACKSLASH then (case scan_body r inrange of (a, b) \<Rightarrow> (c # d # a, b))
      else if c = CHR ''*'' \<and> \<not> inrange then ([], c # d # r)
      else case scan_body (d # r)
             (if c = CHR ''['' then True else if c = CHR '']'' then False else inrange)
           of (a, b) \<Rightarrow> (c # a, b))"

lemma scan_body_append: "fst (scan_body s b) @ snd (scan_body s b) = s"
  by (induction s b rule: scan_body.induct) (auto split: prod.splits)

lemma scan_body_progress: "s \<noteq> [] \<Longrightarrow> hd s \<noteq> CHR ''*'' \<Longrightarrow> fst (scan_body s False) \<noteq> []"
  by (cases "(s, False)" rule: scan_body.cases) (auto split: prod.splits)

definition is_star :: "char \<Rightarrow> bool" where
  [go_defs]: "is_star c \<longleftrightarrow> c = CHR ''*''"

function glob_chunks :: "string \<Rightarrow> (bool \<times> string) list" where
  "glob_chunks s =
     (if s = [] then []
      else let b = dropWhile is_star s; c = scan_body b False
           in (is_star (hd s), fst c) # glob_chunks (snd c))"
  by pat_completeness auto
termination glob_chunks
proof (relation "measure length")
  fix s b c
  assume s: "s \<noteq> []" and b: "b = dropWhile is_star s" and c: "c = scan_body b False"
  have le: "length (fst c) + length (snd c) = length b"
    using scan_body_append [of b False] c by (metis length_append)
  have lb: "length b \<le> length s" unfolding b by (rule length_dropWhile_le)
  show "(snd c, s) \<in> measure length"
  proof (cases "is_star (hd s)")
    case True
    then have "length b < length s"
      using s unfolding b by (cases s) (auto simp: le_imp_less_Suc length_dropWhile_le)
    then show ?thesis using le by simp
  next
    case False
    then have "b = s" using s unfolding b by (cases s) auto
    then have "fst c \<noteq> []"
      using scan_body_progress [OF s] False c by (simp add: is_star_def)
    then show ?thesis using le lb by (cases "fst c") auto
  qed
qed simp

declare glob_chunks.simps [simp del]

fun parse_chunks :: "(bool \<times> string) list \<Rightarrow> (bool \<times> glob_item list) list option" where
  "parse_chunks [] = Some []"
| "parse_chunks ((star, s) # cs) =
     (case glob_items s of
        None \<Rightarrow> None
      | Some is \<Rightarrow> map_option (Cons (star, is)) (parse_chunks cs))"

fun skip_match :: "glob_item list \<Rightarrow> bool \<Rightarrow> string \<Rightarrow> string option" where
  "skip_match is final [] = None"
| "skip_match is final (c # cs) =
     (if c = CHR ''/'' then None
      else case match_items is cs of
             Some t \<Rightarrow> if final \<and> t \<noteq> [] then skip_match is final cs else Some t
           | None \<Rightarrow> skip_match is final cs)"

fun match_chunks :: "(bool \<times> glob_item list) list \<Rightarrow> string \<Rightarrow> bool" where
  "match_chunks [] name = (name = [])"
| "match_chunks ((star, is) # cs) name =
     (if star \<and> is = [] then CHR ''/'' \<notin> set name
      else case match_items is name of
             Some t \<Rightarrow>
               if t = [] \<or> cs \<noteq> [] then match_chunks cs t
               else if star then (case skip_match is (cs = []) name of None \<Rightarrow> False | Some t \<Rightarrow> match_chunks cs t)
               else False
           | None \<Rightarrow>
               if star then (case skip_match is (cs = []) name of None \<Rightarrow> False | Some t \<Rightarrow> match_chunks cs t)
               else False)"

text \<open>\<open>path.Match\<close>: every branch of the library checks the syntax of the whole pattern, so a
  malformed pattern is an error whatever the name is.\<close>

definition path_Match :: "string \<Rightarrow> string \<Rightarrow> bool result" where
  "path_Match pattern name =
     (case parse_chunks (glob_chunks pattern) of
        None \<Rightarrow> Inl ErrBadPattern
      | Some cs \<Rightarrow> Inr (match_chunks cs name))"

lemma path_Match_error: "path_Match p n = Inl e \<Longrightarrow> path_Match p n' = Inl e"
  by (simp add: path_Match_def split: option.splits)

text \<open>A pattern without meta characters matches exactly itself.\<close>

definition glob_meta :: "char \<Rightarrow> bool" where
  "glob_meta c \<longleftrightarrow> c \<in> {CHR ''*'', CHR ''?'', CHR ''['', BACKSLASH}"

lemma scan_body_literal: "list_all (\<lambda>c. \<not> glob_meta c) s \<Longrightarrow> scan_body s b = (s, [])"
  by (induction s b rule: scan_body.induct) (auto simp: glob_meta_def)

lemma glob_items_literal: "list_all (\<lambda>c. \<not> glob_meta c) s \<Longrightarrow> glob_items s = Some (map GLit s)"
  by (induction s) (auto simp: glob_items.simps glob_meta_def)

lemma match_items_literal: "match_items (map GLit s) n = (if take (length s) n = s then Some (drop (length s) n) else None)"
proof (induction s arbitrary: n)
  case (Cons c s)
  then show ?case by (cases n) auto
qed simp

lemma path_Match_literal:
  assumes "list_all (\<lambda>c. \<not> glob_meta c) p"
  shows "path_Match p n = Inr (n = p)"
proof (cases p)
  case Nil
  then show ?thesis by (simp add: path_Match_def glob_chunks.simps)
next
  case (Cons c cs)
  then have "\<not> is_star c" using assms by (simp add: glob_meta_def is_star_def)
  then have "glob_chunks p = [(False, p)]"
    using Cons scan_body_literal [OF assms, of False]
    by (simp add: glob_chunks.simps [of "c # cs"] glob_chunks.simps [of "[]"] Let_def)
  moreover have "match_chunks [(False, map GLit p)] n = (n = p)"
    by (auto simp: match_items_literal split: if_splits)
  ultimately show ?thesis
    by (simp add: path_Match_def glob_items_literal [OF assms])
qed


section \<open>Cleaning paths\<close>

text \<open>A path is handled by its components; \<open>clean_comps\<close> is the loop of \<open>filepath.Clean\<close> over
  them, with the components kept so far in reverse.\<close>

fun clean_comps :: "bool \<Rightarrow> string list \<Rightarrow> string list \<Rightarrow> string list" where
  "clean_comps rooted acc [] = rev acc"
| "clean_comps rooted acc (c # cs) =
     (if c = '''' \<or> c = ''.'' then clean_comps rooted acc cs
      else if c = ''..'' then
        (case acc of
           [] \<Rightarrow> clean_comps rooted (if rooted then [] else [c]) cs
         | a # as \<Rightarrow> if a = ''..'' then clean_comps rooted (c # acc) cs else clean_comps rooted as cs)
      else clean_comps rooted (c # acc) cs)"

definition IsAbs :: "string \<Rightarrow> bool" where
  [go_defs]: "IsAbs p = HasPrefix p ''/''"

definition Clean_comps :: "string \<Rightarrow> string list" where
  [go_defs]: "Clean_comps p = clean_comps (IsAbs p) [] (strings_Split p (CHR ''/''))"

definition filepath_Clean :: "string \<Rightarrow> string" where
  [go_defs]: "filepath_Clean p =
     (if IsAbs p then CHR ''/'' # strings_Join (Clean_comps p) ''/''
      else if Clean_comps p = [] then ''.'' else strings_Join (Clean_comps p) ''/'')"

definition filepath_Join :: "string list \<Rightarrow> string" where
  [go_defs]: "filepath_Join es = (case dropWhile (\<lambda>e. e = '''') es of
     [] \<Rightarrow> '''' | e # es' \<Rightarrow> filepath_Clean (strings_Join (e # es') ''/''))"

definition filepath_Dir :: "string \<Rightarrow> string" where
  [go_defs]: "filepath_Dir p = filepath_Clean (rev (dropWhile (\<lambda>c. c \<noteq> CHR ''/'') (rev p)))"

text \<open>After cleaning, \<open>..\<close> can only lead a relative path, and empty and \<open>.\<close> components are
  gone.\<close>

definition plain_comp :: "string \<Rightarrow> bool" where
  "plain_comp c \<longleftrightarrow> c \<noteq> '''' \<and> c \<noteq> ''.''"

lemma clean_comps_plain:
  "list_all plain_comp acc \<Longrightarrow> list_all plain_comp (clean_comps r acc cs)"
proof (induction r acc cs rule: clean_comps.induct)
  case (2 rooted acc c cs)
  show ?case
  proof (cases "c = ''..''")
    case True
    then show ?thesis
      using 2 by (cases acc; cases rooted) (simp_all add: plain_comp_def)
  qed (use 2 in \<open>simp add: plain_comp_def\<close>)
qed simp

definition dots_first :: "string list \<Rightarrow> bool" where
  "dots_first cs \<longleftrightarrow> (\<exists>n rest. cs = replicate n ''..'' @ rest \<and> ''..'' \<notin> set rest)"

lemma dots_first_snoc: "dots_first (rev acc) \<Longrightarrow> c \<noteq> ''..'' \<Longrightarrow> dots_first (rev (c # acc))"
  unfolding dots_first_def by force

lemma dots_first_butlast: "dots_first (rev (a # as)) \<Longrightarrow> dots_first (rev as)"
proof -
  assume "dots_first (rev (a # as))"
  then obtain n rest where e: "rev as @ [a] = replicate n ''..'' @ rest" "''..'' \<notin> set rest"
    by (auto simp: dots_first_def)
  show ?thesis
  proof (cases rest rule: rev_cases)
    case Nil
    then have "rev as = replicate (n - 1) ''..''"
      using e(1) by (cases n) (auto simp: replicate_append_same [symmetric])
    then show ?thesis unfolding dots_first_def by (intro exI [of _ "n - 1"] exI [of _ "[]"]) simp
  next
    case (snoc ys y)
    then have "rev as = replicate n ''..'' @ ys" using e(1) by simp
    then show ?thesis using e(2) snoc unfolding dots_first_def by auto
  qed
qed

lemma dots_first_dots: "dots_first (rev (''..'' # as)) \<Longrightarrow> dots_first (rev (''..'' # ''..'' # as))"
proof -
  assume "dots_first (rev (''..'' # as))"
  then obtain n rest where e: "rev as @ [''..''] = replicate n ''..'' @ rest" "''..'' \<notin> set rest"
    by (auto simp: dots_first_def)
  then have "rest = []" by (cases rest rule: rev_cases) auto
  then have "rev (''..'' # ''..'' # as) = replicate (Suc n) ''..'' @ []"
    using e by (simp add: replicate_append_same)
  then show ?thesis unfolding dots_first_def by (metis empty_iff list.set(1))
qed

lemma clean_comps_dots: "dots_first (rev acc) \<Longrightarrow> dots_first (clean_comps r acc cs)"
proof (induction r acc cs rule: clean_comps.induct)
  case (2 rooted acc c cs)
  show ?case
  proof (cases "c = ''..''")
    case True
    show ?thesis
    proof (cases acc)
      case Nil
      have "dots_first (rev [''..''])"
        unfolding dots_first_def by (intro exI [of _ 1] exI [of _ "[]"]) simp
      then show ?thesis using 2(2) 2(6) True Nil by (cases rooted) simp_all
    next
      case (Cons a as)
      show ?thesis
      proof (cases "a = ''..''")
        case True
        then show ?thesis
          using 2(3) dots_first_dots [of as] 2(6) Cons \<open>c = ''..''\<close> by simp
      next
        case False
        then show ?thesis
          using 2(4) dots_first_butlast [of a as] 2(6) Cons \<open>c = ''..''\<close> by simp
      qed
    qed
  next
    case False
    then show ?thesis using 2(1) 2(5) 2(6) dots_first_snoc [of acc c] by simp
  qed
qed simp

lemma Clean_comps_plain: "c \<in> set (Clean_comps p) \<Longrightarrow> c \<noteq> '''' \<and> c \<noteq> ''.''"
  using clean_comps_plain [of "[]" "IsAbs p" "strings_Split p (CHR ''/'')"]
  by (auto simp: list_all_iff plain_comp_def Clean_comps_def)

lemma Clean_comps_dots: "hd (Clean_comps p) \<noteq> ''..'' \<Longrightarrow> ''..'' \<notin> set (Clean_comps p)"
proof -
  have "dots_first (Clean_comps p)"
    unfolding Clean_comps_def by (rule clean_comps_dots) (simp add: dots_first_def)
  then obtain n rest where e: "Clean_comps p = replicate n ''..'' @ rest" "''..'' \<notin> set rest"
    unfolding dots_first_def by (elim exE conjE)
  assume "hd (Clean_comps p) \<noteq> ''..''"
  then have "n = 0" using e(1) by (cases n) simp_all
  then show ?thesis using e by simp
qed

end
