(* ===== verification/Contract.thy ===== *)
theory Contract
  imports Provenance GoPath
begin

text \<open>
  The repository contract of package \<open>contract\<close>: its records, loading, validation with the
  secret scan over its fields, and the text rendering. Parsing YAML is the work of a third-party
  package, so the parser is an argument of \<open>contract_Unmarshal\<close>; reading a file is the result of
  \<open>os.ReadFile\<close>, given as an argument of \<open>contract_Load\<close>.
\<close>

section \<open>The schema\<close>

record Project =
  pj_Name :: string
  pj_Path :: string
  pj_ModulePath :: string
  pj_Description :: string
  pj_CompositionRoots :: "string list"

record InstructionFile =
  if_Path :: string
  if_Priority :: int
  if_Notes :: string

record InstructionPrecedence =
  ip_Files :: "InstructionFile list"
  ip_Rule :: string

record Boundary =
  bd_Name :: string
  bd_Description :: string
  bd_Paths :: "string list"
  bd_Rule :: string

record CommandDecl =
  cd_Name :: string
  cd_Command :: string
  cd_Class :: CommandClass
  cd_Reason :: string

record CheckDecl =
  ck_Name :: string
  ck_Command :: string
  ck_Reason :: string
  ck_RequiredTool :: string
  ck_Networked :: bool

record VerificationDecl =
  vd_Focused :: "CheckDecl list"
  vd_Full :: "CheckDecl list"

record OptionalService =
  os_Name :: string
  os_Description :: string

record Contract =
  c_SchemaVersion :: string
  c_Projects :: "Project list"
  c_Instructions :: InstructionPrecedence
  c_Boundaries :: "Boundary list"
  c_Commands :: "CommandDecl list"
  c_Verification :: VerificationDecl
  c_ProtectedPaths :: "string list"
  c_GeneratedPaths :: "string list"
  c_RequiredTools :: "string list"
  c_OptionalServices :: "OptionalService list"
  c_RequiredCredentials :: "string list"
  c_HandoffFormat :: string

definition contract_FileName :: string where
  "contract_FileName = ''modulex.agent.yaml''"

definition validCommandClasses :: "CommandClass list" where
  "validCommandClasses =
     [ClassSafe, ClassMutating, ClassNetworked, ClassDestructive, ClassApprovalRequired]"

definition validCommandClassNames :: string where
  "validCommandClassNames = ''safe, mutating, networked, destructive, approval_required''"


section \<open>The secret scan\<close>

definition labelledSecretPatterns :: "(string \<times> re) list" where
  "labelledSecretPatterns =
     [(''AWS secret key'', awsSecretPattern),
      (''PEM private key'', pemPrivateKeyPattern),
      (''GitHub token'', githubTokenPattern),
      (''generic key/token/password/secret assignment'', genericAssignmentPattern),
      (''JWT-shaped value'', jwtPattern)]"

fun first_label :: "(string \<times> re) list \<Rightarrow> string \<Rightarrow> string option" where
  "first_label [] s = None"
| "first_label ((l, r) # ps) s = (if MatchString r s then Some l else first_label ps s)"

definition secretLabel :: "string \<Rightarrow> string option" where
  "secretLabel s = first_label labelledSecretPatterns s"

text \<open>A field of the scan: the path shown in the error, and its value. The closure
  \<open>add\<close> drops empty values.\<close>

type_synonym fieldValue = "string \<times> string"

definition add_field :: "string \<Rightarrow> string \<Rightarrow> fieldValue list" where
  "add_field path v = (if v = '''' then [] else [(path, v)])"

definition at :: "string \<Rightarrow> nat \<Rightarrow> string \<Rightarrow> string" where
  "at base i rest = base @ ''['' @ itoa i @ '']'' @ rest"

definition add_list :: "string \<Rightarrow> string list \<Rightarrow> fieldValue list" where
  "add_list base xs = indexed (\<lambda>i x. add_field (at base i '''') x) xs"

definition project_fields :: "nat \<Rightarrow> Project \<Rightarrow> fieldValue list" where
  "project_fields i p =
     add_field (at ''projects'' i ''.name'') (pj_Name p) @
     add_field (at ''projects'' i ''.path'') (pj_Path p) @
     add_field (at ''projects'' i ''.module_path'') (pj_ModulePath p) @
     add_field (at ''projects'' i ''.description'') (pj_Description p) @
     add_list (at ''projects'' i ''.composition_roots'') (pj_CompositionRoots p)"

definition instruction_fields :: "nat \<Rightarrow> InstructionFile \<Rightarrow> fieldValue list" where
  "instruction_fields i f =
     add_field (at ''instructions.files'' i ''.path'') (if_Path f) @
     add_field (at ''instructions.files'' i ''.notes'') (if_Notes f)"

definition boundary_fields :: "nat \<Rightarrow> Boundary \<Rightarrow> fieldValue list" where
  "boundary_fields i b =
     add_field (at ''boundaries'' i ''.name'') (bd_Name b) @
     add_field (at ''boundaries'' i ''.description'') (bd_Description b) @
     add_field (at ''boundaries'' i ''.rule'') (bd_Rule b) @
     add_list (at ''boundaries'' i ''.paths'') (bd_Paths b)"

definition command_fields :: "nat \<Rightarrow> CommandDecl \<Rightarrow> fieldValue list" where
  "command_fields i c =
     add_field (at ''commands'' i ''.name'') (cd_Name c) @
     add_field (at ''commands'' i ''.command'') (cd_Command c) @
     add_field (at ''commands'' i ''.reason'') (cd_Reason c)"

definition check_fields :: "string \<Rightarrow> nat \<Rightarrow> CheckDecl \<Rightarrow> fieldValue list" where
  "check_fields base i k =
     add_field (at base i ''.name'') (ck_Name k) @
     add_field (at base i ''.command'') (ck_Command k) @
     add_field (at base i ''.reason'') (ck_Reason k) @
     add_field (at base i ''.required_tool'') (ck_RequiredTool k)"

definition service_fields :: "nat \<Rightarrow> OptionalService \<Rightarrow> fieldValue list" where
  "service_fields i s =
     add_field (at ''optional_services'' i ''.name'') (os_Name s) @
     add_field (at ''optional_services'' i ''.description'') (os_Description s)"

definition fieldsForSecretScan :: "Contract \<Rightarrow> fieldValue list" where
  "fieldsForSecretScan c =
     indexed project_fields (c_Projects c) @
     add_field ''instructions.rule'' (ip_Rule (c_Instructions c)) @
     indexed instruction_fields (ip_Files (c_Instructions c)) @
     indexed boundary_fields (c_Boundaries c) @
     indexed command_fields (c_Commands c) @
     indexed (check_fields ''verification.focused'') (vd_Focused (c_Verification c)) @
     indexed (check_fields ''verification.full'') (vd_Full (c_Verification c)) @
     add_list ''protected_paths'' (c_ProtectedPaths c) @
     add_list ''generated_paths'' (c_GeneratedPaths c) @
     add_list ''required_tools'' (c_RequiredTools c) @
     add_list ''required_credentials'' (c_RequiredCredentials c) @
     indexed service_fields (c_OptionalServices c) @
     add_field ''handoff_format'' (c_HandoffFormat c)"

definition validateSecrets :: "Contract \<Rightarrow> gerror list" where
  "validateSecrets c = concat (map (\<lambda>(path, v).
     case secretLabel v of
       None \<Rightarrow> []
     | Some l \<Rightarrow> [Errorf [Lit path, Lit '': contains a value that looks like a secret ('', Lit l, Lit '')'']])
     (fieldsForSecretScan c))"


section \<open>Validation and loading\<close>

definition validate_project :: "nat \<Rightarrow> Project \<Rightarrow> gerror list" where
  "validate_project i p =
     (if TrimSpace (pj_Name p) = ''''
      then [Errorf [Lit ''projects['', Num (int i), Lit '']: name is required'']] else []) @
     (if TrimSpace (pj_Path p) = ''''
      then [Errorf [Lit ''projects['', Num (int i), Lit ''] ('', Quoted (pj_Name p), Lit ''): path is required'']]
      else [])"

definition validate_command_class :: "nat \<Rightarrow> CommandDecl \<Rightarrow> gerror list" where
  "validate_command_class i c =
     (if cd_Class c \<notin> set validCommandClasses
      then [Errorf [Lit ''commands['', Num (int i), Lit ''] ('', Quoted (cd_Name c),
              Lit ''): unknown command class '', Quoted (cd_Class c), Lit ''; must be one of: '',
              Lit validCommandClassNames]]
      else [])"

definition validate_protected_path :: "nat \<Rightarrow> string \<Rightarrow> gerror list" where
  "validate_protected_path i p = (case path_Match p '''' of
     Inl e \<Rightarrow> [Errorf [Lit ''protected_paths['', Num (int i), Lit ''] ('', Quoted p,
                 Lit ''): invalid glob pattern: '', Wrapped e]]
   | Inr _ \<Rightarrow> [])"

definition contract_Validate :: "Contract \<Rightarrow> gerror option" where
  "contract_Validate c = errors_Join_all (
     (if TrimSpace (c_SchemaVersion c) = '''' then [Sentinel ''schema_version is required''] else []) @
     (if c_Projects c = [] then [Sentinel ''projects: at least one project is required''] else []) @
     indexed validate_project (c_Projects c) @
     indexed validate_command_class (c_Commands c) @
     indexed validate_protected_path (c_ProtectedPaths c) @
     validateSecrets c)"

definition contract_Unmarshal :: "(string \<Rightarrow> Contract result) \<Rightarrow> string \<Rightarrow> Contract result" where
  "contract_Unmarshal yaml data = (case yaml data of
     Inl e \<Rightarrow> Inl (Errorf [Lit ''parsing '', Lit contract_FileName, Lit '': '', Wrapped e])
   | Inr c \<Rightarrow> Inr c)"

definition ErrNotExist :: gerror where
  "ErrNotExist = Sentinel ''file does not exist''"

text \<open>\<open>contract.Load\<close>: the contract, whether the file is present, and the error. The first
  argument after the parser is what reading the file returned.\<close>

definition contract_Load ::
    "(string \<Rightarrow> Contract result) \<Rightarrow> string result \<Rightarrow> Contract option \<times> bool \<times> gerror option" where
  "contract_Load yaml readFile = (case readFile of
     Inl e \<Rightarrow>
       if errors_is e ErrNotExist then (None, False, None)
       else (None, False, Some (Errorf [Lit ''reading '', Lit contract_FileName, Lit '': '', Wrapped e]))
   | Inr data \<Rightarrow>
       (case contract_Unmarshal yaml data of
          Inl e \<Rightarrow> (None, True, Some e)
        | Inr c \<Rightarrow> (Some c, True, None)))"


section \<open>Rendering\<close>

text \<open>The dash of the rendering, in its UTF-8 bytes.\<close>

definition em_dash :: string where
  "em_dash = [CHR '' '', CHR 0xE2, CHR 0x80, CHR 0x94, CHR '' '']"

definition nl :: string where "nl = [CHR 0x0A]"

definition optional :: "string \<Rightarrow> string \<Rightarrow> string \<Rightarrow> string" where
  "optional pre v post = (if v = '''' then '''' else pre @ v @ post)"

definition renderNameList :: "string \<Rightarrow> string list \<Rightarrow> string" where
  "renderNameList label names =
     (if names = [] then '''' else label @ '': '' @ strings_Join names '', '' @ nl @ nl)"

definition renderPathList :: "string \<Rightarrow> string list \<Rightarrow> string" where
  "renderPathList title paths =
     (if paths = [] then ''''
      else title @ nl @ concat (map (\<lambda>p. ''  - '' @ p @ nl) paths) @ nl)"

definition renderProject :: "Project \<Rightarrow> string" where
  "renderProject p =
     ''  - '' @ pj_Name p @ '' ('' @ pj_Path p @ '')'' @
     optional '' [module: '' (pj_ModulePath p) '']'' @ nl @
     optional ''      '' (pj_Description p) nl @
     concat (map (\<lambda>r. ''      composition root: '' @ r @ nl) (pj_CompositionRoots p))"

definition renderProjects :: "Project list \<Rightarrow> string" where
  "renderProjects ps =
     (if ps = [] then '''' else ''Projects:'' @ nl @ concat (map renderProject ps) @ nl)"

definition renderInstructionFile :: "InstructionFile \<Rightarrow> string" where
  "renderInstructionFile f =
     ''  '' @ int_text (if_Priority f) @ ''. '' @ if_Path f @ optional em_dash (if_Notes f) '''' @ nl"

definition renderInstructions :: "InstructionPrecedence \<Rightarrow> string" where
  "renderInstructions ip =
     (if ip_Files ip = [] then ''''
      else ''Instruction files (precedence order):'' @ nl @
           concat (map renderInstructionFile (ip_Files ip)) @
           optional ''  precedence rule: '' (ip_Rule ip) nl @ nl)"

definition renderBoundaries :: "Boundary list \<Rightarrow> string" where
  "renderBoundaries bs =
     (if bs = [] then ''''
      else ''Boundaries:'' @ nl @
           concat (map (\<lambda>b. ''  - '' @ bd_Name b @ optional '': '' (bd_Rule b) '''' @ nl) bs) @ nl)"

definition renderCommands :: "CommandDecl list \<Rightarrow> string" where
  "renderCommands cs =
     (if cs = [] then ''''
      else ''Commands:'' @ nl @
           concat (map (\<lambda>c. ''  ['' @ map to_upper (cd_Class c) @ ''] '' @ cd_Name c @ '' ('' @ cd_Command c @ '')'' @
                            optional em_dash (cd_Reason c) '''' @ nl) cs) @ nl)"

definition renderVerification :: "VerificationDecl \<Rightarrow> string" where
  "renderVerification v =
     (if vd_Focused v = [] \<and> vd_Full v = [] then ''''
      else ''Verification:'' @ nl @
           concat (map (\<lambda>k. ''  focused: '' @ ck_Name k @ '' ('' @ ck_Command k @ '')'' @ nl) (vd_Focused v)) @
           concat (map (\<lambda>k. ''  full: '' @ ck_Name k @ '' ('' @ ck_Command k @ '')'' @ nl) (vd_Full v)) @ nl)"

definition renderServices :: "OptionalService list \<Rightarrow> string" where
  "renderServices ss =
     (if ss = [] then ''''
      else ''Optional services:'' @ nl @
           concat (map (\<lambda>s. ''  - '' @ os_Name s @ optional '': '' (os_Description s) '''' @ nl) ss) @ nl)"

definition contract_RenderText :: "Contract \<Rightarrow> string" where
  "contract_RenderText c =
     ''Modulex Agent Contract (schema '' @ c_SchemaVersion c @ '')'' @ nl @ nl @
     renderProjects (c_Projects c) @
     renderInstructions (c_Instructions c) @
     renderBoundaries (c_Boundaries c) @
     renderCommands (c_Commands c) @
     renderVerification (c_Verification c) @
     renderPathList ''Protected paths (require explicit human approval to modify):'' (c_ProtectedPaths c) @
     renderPathList ''Generated paths (do not hand-edit):'' (c_GeneratedPaths c) @
     renderNameList ''Required tools'' (c_RequiredTools c) @
     renderServices (c_OptionalServices c) @
     renderNameList ''Required credentials (names only, no values)'' (c_RequiredCredentials c) @
     optional ''Handoff format: '' (c_HandoffFormat c) nl"


section \<open>Correctness\<close>

lemma list_all_indexed:
  assumes "\<And>i x. list_all P (f i x) \<longleftrightarrow> Q x"
  shows "list_all P (indexed f xs) \<longleftrightarrow> list_all Q xs"
proof -
  have "list_all P (indexed f xs) \<longleftrightarrow> (\<forall>p \<in> set (enumerate 0 xs). Q (snd p))"
    by (simp add: indexed_def list_all_iff [of _ "concat _"] Ball_def [symmetric] split_beta)
      (simp add: assms [unfolded list_all_iff])
  also have "\<dots> \<longleftrightarrow> (\<forall>x \<in> snd ` set (enumerate 0 xs). Q x)" by simp
  also have "snd ` set (enumerate 0 xs) = set xs"
    by (metis list.set_map map_snd_enumerate)
  finally show ?thesis by (simp add: list_all_iff)
qed



definition clean_text :: "string \<Rightarrow> bool" where
  "clean_text s \<longleftrightarrow> \<not> containsSecret s"

abbreviation "clean_field \<equiv> (\<lambda>(path, v). clean_text v)"

lemma clean_text_Nil [simp]: "clean_text ''''"
  by (simp add: clean_text_def)


lemma clean_add_field [simp]: "list_all clean_field (add_field p v) \<longleftrightarrow> clean_text v"
  by (simp add: add_field_def)

lemma clean_add_list [simp]: "list_all clean_field (add_list p vs) \<longleftrightarrow> list_all clean_text vs"
  unfolding add_list_def by (rule list_all_indexed) simp







lemma indexed_validate [simp]:
  "indexed validate_project ps = [] \<longleftrightarrow>
     (\<forall>p \<in> set ps. TrimSpace (pj_Name p) \<noteq> '''' \<and> TrimSpace (pj_Path p) \<noteq> '''')"
  "indexed validate_command_class cs = [] \<longleftrightarrow> (\<forall>c \<in> set cs. cd_Class c \<in> set validCommandClasses)"
  "indexed validate_protected_path gs = [] \<longleftrightarrow> (\<forall>g \<in> set gs. \<not> isl (path_Match g ''''))"
  by (rule indexed_Nil_all, simp add: validate_project_def validate_command_class_def
      validate_protected_path_def isl_def split: sum.splits)+


definition ex_contract :: Contract where
  "ex_contract = \<lparr>
     c_SchemaVersion = ''1.0.0'',
     c_Projects = [\<lparr>pj_Name = ''m'', pj_Path = ''.'', pj_ModulePath = '''', pj_Description = '''',
                    pj_CompositionRoots = []\<rparr>],
     c_Instructions = \<lparr>ip_Files = [], ip_Rule = ''''\<rparr>,
     c_Boundaries = [], c_Commands = [], c_Verification = \<lparr>vd_Focused = [], vd_Full = []\<rparr>,
     c_ProtectedPaths = [], c_GeneratedPaths = [], c_RequiredTools = [], c_OptionalServices = [],
     c_RequiredCredentials = [], c_HandoffFormat = ''''\<rparr>"

text \<open>The schema version escapes the secret scan: a contract whose \<open>schema_version\<close> is
  a GitHub token is accepted, although every other place of the same value is refused.\<close>

theorem schema_version_not_scanned:
  "contract_Validate (ex_contract\<lparr>c_SchemaVersion := ''ghp_0123456789abcdefghij''\<rparr>) = None \<and>
   contract_Validate (ex_contract\<lparr>c_HandoffFormat := ''ghp_0123456789abcdefghij''\<rparr>) \<noteq> None"
  by code_simp

text \<open>The rendered list of instruction files keeps the order of the document, not the order of
  the priorities its heading announces: a file of priority 1 can be printed after a file of
  priority 2.\<close>

theorem renderInstructions_document_order:
  "renderInstructions \<lparr>ip_Files = [\<lparr>if_Path = ''B.md'', if_Priority = 2, if_Notes = ''''\<rparr>,
                                    \<lparr>if_Path = ''A.md'', if_Priority = 1, if_Notes = ''''\<rparr>],
                       ip_Rule = ''''\<rparr> =
     ''Instruction files (precedence order):'' @ nl @ ''  2. B.md'' @ nl @ ''  1. A.md'' @ nl @ nl"
  by code_simp

end
