(* ===== verification/FileSystem.thy ===== *)
theory FileSystem
  imports Contract
begin

text \<open>
  The Unix file system behind package \<open>os\<close>, as far as \<open>patchapply\<close> uses it: files with content
  and permission bits, directories and symbolic links, keyed by the components of cleaned absolute
  paths; the root is the empty list and always a directory. Every system call first consults a
  list of faults, so a run of the program is a run for one choice of which calls fail with an
  input/output error. \<open>os.CreateTemp\<close> picks a name that is in use nowhere.
\<close>

type_synonym path = "string list"

datatype node =
    File string nat
  | Dir
  | Link path

type_synonym fs = "(path \<times> node) list"

record world =
  fs :: fs
  faults :: "bool list"

definition EIO :: gerror where "EIO = Sentinel ''input/output error''"
definition ENOTDIR :: gerror where "ENOTDIR = Sentinel ''not a directory''"
definition EISDIR :: gerror where "EISDIR = Sentinel ''is a directory''"
definition ENOTEMPTY :: gerror where "ENOTEMPTY = Sentinel ''directory not empty''"
definition EEXIST :: gerror where "EEXIST = Sentinel ''file exists''"
definition ELOOP :: gerror where "ELOOP = Sentinel ''too many links''"

lemmas errno_defs = EIO_def ENOTDIR_def EISDIR_def ENOTEMPTY_def EEXIST_def ELOOP_def ErrNotExist_def

definition IsNotExist :: "gerror \<Rightarrow> bool" where
  "IsNotExist e = errors_is e ErrNotExist"

definition lookup :: "fs \<Rightarrow> path \<Rightarrow> node option" where
  "lookup f p = (if p = [] then Some Dir else map_of f p)"


section \<open>Resolving links\<close>

fun eval_links :: "fs \<Rightarrow> nat \<Rightarrow> path \<Rightarrow> string list \<Rightarrow> path result" where
  "eval_links f n cur [] = Inr cur"
| "eval_links f n cur (c # cs) =
     (case lookup f (cur @ [c]) of
        None \<Rightarrow> Inl ErrNotExist
      | Some (File _ _) \<Rightarrow> if cs = [] then Inr (cur @ [c]) else Inl ENOTDIR
      | Some Dir \<Rightarrow> eval_links f n (cur @ [c]) cs
      | Some (Link t) \<Rightarrow> (case n of 0 \<Rightarrow> Inl ELOOP | Suc m \<Rightarrow> eval_links f m [] (t @ cs)))"

definition real_path :: "fs \<Rightarrow> path \<Rightarrow> path result" where
  "real_path f p = eval_links f 255 [] p"

text \<open>Where a directory entry lives: the parent is resolved, the last component is not.\<close>

definition entry_path :: "fs \<Rightarrow> path \<Rightarrow> path result" where
  "entry_path f p = (case real_path f (butlast p) of
     Inl e \<Rightarrow> Inl e
   | Inr d \<Rightarrow> if lookup f d = Some Dir then Inr (d @ [last p]) else Inl ENOTDIR)"


section \<open>System calls\<close>

definition with_fault :: "(fs \<Rightarrow> 'a result \<times> fs) \<Rightarrow> world \<Rightarrow> 'a result \<times> world" where
  "with_fault f w = (case faults w of
     True # bs \<Rightarrow> (Inl EIO, w\<lparr>faults := bs\<rparr>)
   | bs \<Rightarrow> (case f (fs w) of (r, f') \<Rightarrow> (r, w\<lparr>fs := f', faults := tl bs\<rparr>)))"

definition os_EvalSymlinks :: "path \<Rightarrow> world \<Rightarrow> path result \<times> world" where
  "os_EvalSymlinks p = with_fault (\<lambda>f. (real_path f p, f))"

definition fs_stat :: "fs \<Rightarrow> path \<Rightarrow> node result" where
  "fs_stat f p = (case real_path f p of
     Inl e \<Rightarrow> Inl e
   | Inr q \<Rightarrow> (case lookup f q of None \<Rightarrow> Inl ErrNotExist | Some nd \<Rightarrow> Inr nd))"

definition os_Stat :: "path \<Rightarrow> world \<Rightarrow> node result \<times> world" where
  "os_Stat p = with_fault (\<lambda>f. (fs_stat f p, f))"

definition os_ReadFile :: "path \<Rightarrow> world \<Rightarrow> string result \<times> world" where
  "os_ReadFile p = with_fault (\<lambda>f. (case fs_stat f p of
     Inl e \<Rightarrow> Inl e | Inr (File c m) \<Rightarrow> Inr c | Inr _ \<Rightarrow> Inl EISDIR, f))"

definition children :: "fs \<Rightarrow> path \<Rightarrow> path list" where
  "children f p = filter (\<lambda>q. q \<noteq> [] \<and> butlast q = p) (map fst f)"

definition fs_remove :: "path \<Rightarrow> fs \<Rightarrow> unit result \<times> fs" where
  "fs_remove p f =
     (if p = [] then (Inl EISDIR, f)
      else case entry_path f p of
        Inl e \<Rightarrow> (Inl e, f)
      | Inr q \<Rightarrow> (case lookup f q of
          None \<Rightarrow> (Inl ErrNotExist, f)
        | Some Dir \<Rightarrow> if children f q \<noteq> [] then (Inl ENOTEMPTY, f) else (Inr (), AList.delete q f)
        | Some _ \<Rightarrow> (Inr (), AList.delete q f)))"

definition os_Remove :: "path \<Rightarrow> world \<Rightarrow> unit result \<times> world" where
  "os_Remove p = with_fault (fs_remove p)"

definition tmp_prefix :: string where
  "tmp_prefix = ''.patchapply-tmp-''"

definition fresh_name :: "fs \<Rightarrow> string" where
  "fresh_name f = tmp_prefix @ replicate (Suc (sum_list (map length (concat (map fst f))))) (CHR ''0'')"

definition os_CreateTemp :: "path \<Rightarrow> world \<Rightarrow> path result \<times> world" where
  "os_CreateTemp d = with_fault (\<lambda>f.
     let p = d @ [fresh_name f] in
     case entry_path f p of
       Inl e \<Rightarrow> (Inl e, f)
     | Inr q \<Rightarrow> (Inr p, AList.update q (File '''' 384) f))"

text \<open>Writing to the open temporary file, and changing its mode (384 is 0600).\<close>

definition fs_modify :: "path \<Rightarrow> (string \<Rightarrow> nat \<Rightarrow> node) \<Rightarrow> fs \<Rightarrow> unit result \<times> fs" where
  "fs_modify p g f = (case entry_path f p of
     Inl e \<Rightarrow> (Inl e, f)
   | Inr q \<Rightarrow> (case lookup f q of
       Some (File c m) \<Rightarrow> (Inr (), AList.update q (g c m) f)
     | _ \<Rightarrow> (Inl ErrNotExist, f)))"

definition os_Write :: "path \<Rightarrow> string \<Rightarrow> world \<Rightarrow> unit result \<times> world" where
  "os_Write p content = with_fault (fs_modify p (\<lambda>_ m. File content m))"

definition os_Close :: "world \<Rightarrow> unit result \<times> world" where
  "os_Close = with_fault (\<lambda>f. (Inr (), f))"

definition os_Chmod :: "path \<Rightarrow> nat \<Rightarrow> world \<Rightarrow> unit result \<times> world" where
  "os_Chmod p mode = with_fault (fs_modify p (\<lambda>c _. File c mode))"

definition fs_rename :: "path \<Rightarrow> path \<Rightarrow> fs \<Rightarrow> unit result \<times> fs" where
  "fs_rename old new f = (case (entry_path f old, entry_path f new) of
     (Inl e, _) \<Rightarrow> (Inl e, f)
   | (_, Inl e) \<Rightarrow> (Inl e, f)
   | (Inr p, Inr q) \<Rightarrow> (case lookup f p of
       None \<Rightarrow> (Inl ErrNotExist, f)
     | Some nd \<Rightarrow> if lookup f q = Some Dir then (Inl EEXIST, f)
                   else (Inr (), AList.update q nd (AList.delete p f))))"

definition os_Rename :: "path \<Rightarrow> path \<Rightarrow> world \<Rightarrow> unit result \<times> world" where
  "os_Rename old new = with_fault (fs_rename old new)"

definition os_Mkdir :: "path \<Rightarrow> world \<Rightarrow> unit result \<times> world" where
  "os_Mkdir p = with_fault (\<lambda>f. case entry_path f p of
     Inl e \<Rightarrow> (Inl e, f)
   | Inr q \<Rightarrow> if lookup f q \<noteq> None then (Inl EEXIST, f) else (Inr (), AList.update q Dir f))"

text \<open>\<open>os.MkdirAll\<close> creates the missing directories one by one from the top.\<close>

fun os_MkdirAll :: "path \<Rightarrow> string list \<Rightarrow> world \<Rightarrow> unit result \<times> world" where
  "os_MkdirAll p [] w = (Inr (), w)"
| "os_MkdirAll p (c # cs) w =
     (case fs_stat (fs w) (p @ [c]) of
        Inr Dir \<Rightarrow> os_MkdirAll (p @ [c]) cs w
      | Inr _ \<Rightarrow> (Inl ENOTDIR, w)
      | Inl _ \<Rightarrow> (case os_Mkdir (p @ [c]) w of
          (Inl e, w1) \<Rightarrow> (Inl e, w1)
        | (Inr _, w1) \<Rightarrow> os_MkdirAll (p @ [c]) cs w1))"

definition os_ReadDir :: "path \<Rightarrow> world \<Rightarrow> path list result \<times> world" where
  "os_ReadDir p = with_fault (\<lambda>f. (case real_path f p of
     Inl e \<Rightarrow> Inl e
   | Inr q \<Rightarrow> if lookup f q = Some Dir then Inr (children f q) else Inl ENOTDIR, f))"


section \<open>What the calls do to files\<close>

definition file_at :: "fs \<Rightarrow> path \<Rightarrow> (string \<times> nat) option" where
  "file_at f p = (case lookup f p of Some (File c m) \<Rightarrow> Some (c, m) | _ \<Rightarrow> None)"

definition is_temp :: "path \<Rightarrow> bool" where
  "is_temp p \<longleftrightarrow> p \<noteq> [] \<and> HasPrefix (last p) tmp_prefix"

text \<open>Two file systems hold the same files outside the paths \<open>P\<close>, leftover temporary files
  aside.\<close>

definition same_except :: "path set \<Rightarrow> fs \<Rightarrow> fs \<Rightarrow> bool" where
  "same_except P f f' \<longleftrightarrow> (\<forall>p. p \<notin> P \<longrightarrow> \<not> is_temp p \<longrightarrow> file_at f' p = file_at f p)"

lemma same_exceptI: "(\<And>p. p \<notin> P \<Longrightarrow> \<not> is_temp p \<Longrightarrow> file_at f' p = file_at f p) \<Longrightarrow> same_except P f f'"
  by (simp add: same_except_def)

lemma same_exceptD: "same_except P f f' \<Longrightarrow> p \<notin> P \<Longrightarrow> \<not> is_temp p \<Longrightarrow> file_at f' p = file_at f p"
  by (simp add: same_except_def)

lemma same_refl [simp]: "same_except P f f"
  by (simp add: same_except_def)

lemma same_trans: "same_except P f g \<Longrightarrow> same_except Q g h \<Longrightarrow> same_except (P \<union> Q) f h"
  by (simp add: same_except_def)

lemma same_mono: "same_except P f g \<Longrightarrow> P \<subseteq> Q \<Longrightarrow> same_except Q f g"
  by (auto simp: same_except_def)

text \<open>A plain file system: no symbolic links, and every entry lies in a directory.\<close>

definition plain :: "fs \<Rightarrow> bool" where
  "plain f \<longleftrightarrow> (\<forall>p t. lookup f p \<noteq> Some (Link t)) \<and>
     (\<forall>p. p \<noteq> [] \<longrightarrow> lookup f p \<noteq> None \<longrightarrow> lookup f (butlast p) = Some Dir)"

lemma plain_no_link: "plain f \<Longrightarrow> lookup f p \<noteq> Some (Link t)"
  by (simp add: plain_def)

lemma plain_parent: "plain f \<Longrightarrow> lookup f p \<noteq> None \<Longrightarrow> p \<noteq> [] \<Longrightarrow> lookup f (butlast p) = Some Dir"
  by (simp add: plain_def)

lemma plainI:
  "list_all (\<lambda>(p, nd). (case nd of Link _ \<Rightarrow> False | _ \<Rightarrow> True) \<and> lookup f (butlast p) = Some Dir) f \<Longrightarrow> plain f"
  by (auto simp: plain_def list_all_iff lookup_def [of f] dest!: map_of_SomeD split: if_splits)

lemma plain_ancestor: "plain f \<Longrightarrow> lookup f (p @ q) \<noteq> None \<Longrightarrow> q \<noteq> [] \<Longrightarrow> lookup f p = Some Dir"
proof (induction q rule: rev_induct)
  case (snoc c q)
  have "lookup f (p @ q) = Some Dir"
    using plain_parent [OF snoc.prems(1,2)] by (simp add: butlast_append)
  then show ?case using snoc by (cases "q = []") auto
qed simp

lemma eval_plain: "plain f \<Longrightarrow> eval_links f n cur cs = Inr q \<Longrightarrow> q = cur @ cs"
proof (induction f n cur cs rule: eval_links.induct)
  case (2 f n cur c cs)
  then show ?case
    using plain_no_link [OF 2(3)] by (auto split: option.splits node.splits if_splits)
qed simp

lemma eval_plain_exists: "plain f \<Longrightarrow> lookup f (cur @ cs) \<noteq> None \<Longrightarrow> eval_links f n cur cs = Inr (cur @ cs)"
proof (induction f n cur cs rule: eval_links.induct)
  case (2 f n cur c cs)
  show ?case
  proof (cases "cs = []")
    case True
    then show ?thesis
      using 2 plain_no_link [OF 2(3)] by (auto split: option.splits node.splits)
  next
    case False
    then have "lookup f (cur @ [c]) = Some Dir"
      using plain_ancestor [OF 2(3), of "cur @ [c]" cs] 2(4) by simp
    then show ?thesis using 2 by simp
  qed
qed simp

lemma real_path_plain: "plain f \<Longrightarrow> real_path f p = Inr q \<Longrightarrow> q = p"
  unfolding real_path_def using eval_plain by fastforce

lemma real_path_exists: "plain f \<Longrightarrow> lookup f p \<noteq> None \<Longrightarrow> real_path f p = Inr p"
  unfolding real_path_def using eval_plain_exists [of f "[]" p] by simp

lemma entry_path_plain: "plain f \<Longrightarrow> entry_path f p = Inr q \<Longrightarrow> p \<noteq> [] \<Longrightarrow> q = p \<and> lookup f (butlast p) = Some Dir"
  by (auto simp: entry_path_def dest: real_path_plain split: sum.splits if_splits)

lemma entry_path_exists: "plain f \<Longrightarrow> lookup f p \<noteq> None \<Longrightarrow> p \<noteq> [] \<Longrightarrow> entry_path f p = Inr p"
  using plain_parent [of f p] real_path_exists [of f "butlast p"] by (simp add: entry_path_def)

lemma lookup_update [simp]: "q \<noteq> [] \<Longrightarrow> lookup (AList.update q nd f) = (lookup f)(q \<mapsto> nd)"
  by (rule ext) (simp add: lookup_def)

lemma lookup_delete [simp]: "q \<noteq> [] \<Longrightarrow> lookup (AList.delete q f) = (lookup f)(q := None)"
  by (rule ext) (simp add: lookup_def)

lemma lookup_Nil [simp]: "lookup f [] = Some Dir"
  by (simp add: lookup_def)

lemma plain_update:
  assumes "plain f" "q \<noteq> []" "lookup f (butlast q) = Some Dir" "lookup f q \<noteq> Some Dir" "\<And>t. nd \<noteq> Link t"
  shows "plain (AList.update q nd f)"
  unfolding plain_def
proof (intro conjI allI impI)
  fix p t
  show "lookup (AList.update q nd f) p \<noteq> Some (Link t)"
    using assms plain_no_link [OF assms(1)] by simp
next
  fix p :: path
  assume p: "p \<noteq> []" "lookup (AList.update q nd f) p \<noteq> None"
  have "lookup f (butlast p) = Some Dir"
    using p assms(2,3) plain_parent [OF assms(1), of p] by (cases "p = q") auto
  moreover from this have "butlast p \<noteq> q" using assms(4) by auto
  ultimately show "lookup (AList.update q nd f) (butlast p) = Some Dir" using assms(2) by simp
qed

lemma children_lookup: "lookup f q \<noteq> None \<Longrightarrow> q \<noteq> [] \<Longrightarrow> q \<in> set (children f (butlast q))"
  by (auto simp: children_def lookup_def image_iff dest!: map_of_SomeD intro!: bexI)

lemma plain_delete:
  assumes "plain f" "q \<noteq> []" "lookup f q = Some Dir \<Longrightarrow> children f q = []"
  shows "plain (AList.delete q f)"
  unfolding plain_def
proof (intro conjI allI impI)
  fix p t
  show "lookup (AList.delete q f) p \<noteq> Some (Link t)"
    using assms plain_no_link [OF assms(1)] by simp
next
  fix p :: path
  assume p: "p \<noteq> []" "lookup (AList.delete q f) p \<noteq> None"
  then have pf: "lookup f p \<noteq> None" using assms(2) by (simp split: if_splits)
  then have d: "lookup f (butlast p) = Some Dir" using p(1) plain_parent [OF assms(1)] by blast
  then have "butlast p \<noteq> q"
    using assms(3) children_lookup [OF pf p(1)] by auto
  then show "lookup (AList.delete q f) (butlast p) = Some Dir" using assms(2) d by simp
qed

text \<open>A call without a fault is its effect on the file system; a fault changes nothing.\<close>

lemma with_fault_cases:
  assumes "with_fault f w = (r, w')"
  obtains "r = Inl EIO" "fs w' = fs w" | "f (fs w) = (r, fs w')"
  using assms by (auto simp: with_fault_def split: list.splits bool.splits prod.splits)

lemma with_fault_read:
  assumes "with_fault (\<lambda>f. (g f, f)) w = (r, w')"
  shows "fs w' = fs w \<and> (r = Inl EIO \<or> r = g (fs w))"
  using assms by (rule with_fault_cases) auto

lemmas read_calls = os_EvalSymlinks_def os_Stat_def os_ReadFile_def os_ReadDir_def os_Close_def

text \<open>\<open>touches P w w'\<close>: a computation keeps the file system plain and changes files at most at the
  paths \<open>P\<close>, temporary files aside.\<close>

definition touches :: "path set \<Rightarrow> world \<Rightarrow> world \<Rightarrow> bool" where
  "touches P w w' \<longleftrightarrow> (plain (fs w) \<longrightarrow> plain (fs w') \<and> same_except P (fs w) (fs w'))"

lemma touchesI:
  "(plain (fs w) \<Longrightarrow> plain (fs w')) \<Longrightarrow>
   (\<And>p. plain (fs w) \<Longrightarrow> p \<notin> P \<Longrightarrow> \<not> is_temp p \<Longrightarrow> file_at (fs w') p = file_at (fs w) p) \<Longrightarrow> touches P w w'"
  by (simp add: touches_def same_except_def)

lemma touches_plain: "touches P w w' \<Longrightarrow> plain (fs w) \<Longrightarrow> plain (fs w')"
  by (simp add: touches_def)

lemma touches_file:
  "touches P w w' \<Longrightarrow> plain (fs w) \<Longrightarrow> p \<notin> P \<Longrightarrow> \<not> is_temp p \<Longrightarrow> file_at (fs w') p = file_at (fs w) p"
  by (simp add: touches_def same_except_def)

lemma touches_refl [simp]: "fs w' = fs w \<Longrightarrow> touches P w w'"
  by (simp add: touches_def)

lemma touches_trans: "touches P w w1 \<Longrightarrow> touches Q w1 w2 \<Longrightarrow> touches (P \<union> Q) w w2"
  by (auto simp: touches_def intro: same_trans)

lemma touches_mono: "touches P w w' \<Longrightarrow> P \<subseteq> Q \<Longrightarrow> touches Q w w'"
  by (auto simp: touches_def intro: same_mono)

lemma touches_seq: "touches P w w1 \<Longrightarrow> touches P w1 w2 \<Longrightarrow> touches P w w2"
  using touches_trans [of P w w1 P w2] by simp

lemma touches_drop_temp: "touches (insert t P) w w' \<Longrightarrow> is_temp t \<Longrightarrow> touches P w w'"
  by (auto simp: touches_def same_except_def)

lemma file_at_fun_upd:
  "lookup f' = (lookup f)(q := v) \<Longrightarrow> p \<noteq> q \<Longrightarrow> file_at f' p = file_at f p"
  by (simp add: file_at_def)

lemma remove_effect:
  assumes "os_Remove p w = (r, w')"
  shows "touches {p} w w'"
    and "plain (fs w) \<Longrightarrow> r = Inr () \<Longrightarrow> file_at (fs w') p = None"
    and "r = Inl e \<Longrightarrow> fs w' = fs w"
    and "plain (fs w) \<Longrightarrow> r = Inl e \<Longrightarrow> IsNotExist e \<Longrightarrow> file_at (fs w) p = None"
    and "plain (fs w) \<Longrightarrow> file_at (fs w) p = None \<Longrightarrow> touches {} w w'"
proof -
  consider "r = Inl EIO" "fs w' = fs w" | "fs_remove p (fs w) = (r, fs w')"
    using assms unfolding os_Remove_def by (rule with_fault_cases)
  note c = this
  have ok: "p \<noteq> [] \<and> lookup (fs w') = (lookup (fs w))(p := None) \<and> plain (fs w')"
    if "plain (fs w)" "r = Inr ()"
    using c
  proof cases
    case 2
    then obtain q where q: "p \<noteq> []" "entry_path (fs w) p = Inr q" "fs w' = AList.delete q (fs w)"
      "lookup (fs w) q = Some Dir \<Longrightarrow> children (fs w) q = []"
      using \<open>r = Inr ()\<close> by (auto simp: fs_remove_def split: if_splits sum.splits option.splits node.splits)
    then have "q = p" using entry_path_plain that by blast
    then show ?thesis using q that plain_delete [of "fs w" p] by simp
  qed (use that in simp)
  show fail: "fs w' = fs w" if "r = Inl e" for e
    using c that by cases (auto simp: fs_remove_def split: if_splits sum.splits option.splits node.splits)
  show "file_at (fs w') p = None" if "plain (fs w)" "r = Inr ()"
    using ok that by (simp add: file_at_def)
  show t: "touches {p} w w'"
  proof (cases r)
    case (Inr u)
    then show ?thesis using ok by (intro touchesI) (simp_all add: file_at_def)
  qed (use fail in simp)
  show "touches {} w w'" if "plain (fs w)" "file_at (fs w) p = None"
  proof (cases r)
    case (Inr u)
    then show ?thesis using ok that by (intro touchesI) (simp_all add: file_at_def)
  qed (use fail in simp)
  show "file_at (fs w) p = None" if "plain (fs w)" "r = Inl e" "IsNotExist e"
    using c
  proof cases
    case 1
    then show ?thesis using that by (simp add: IsNotExist_def errno_defs)
  next
    case 2
    show ?thesis
    proof (rule ccontr)
      assume "file_at (fs w) p \<noteq> None"
      then obtain c m where l: "lookup (fs w) p = Some (File c m)"
        by (auto simp: file_at_def split: option.splits node.splits)
      then have "p \<noteq> []" by auto
      then have "entry_path (fs w) p = Inr p" using entry_path_exists [OF that(1)] l by simp
      then show False using 2 that(2) l \<open>p \<noteq> []\<close> by (simp add: fs_remove_def)
    qed
  qed
qed


lemma create_effect:
  assumes "os_CreateTemp d w = (r, w')"
  shows "touches {} w w'"
    and "plain (fs w) \<Longrightarrow> r = Inr t \<Longrightarrow> is_temp t \<and> lookup (fs w') t = Some (File '''' 384)"
proof -
  let ?t = "d @ [fresh_name (fs w)]"
  have temp: "is_temp ?t" by (simp add: is_temp_def fresh_name_def)
  have fresh: "lookup (fs w) ?t = None"
  proof (rule ccontr)
    assume "lookup (fs w) ?t \<noteq> None"
    then have "?t \<in> fst ` set (fs w)" by (auto simp: lookup_def dest!: map_of_SomeD intro: rev_image_eqI)
    then have "fresh_name (fs w) \<in> set (concat (map fst (fs w)))" by force
    then have "length (fresh_name (fs w)) \<le> sum_list (map length (concat (map fst (fs w))))"
      by (intro member_le_sum_list) auto
    then show False by (simp add: fresh_name_def)
  qed
  consider e where "r = Inl e" "fs w' = fs w"
    | q where "entry_path (fs w) ?t = Inr q" "r = Inr ?t" "fs w' = AList.update q (File '''' 384) (fs w)"
  proof (rule with_fault_cases [OF assms [unfolded os_CreateTemp_def]])
    assume m: "(let p = ?t in case entry_path (fs w) p of Inl e \<Rightarrow> (Inl e, fs w)
      | Inr q \<Rightarrow> (Inr p, AList.update q (File '''' 384) (fs w))) = (r, fs w')"
    show thesis
    proof (cases "entry_path (fs w) ?t")
      case (Inl e)
      then show ?thesis using m that(1) [of e] by auto
    next
      case (Inr q)
      then show ?thesis using m that(2) [of q] by auto
    qed
  qed simp
  note c = this
  have ok: "q = ?t \<and> lookup (fs w) (butlast ?t) = Some Dir"
    if "entry_path (fs w) ?t = Inr q" "plain (fs w)" for q
    using entry_path_plain [OF that(2,1)] by simp
  show "touches {} w w'"
    using c
  proof cases
    case (2 q)
    show ?thesis
    proof (rule touchesI)
      assume p: "plain (fs w)"
      note o = ok [OF 2(1) p]
      show "plain (fs w')" using o fresh p 2(3) plain_update [of "fs w" ?t "File '''' 384"] by simp
    next
      fix x assume p: "plain (fs w)" and "\<not> is_temp x"
      then show "file_at (fs w') x = file_at (fs w) x"
        using temp ok [OF 2(1) p] 2(3) by (auto simp: file_at_def)
    qed
  qed simp
  show "is_temp t \<and> lookup (fs w') t = Some (File '''' 384)" if "plain (fs w)" "r = Inr t"
    using c
  proof cases
    case (2 q)
    then show ?thesis using that temp ok [OF 2(1) that(1)] by simp
  qed (use that in simp)
qed

lemma modify_effect:
  assumes "with_fault (fs_modify t g) w = (r, w')" and "t \<noteq> []" and "is_temp t" and "\<And>c m l. g c m \<noteq> Link l"
  shows "touches {} w w'"
    and "plain (fs w) \<Longrightarrow> r = Inr () \<Longrightarrow>
      \<exists>c m. lookup (fs w) t = Some (File c m) \<and> lookup (fs w') t = Some (g c m)"
proof -
  consider e where "r = Inl e" "fs w' = fs w"
    | q c m where "entry_path (fs w) t = Inr q" "lookup (fs w) q = Some (File c m)"
      "r = Inr ()" "fs w' = AList.update q (g c m) (fs w)"
  proof (rule with_fault_cases [OF assms(1)])
    assume m: "fs_modify t g (fs w) = (r, fs w')"
    show thesis
    proof (cases "entry_path (fs w) t")
      case (Inl e)
      then show ?thesis using m that(1) [of e] by (auto simp: fs_modify_def)
    next
      case (Inr q)
      show ?thesis
      proof (cases "\<exists>c m. lookup (fs w) q = Some (File c m)")
        case True
        then obtain c n where "lookup (fs w) q = Some (File c n)" by blast
        then show ?thesis using m Inr that(2) [of q c n] by (auto simp: fs_modify_def)
      next
        case False
        then have "r = Inl ErrNotExist \<and> fs w' = fs w"
          using m Inr by (cases "lookup (fs w) q"; cases "the (lookup (fs w) q)") (auto simp: fs_modify_def)
        then show ?thesis using that(1) by blast
      qed
    qed
  qed simp
  note c = this
  have ok: "q = t \<and> lookup (fs w) (butlast t) = Some Dir"
    if "entry_path (fs w) t = Inr q" "plain (fs w)" for q
    using entry_path_plain [OF that(2,1) assms(2)] by simp
  show "touches {} w w'"
    using c
  proof cases
    case (2 q c m)
    show ?thesis
    proof (rule touchesI)
      assume p: "plain (fs w)"
      note o = ok [OF 2(1) p]
      show "plain (fs w')" using o p 2(2,4) assms(2,4) plain_update [of "fs w" t "g c m"] by simp
    next
      fix x assume p: "plain (fs w)" and "\<not> is_temp x"
      then show "file_at (fs w') x = file_at (fs w) x"
        using assms(2,3) ok [OF 2(1) p] 2(4) by (auto simp: file_at_def)
    qed
  qed simp
  show "\<exists>c m. lookup (fs w) t = Some (File c m) \<and> lookup (fs w') t = Some (g c m)"
    if "plain (fs w)" "r = Inr ()"
    using c
  proof cases
    case (2 q c m)
    have "q = t" using ok [OF 2(1) that(1)] by simp
    then show ?thesis using 2(2,4) assms(2) by (intro exI [of _ c] exI [of _ m]) simp
  qed (use that in simp)
qed

lemma is_temp_not_Nil: "is_temp t \<Longrightarrow> t \<noteq> []"
  by (simp add: is_temp_def)

lemma write_effect:
  assumes "os_Write t content w = (r, w')" and "is_temp t"
  shows "touches {} w w'"
    and "plain (fs w) \<Longrightarrow> r = Inr () \<Longrightarrow> \<exists>m. lookup (fs w') t = Some (File content m)"
  using modify_effect [OF assms(1) [unfolded os_Write_def] is_temp_not_Nil [OF assms(2)] assms(2)] by auto

lemma chmod_effect:
  assumes "os_Chmod t mode w = (r, w')" and "is_temp t"
  shows "touches {} w w'"
    and "plain (fs w) \<Longrightarrow> r = Inr () \<Longrightarrow> lookup (fs w) t = Some (File c m) \<Longrightarrow>
      lookup (fs w') t = Some (File c mode)"
  using modify_effect [OF assms(1) [unfolded os_Chmod_def] is_temp_not_Nil [OF assms(2)] assms(2)] by auto

lemma rename_effect:
  assumes "os_Rename t p w = (r, w')" and "is_temp t" and "p \<noteq> []"
    and nodir: "plain (fs w) \<Longrightarrow> lookup (fs w) t \<noteq> Some Dir"
  shows "touches {p} w w'" and "r = Inl e \<Longrightarrow> fs w' = fs w"
    and "plain (fs w) \<Longrightarrow> r = Inr () \<Longrightarrow> lookup (fs w) t = Some (File c m) \<Longrightarrow> file_at (fs w') p = Some (c, m)"
proof -
  note tn = is_temp_not_Nil [OF assms(2)]
  consider e where "r = Inl e" "fs w' = fs w"
    | q1 q2 nd where "entry_path (fs w) t = Inr q1" "entry_path (fs w) p = Inr q2"
      "lookup (fs w) q1 = Some nd" "lookup (fs w) q2 \<noteq> Some Dir" "r = Inr ()"
      "fs w' = AList.update q2 nd (AList.delete q1 (fs w))"
  proof (rule with_fault_cases [OF assms(1) [unfolded os_Rename_def]])
    assume m: "fs_rename t p (fs w) = (r, fs w')"
    show thesis
    proof (cases "\<exists>q1 q2 nd. entry_path (fs w) t = Inr q1 \<and> entry_path (fs w) p = Inr q2 \<and>
        lookup (fs w) q1 = Some nd \<and> lookup (fs w) q2 \<noteq> Some Dir")
      case True
      then obtain q1 q2 nd where "entry_path (fs w) t = Inr q1" "entry_path (fs w) p = Inr q2"
        "lookup (fs w) q1 = Some nd" "lookup (fs w) q2 \<noteq> Some Dir" by blast
      then show ?thesis using m that(2) [of q1 q2 nd] by (auto simp: fs_rename_def)
    next
      case False
      then have "\<exists>e. r = Inl e \<and> fs w' = fs w"
        using m unfolding fs_rename_def
        by (cases "entry_path (fs w) t"; cases "entry_path (fs w) p") (auto split: option.splits if_splits)
      then show ?thesis using that(1) by blast
    qed
  qed simp
  note c = this
  show "fs w' = fs w" if "r = Inl e"
    using c that by cases auto
  show "file_at (fs w') p = Some (c, m)"
    if "plain (fs w)" "r = Inr ()" "lookup (fs w) t = Some (File c m)"
    using c
  proof cases
    case (2 q1 q2 nd)
    then show ?thesis
      using that entry_path_plain [OF that(1) 2(1) tn] entry_path_plain [OF that(1) 2(2) assms(3)] assms(3)
      by (auto simp: file_at_def)
  qed (use that in simp)
  show "touches {p} w w'"
    using c
  proof cases
    case (2 q1 q2 nd)
    show ?thesis
    proof (rule touchesI)
      assume pl: "plain (fs w)"
      note e1 = entry_path_plain [OF pl 2(1) tn] and e2 = entry_path_plain [OF pl 2(2) assms(3)]
      have nd: "nd \<noteq> Link l" for l using plain_no_link [OF pl] 2(3) by auto
      have del: "plain (AList.delete t (fs w))"
        using plain_delete [OF pl tn] nodir [OF pl] by simp
      have "butlast p \<noteq> t" using e2 nodir [OF pl] by auto
      then have "plain (AList.update p nd (AList.delete t (fs w)))"
        using e2 2(4) assms(3) tn nd by (intro plain_update [OF del]) simp_all
      then show "plain (fs w')" using e1 e2 2(6) by simp
    next
      fix x assume pl: "plain (fs w)" and x: "x \<notin> {p}" "\<not> is_temp x"
      then show "file_at (fs w') x = file_at (fs w) x"
        using entry_path_plain [OF pl 2(1) tn] entry_path_plain [OF pl 2(2) assms(3)] assms(2,3) tn 2(6)
        by (auto simp: file_at_def)
    qed
  qed simp
qed


lemma mkdir_effect:
  assumes "os_Mkdir p w = (r, w')" and "p \<noteq> []"
  shows "touches {} w w'"
proof (rule with_fault_cases [OF assms(1) [unfolded os_Mkdir_def]])
  assume m: "(case entry_path (fs w) p of Inl e \<Rightarrow> (Inl e, fs w)
    | Inr q \<Rightarrow> if lookup (fs w) q \<noteq> None then (Inl EEXIST, fs w) else (Inr (), AList.update q Dir (fs w))) = (r, fs w')"
  show ?thesis
  proof (cases "\<exists>q. entry_path (fs w) p = Inr q \<and> lookup (fs w) q = None")
    case True
    then obtain q where q: "entry_path (fs w) p = Inr q" "lookup (fs w) q = None" by blast
    then have w': "fs w' = AList.update q Dir (fs w)" using m by auto
    show ?thesis
    proof (rule touchesI)
      assume pl: "plain (fs w)"
      then show "plain (fs w')"
        using entry_path_plain [OF pl q(1) assms(2)] q(2) w' assms(2) plain_update [of "fs w" p Dir] by simp
    next
      fix x assume pl: "plain (fs w)"
      then show "file_at (fs w') x = file_at (fs w) x"
        using entry_path_plain [OF pl q(1) assms(2)] q(2) w' assms(2) by (simp add: file_at_def)
    qed
  next
    case False
    then have "fs w' = fs w" using m by (cases "entry_path (fs w) p") auto
    then show ?thesis by simp
  qed
qed simp

lemma mkdirall_effect: "os_MkdirAll p cs w = (r, w') \<Longrightarrow> touches {} w w'"
proof (induction p cs w arbitrary: r w' rule: os_MkdirAll.induct)
  case (2 p c cs w)
  consider "fs_stat (fs w) (p @ [c]) = Inr Dir" | nd where "fs_stat (fs w) (p @ [c]) = Inr nd" "nd \<noteq> Dir"
    | e where "fs_stat (fs w) (p @ [c]) = Inl e"
    by (cases "fs_stat (fs w) (p @ [c])") auto
  then show ?case
  proof cases
    case 1
    then show ?thesis using "2.IH"(2) [OF 1 refl] "2.prems" by simp
  next
    case (2 nd)
    then show ?thesis using "2.prems" by (cases nd) auto
  next
    case (3 e)
    obtain r1 w1 where m: "os_Mkdir (p @ [c]) w = (r1, w1)" by (cases "os_Mkdir (p @ [c]) w")
    have t: "touches {} w w1" by (rule mkdir_effect [OF m]) simp
    show ?thesis
    proof (cases r1)
      case (Inl e)
      then show ?thesis using t 3 m "2.prems" by simp
    next
      case (Inr u)
      then have "touches {} w1 w'" using "2.IH"(1) [OF 3 m [symmetric] Inr] "2.prems" 3 m by simp
      then show ?thesis using touches_seq [OF t] by blast
    qed
  qed
qed simp

end
