(* ===== verification/Approval.thy ===== *)
theory Approval
  imports Contract "HOL-Library.Product_Lexorder"
begin

text \<open>
  The approval broker of package \<open>approval\<close>: scoped, expiring, single-use grants, the checks that
  consume them, and the file store that persists them. Each operation runs under the broker's lock
  and so is one step of the model. The clock reading, the random token and SHA-256 are arguments;
  no property of the hash is needed except where stated. Times are nanoseconds from Go's zero time,
  so \<open>IsZero\<close> is equality with 0.
\<close>

section \<open>Grants\<close>

record Scope =
  sc_Action :: string
  sc_Resource :: string

definition Scope_String :: "Scope \<Rightarrow> string" where
  "Scope_String s = (if sc_Resource s = '''' then sc_Action s else sc_Action s @ '':'' @ sc_Resource s)"

record Grant =
  g_Token :: string
  g_TokenHash :: string
  g_Scope :: Scope
  g_ApprovedBy :: string
  g_ApprovedAt :: int
  g_ExpiresAt :: int
  g_Used :: bool

text \<open>\<open>Grant.String\<close>, with the RFC 3339 rendering of a time as an argument; the token itself is
  never part of it.\<close>

definition Grant_String :: "(int \<Rightarrow> string) \<Rightarrow> Grant \<Rightarrow> string" where
  "Grant_String rfc3339 g =
     ''Grant{token_hash='' @ g_TokenHash g @ '' scope='' @ Scope_String (g_Scope g) @
     '' approved_by='' @ g_ApprovedBy g @ '' approved_at='' @ rfc3339 (g_ApprovedAt g) @
     '' expires_at='' @ rfc3339 (g_ExpiresAt g) @
     '' status='' @ (if g_Used g then ''used'' else ''active'') @ ''}''"

definition expired :: "Grant \<Rightarrow> int \<Rightarrow> bool" where
  "expired g now = (if g_ExpiresAt g = 0 then True else \<not> now < g_ExpiresAt g)"

definition matchesScope :: "Grant \<Rightarrow> Scope \<Rightarrow> bool" where
  "matchesScope g scope \<longleftrightarrow>
     sc_Action (g_Scope g) = sc_Action scope \<and> sc_Resource (g_Scope g) = sc_Resource scope"

definition ToProvenanceApproval :: "Grant \<Rightarrow> Approval" where
  "ToProvenanceApproval g =
     (let notes = ''token_hash='' @ g_TokenHash g;
          notes = (if sc_Resource (g_Scope g) = '''' then notes
                   else ''resource='' @ sc_Resource (g_Scope g) @ '' '' @ notes)
      in \<lparr>ap_Action = sc_Action (g_Scope g), ap_ApprovedBy = g_ApprovedBy g,
          ap_ApprovedAt = g_ApprovedAt g, ap_Notes = notes\<rparr>)"

definition errEmptyAction :: gerror where
  "errEmptyAction = Sentinel ''approval: scope action must not be empty''"

definition errEmptyApprover :: gerror where
  "errEmptyApprover = Sentinel ''approval: approvedBy must not be empty''"

definition errNonPositiveTTL :: gerror where
  "errNonPositiveTTL = Sentinel ''approval: ttl must be positive''"

text \<open>The outcome of reading 24 random bytes, in hexadecimal, and SHA-256 in hexadecimal are given
  by the environment.\<close>

definition generateToken :: "(string \<Rightarrow> string) \<Rightarrow> string result \<Rightarrow> (string \<times> string) result" where
  "generateToken sha256 rand = (case rand of
     Inl e \<Rightarrow> Inl (Errorf [Lit ''approval: generating token: '', Wrapped e])
   | Inr token \<Rightarrow> Inr (token, sha256 token))"


section \<open>The broker\<close>

record Broker =
  grants :: "Grant gomap"

definition NewBroker :: Broker where
  "NewBroker = \<lparr>grants = []\<rparr>"

definition pruneLocked :: "int \<Rightarrow> Broker \<Rightarrow> Broker" where
  "pruneLocked now b = b\<lparr>grants := filter (\<lambda>(token, g). \<not> (g_Used g \<or> expired g now)) (grants b)\<rparr>"

definition broker_Grant ::
    "(string \<Rightarrow> string) \<Rightarrow> string result \<Rightarrow> int \<Rightarrow> Scope \<Rightarrow> string \<Rightarrow> int \<Rightarrow> Broker
     \<Rightarrow> Grant result \<times> Broker" where
  "broker_Grant sha256 rand now scope approvedBy ttl b =
     (if sc_Action scope = '''' then (Inl errEmptyAction, b)
      else if approvedBy = '''' then (Inl errEmptyApprover, b)
      else if ttl \<le> 0 then (Inl errNonPositiveTTL, b)
      else case generateToken sha256 rand of
        Inl e \<Rightarrow> (Inl e, b)
      | Inr (token, hash) \<Rightarrow>
        (let g = \<lparr>g_Token = token, g_TokenHash = hash, g_Scope = scope, g_ApprovedBy = approvedBy,
                  g_ApprovedAt = now, g_ExpiresAt = now + ttl, g_Used = False\<rparr>;
             b1 = pruneLocked now b
         in (Inr g, b1\<lparr>grants := AList.update token g (grants b1)\<rparr>)))"

definition better :: "Grant \<Rightarrow> Grant \<Rightarrow> bool" where
  "better g best \<longleftrightarrow> g_ApprovedAt g < g_ApprovedAt best \<or>
     (g_ApprovedAt g = g_ApprovedAt best \<and> g_TokenHash g < g_TokenHash best)"

fun best_match :: "Scope \<Rightarrow> (string \<times> Grant) option \<Rightarrow> Grant gomap \<Rightarrow> (string \<times> Grant) option" where
  "best_match scope best [] = best"
| "best_match scope best ((k, g) # gs) =
     (if \<not> matchesScope g scope then best_match scope best gs
      else case best of
             None \<Rightarrow> best_match scope (Some (k, g)) gs
           | Some (k', g') \<Rightarrow>
               if better g g' then best_match scope (Some (k, g)) gs else best_match scope best gs)"

text \<open>\<open>findMatch\<close> prunes and returns the entry of the grant found, under which the caller then
  marks it used.\<close>

definition findMatch :: "int \<Rightarrow> string \<Rightarrow> Scope \<Rightarrow> Broker \<Rightarrow> Broker \<times> (string \<times> Grant) option" where
  "findMatch now token scope b =
     (let b1 = pruneLocked now b in
      (b1, if token \<noteq> '''' then
             (case map_of (grants b1) token of
                None \<Rightarrow> None
              | Some g \<Rightarrow> if matchesScope g scope then Some (token, g) else None)
           else best_match scope None (grants b1)))"

definition use_grant :: "string \<Rightarrow> Grant \<Rightarrow> Broker \<Rightarrow> Broker" where
  "use_grant k g b = b\<lparr>grants := AList.update k (g\<lparr>g_Used := True\<rparr>) (grants b)\<rparr>"

definition Check :: "int \<Rightarrow> Scope \<Rightarrow> Broker \<Rightarrow> Status \<times> Broker" where
  "Check now scope b = (case findMatch now '''' scope b of
     (b1, None) \<Rightarrow> (StatusApprovalRequired, b1)
   | (b1, Some (k, g)) \<Rightarrow> (StatusPass, use_grant k g b1))"

definition CheckToken :: "int \<Rightarrow> string \<Rightarrow> Scope \<Rightarrow> Broker \<Rightarrow> Status \<times> Broker" where
  "CheckToken now token scope b =
     (if token = '''' then (StatusApprovalRequired, b)
      else case findMatch now token scope b of
        (b1, None) \<Rightarrow> (StatusApprovalRequired, b1)
      | (b1, Some (k, g)) \<Rightarrow> (StatusPass, use_grant k g b1))"

definition DryRunCheck :: "int \<Rightarrow> Scope \<Rightarrow> Broker \<Rightarrow> Status \<times> Broker" where
  "DryRunCheck now scope b = (case findMatch now '''' scope b of
     (b1, m) \<Rightarrow> (if m = None then StatusApprovalRequired else StatusPass, b1))"

definition DryRunCheckToken :: "int \<Rightarrow> string \<Rightarrow> Scope \<Rightarrow> Broker \<Rightarrow> Status \<times> Broker" where
  "DryRunCheckToken now token scope b =
     (if token = '''' then (StatusApprovalRequired, b)
      else case findMatch now token scope b of
        (b1, m) \<Rightarrow> (if m = None then StatusApprovalRequired else StatusPass, b1))"

definition grant_key :: "Grant \<Rightarrow> int \<times> string" where
  "grant_key g = (g_ApprovedAt g, g_TokenHash g)"

definition ActiveGrants :: "int \<Rightarrow> Broker \<Rightarrow> Grant list \<times> Broker" where
  "ActiveGrants now b =
     (let b1 = pruneLocked now b in (sort_key grant_key (map snd (grants b1)), b1))"

definition ErrCommandNotFound :: gerror where
  "ErrCommandNotFound = Sentinel ''approval: command not found in contract''"

fun requires_loop :: "CommandDecl list \<Rightarrow> string \<Rightarrow> bool \<times> gerror option" where
  "requires_loop [] name = (False, Some (Errorf [Wrapped ErrCommandNotFound, Lit '': '', Quoted name]))"
| "requires_loop (c # cs) name =
     (if cd_Name c \<noteq> name then requires_loop cs name
      else if cd_Class c = ClassApprovalRequired \<or> cd_Class c = ClassDestructive then (True, None)
      else (False, None))"

definition RequiresApproval :: "Contract \<Rightarrow> string \<Rightarrow> bool \<times> gerror option" where
  "RequiresApproval c name = requires_loop (c_Commands c) name"


section \<open>The file store\<close>

record storedGrant =
  sg_Token :: string
  sg_Scope :: Scope
  sg_ApprovedBy :: string
  sg_ApprovedAt :: int
  sg_ExpiresAt :: int
  sg_Used :: bool

definition DefaultStorePath :: "string \<Rightarrow> string" where
  "DefaultStorePath root = filepath_Join [root, ''.modulex'', ''approvals.json'']"

definition stored :: "Grant \<Rightarrow> storedGrant" where
  "stored g = \<lparr>sg_Token = g_Token g, sg_Scope = g_Scope g, sg_ApprovedBy = g_ApprovedBy g,
               sg_ApprovedAt = g_ApprovedAt g, sg_ExpiresAt = g_ExpiresAt g, sg_Used = g_Used g\<rparr>"

text \<open>The files of the disk by path, and the outcomes of the system calls of one \<open>Save\<close>: a failed
  \<open>WriteFile\<close> may leave any content in the temporary file.\<close>

type_synonym disk = "string \<Rightarrow> string option"

record save_env =
  mkdir_err :: "gerror option"
  write_err :: "(gerror \<times> string) option"
  rename_err :: "gerror option"

definition tmp_path :: "string \<Rightarrow> string" where
  "tmp_path path = path @ ''.tmp''"

definition Save ::
    "(storedGrant list \<Rightarrow> string result) \<Rightarrow> save_env \<Rightarrow> string \<Rightarrow> Broker \<Rightarrow> disk
     \<Rightarrow> gerror option \<times> disk list" where
  "Save marshal env path b d =
     (case marshal (map (stored \<circ> snd) (grants b)) of
        Inl e \<Rightarrow> (Some (Errorf [Lit ''approval: marshaling grants: '', Wrapped e]), [d])
      | Inr data \<Rightarrow>
        (case mkdir_err env of
           Some e \<Rightarrow> (Some (Errorf [Lit ''approval: creating '', Lit (filepath_Dir path), Lit '': '', Wrapped e]), [d])
         | None \<Rightarrow>
           (case write_err env of
              Some (e, garbage) \<Rightarrow>
                (Some (Errorf [Lit ''approval: writing '', Lit (tmp_path path), Lit '': '', Wrapped e]),
                 [d, d(tmp_path path := Some garbage)])
            | None \<Rightarrow>
              (let d1 = d(tmp_path path := Some data) in
               case rename_err env of
                 Some e \<Rightarrow>
                   (Some (Errorf [Lit ''approval: renaming '', Lit (tmp_path path), Lit '' to '', Lit path, Lit '': '', Wrapped e]),
                    [d, d1])
               | None \<Rightarrow> (None, [d, d1, d1(path := Some data, tmp_path path := None)])))))"

definition restored :: "(string \<Rightarrow> string) \<Rightarrow> storedGrant \<Rightarrow> Grant" where
  "restored sha256 s = \<lparr>g_Token = sg_Token s, g_TokenHash = sha256 (sg_Token s), g_Scope = sg_Scope s,
     g_ApprovedBy = sg_ApprovedBy s, g_ApprovedAt = sg_ApprovedAt s, g_ExpiresAt = sg_ExpiresAt s,
     g_Used = sg_Used s\<rparr>"

definition Load_grants :: "(string \<Rightarrow> string) \<Rightarrow> storedGrant list \<Rightarrow> Broker" where
  "Load_grants sha256 sgs =
     fold (\<lambda>s b. b\<lparr>grants := AList.update (sg_Token s) (restored sha256 s) (grants b)\<rparr>) sgs NewBroker"

text \<open>\<open>Load\<close>; \<open>read_err\<close> is a failure of \<open>os.ReadFile\<close> other than a missing file.\<close>

definition Load ::
    "(string \<Rightarrow> string) \<Rightarrow> (string \<Rightarrow> storedGrant list result) \<Rightarrow> gerror option \<Rightarrow> string \<Rightarrow> disk
     \<Rightarrow> Broker result" where
  "Load sha256 unmarshal read_err path d =
     (case d path of
        None \<Rightarrow> Inr NewBroker
      | Some data \<Rightarrow>
        (case read_err of
           Some e \<Rightarrow> Inl (Errorf [Lit ''approval: reading '', Lit path, Lit '': '', Wrapped e])
         | None \<Rightarrow>
           (case unmarshal data of
              Inl e \<Rightarrow> Inl (Errorf [Lit ''approval: parsing '', Lit path, Lit '': '', Wrapped e])
            | Inr sgs \<Rightarrow> Inr (Load_grants sha256 sgs))))"


section \<open>What an approval promises\<close>

text \<open>The promise of the broker, independent of its table and of when it is pruned: a partial map
  from tokens to grants that were issued and not yet consumed, of which those count that have not
  expired at the time of a request.\<close>

type_synonym approvals = "string \<rightharpoonup> Grant"

definition at_time :: "int \<Rightarrow> approvals \<Rightarrow> approvals" where
  "at_time t A k = (case A k of None \<Rightarrow> None | Some g \<Rightarrow> if expired g t then None else Some g)"

datatype broker_op =
    OpGrant "string result" Scope string int
  | OpCheck Scope
  | OpCheckToken string Scope
  | OpDryRun Scope
  | OpDryRunToken string Scope
  | OpActive

datatype outcome =
    OGrant "Grant result"
  | OStatus Status
  | OGrants "Grant list"

fun run_op :: "(string \<Rightarrow> string) \<Rightarrow> int \<Rightarrow> broker_op \<Rightarrow> Broker \<Rightarrow> outcome \<times> Broker" where
  "run_op sha now (OpGrant rand scope approver ttl) b =
     (case broker_Grant sha rand now scope approver ttl b of (r, b') \<Rightarrow> (OGrant r, b'))"
| "run_op sha now (OpCheck scope) b = (case Check now scope b of (s, b') \<Rightarrow> (OStatus s, b'))"
| "run_op sha now (OpCheckToken tok scope) b =
     (case CheckToken now tok scope b of (s, b') \<Rightarrow> (OStatus s, b'))"
| "run_op sha now (OpDryRun scope) b = (case DryRunCheck now scope b of (s, b') \<Rightarrow> (OStatus s, b'))"
| "run_op sha now (OpDryRunToken tok scope) b =
     (case DryRunCheckToken now tok scope b of (s, b') \<Rightarrow> (OStatus s, b'))"
| "run_op sha now OpActive b = (case ActiveGrants now b of (gs, b') \<Rightarrow> (OGrants gs, b'))"

fun run_ops :: "(string \<Rightarrow> string) \<Rightarrow> (int \<times> broker_op) list \<Rightarrow> Broker \<Rightarrow> outcome list \<times> Broker" where
  "run_ops sha [] b = ([], b)"
| "run_ops sha ((now, op) # ops) b =
     (case run_op sha now op b of (r, b1) \<Rightarrow>
      case run_ops sha ops b1 of (rs, b2) \<Rightarrow> (r # rs, b2))"

text \<open>The first grant in the order of approval time and token hash that matches a scope.\<close>

definition earliest :: "approvals \<Rightarrow> Scope \<Rightarrow> string \<Rightarrow> bool" where
  "earliest A scope k \<longleftrightarrow> (\<exists>g. A k = Some g \<and> g_Scope g = scope \<and>
     (\<forall>k' g'. A k' = Some g' \<and> g_Scope g' = scope \<longrightarrow> grant_key g \<le> grant_key g'))"

definition covers :: "approvals \<Rightarrow> string \<Rightarrow> Scope \<Rightarrow> bool" where
  "covers A k scope \<longleftrightarrow> (\<exists>g. A k = Some g \<and> g_Scope g = scope)"

inductive a_step :: "(string \<Rightarrow> string) \<Rightarrow> int \<Rightarrow> broker_op \<Rightarrow> outcome \<Rightarrow> approvals \<Rightarrow> approvals \<Rightarrow> bool"
  for sha now where
  grant: "\<lbrakk>sc_Action scope \<noteq> ''''; approver \<noteq> ''''; 0 < ttl;
      g = \<lparr>g_Token = tok, g_TokenHash = sha tok, g_Scope = scope, g_ApprovedBy = approver,
           g_ApprovedAt = now, g_ExpiresAt = now + ttl, g_Used = False\<rparr>\<rbrakk> \<Longrightarrow>
    a_step sha now (OpGrant (Inr tok) scope approver ttl) (OGrant (Inr g)) A (A(tok \<mapsto> g))"
| refused: "\<lbrakk>sc_Action scope = '''' \<or> approver = '''' \<or> ttl \<le> 0 \<or> isl rand\<rbrakk> \<Longrightarrow>
    a_step sha now (OpGrant rand scope approver ttl) (OGrant (Inl e)) A A"
| pass: "earliest (at_time now A) scope k \<Longrightarrow>
    a_step sha now (OpCheck scope) (OStatus StatusPass) A (A(k := None))"
| denied: "\<nexists>k. covers (at_time now A) k scope \<Longrightarrow>
    a_step sha now (OpCheck scope) (OStatus StatusApprovalRequired) A A"
| pass_token: "\<lbrakk>tok \<noteq> ''''; covers (at_time now A) tok scope\<rbrakk> \<Longrightarrow>
    a_step sha now (OpCheckToken tok scope) (OStatus StatusPass) A (A(tok := None))"
| denied_token: "tok = '''' \<or> \<not> covers (at_time now A) tok scope \<Longrightarrow>
    a_step sha now (OpCheckToken tok scope) (OStatus StatusApprovalRequired) A A"
| dry: "st = (if \<exists>k. covers (at_time now A) k scope then StatusPass else StatusApprovalRequired) \<Longrightarrow>
    a_step sha now (OpDryRun scope) (OStatus st) A A"
| dry_token: "st = (if tok \<noteq> '''' \<and> covers (at_time now A) tok scope
                    then StatusPass else StatusApprovalRequired) \<Longrightarrow>
    a_step sha now (OpDryRunToken tok scope) (OStatus st) A A"
| active: "\<lbrakk>set gs = ran (at_time now A); sorted (map grant_key gs)\<rbrakk> \<Longrightarrow>
    a_step sha now OpActive (OGrants gs) A A"

inductive a_run :: "(string \<Rightarrow> string) \<Rightarrow> (int \<times> broker_op) list \<Rightarrow> outcome list \<Rightarrow> approvals \<Rightarrow> approvals \<Rightarrow> bool"
  for sha where
  nothing: "a_run sha [] [] A A"
| one_more: "\<lbrakk>a_step sha now op r A B; a_run sha ops rs B C\<rbrakk> \<Longrightarrow> a_run sha ((now, op) # ops) (r # rs) A C"


section \<open>The broker keeps the promise\<close>

definition wf_broker :: "Broker \<Rightarrow> bool" where
  "wf_broker b \<longleftrightarrow> distinct (map fst (grants b))"

definition live :: "int \<Rightarrow> Broker \<Rightarrow> approvals" where
  "live t b k = (case map_of (grants b) k of
     None \<Rightarrow> None | Some g \<Rightarrow> if g_Used g \<or> expired g t then None else Some g)"

lemma map_of_filter_distinct:
  "distinct (map fst m) \<Longrightarrow>
   map_of (filter P m) k = (case map_of m k of None \<Rightarrow> None | Some v \<Rightarrow> if P (k, v) then Some v else None)"
  by (induction m) (auto simp: map_of_eq_None_iff [symmetric] image_iff dest: map_of_SomeD split: option.splits)

lemma wf_NewBroker [simp]: "wf_broker NewBroker"
  by (simp add: wf_broker_def NewBroker_def)

lemma distinct_keys_filter: "distinct (map fst m) \<Longrightarrow> distinct (map fst (filter P m))"
  by (induction m) auto

lemma wf_prune [simp]: "wf_broker b \<Longrightarrow> wf_broker (pruneLocked now b)"
  by (simp add: wf_broker_def pruneLocked_def distinct_keys_filter)

lemma map_of_prune: "wf_broker b \<Longrightarrow> map_of (grants (pruneLocked now b)) = live now b"
  by (rule ext) (auto simp: wf_broker_def pruneLocked_def map_of_filter_distinct live_def split: option.splits)

lemma expired_mono: "expired g now \<Longrightarrow> now \<le> t \<Longrightarrow> expired g t"
  by (auto simp: expired_def split: if_splits)

lemma live_prune: "wf_broker b \<Longrightarrow> now \<le> t \<Longrightarrow> live t (pruneLocked now b) = live t b"
  by (rule ext)
    (auto simp: live_def map_of_prune expired_mono split: option.splits)

lemma better_key: "better g h \<longleftrightarrow> grant_key g < grant_key h"
  by (auto simp: better_def grant_key_def less_prod_def)

lemma matchesScope_eq: "matchesScope g scope \<longleftrightarrow> g_Scope g = scope"
  by (cases "g_Scope g"; cases scope) (simp add: matchesScope_def)

text \<open>\<open>best_match\<close> returns a matching entry with the least key, if there is one.\<close>

definition candidate :: "Scope \<Rightarrow> (string \<times> Grant) option \<Rightarrow> Grant gomap \<Rightarrow> (string \<times> Grant) \<Rightarrow> bool" where
  "candidate scope best m e \<longleftrightarrow> best = Some e \<or> (e \<in> set m \<and> g_Scope (snd e) = scope)"

definition pick :: "Scope \<Rightarrow> (string \<times> Grant) option \<Rightarrow> string \<times> Grant \<Rightarrow> (string \<times> Grant) option" where
  "pick scope best e =
     (if g_Scope (snd e) \<noteq> scope then best
      else case best of None \<Rightarrow> Some e | Some e' \<Rightarrow> if grant_key (snd e) < grant_key (snd e') then Some e else best)"

lemma best_match_Cons: "best_match scope best (e # gs) = best_match scope (pick scope best e) gs"
  by (cases e) (simp add: pick_def matchesScope_eq better_key split: option.splits)

lemma candidate_pick:
  "candidate scope (pick scope best e) gs x \<Longrightarrow> candidate scope best (e # gs) x"
  by (auto simp: candidate_def pick_def split: if_splits option.splits)

lemma candidate_pick_le:
  "candidate scope best (e # gs) x \<Longrightarrow>
   \<exists>y. candidate scope (pick scope best e) gs y \<and> grant_key (snd y) \<le> grant_key (snd x)"
proof -
  assume c: "candidate scope best (e # gs) x"
  consider "x \<in> set gs" "g_Scope (snd x) = scope" | "best = Some x" | "x = e" "g_Scope (snd e) = scope"
    using c by (auto simp: candidate_def)
  then show ?thesis
  proof cases
    case 1
    then show ?thesis by (intro exI [of _ x]) (simp add: candidate_def)
  next
    case 2
    then show ?thesis
      by (intro exI [of _ "the (pick scope best e)"]) (auto simp: candidate_def pick_def)
  next
    case 3
    then show ?thesis
      by (intro exI [of _ "the (pick scope best e)"]) (auto simp: candidate_def pick_def split: option.splits)
  qed
qed

lemma best_match_None: "best_match scope best m = None \<longleftrightarrow> (\<forall>e. \<not> candidate scope best m e)"
proof (induction m arbitrary: best)
  case (Cons e gs)
  then show ?case
    unfolding best_match_Cons using candidate_pick candidate_pick_le by blast
next
  case Nil
  then show ?case by (cases best) (simp_all add: candidate_def)
qed

lemma best_match_in: "best_match scope best m = Some e \<Longrightarrow> candidate scope best m e"
proof (induction m arbitrary: best)
  case (Cons x gs)
  then show ?case unfolding best_match_Cons using candidate_pick by blast
qed (simp add: candidate_def)

lemma best_match_least:
  "best_match scope best m = Some e \<Longrightarrow> candidate scope best m e' \<Longrightarrow>
   grant_key (snd e) \<le> grant_key (snd e')"
proof (induction m arbitrary: best e')
  case (Cons x gs)
  obtain y where "candidate scope (pick scope best x) gs y" and le: "grant_key (snd y) \<le> grant_key (snd e')"
    using candidate_pick_le [OF Cons.prems(2)] by blast
  then have "grant_key (snd e) \<le> grant_key (snd y)"
    using Cons.IH Cons.prems(1) unfolding best_match_Cons by blast
  then show ?case using le by simp
qed (simp add: candidate_def)

lemma in_prune: "wf_broker b \<Longrightarrow> (k, g) \<in> set (grants (pruneLocked now b)) \<longleftrightarrow> live now b k = Some g"
  using wf_prune [of b now] by (simp add: map_of_prune [symmetric] wf_broker_def)

lemma findMatch_scope:
  assumes "wf_broker b"
  shows "case findMatch now '''' scope b of
     (b1, None) \<Rightarrow> b1 = pruneLocked now b \<and> (\<nexists>k. covers (live now b) k scope)
   | (b1, Some (k, g)) \<Rightarrow> b1 = pruneLocked now b \<and> live now b k = Some g \<and> earliest (live now b) scope k"
proof (cases "best_match scope None (grants (pruneLocked now b))")
  case None
  then show ?thesis
    using best_match_None [of scope None "grants (pruneLocked now b)"]
    by (auto simp: findMatch_def Let_def candidate_def covers_def in_prune [OF assms])
next
  case (Some e)
  obtain k g where e: "e = (k, g)" by (cases e)
  have "candidate scope None (grants (pruneLocked now b)) e" by (rule best_match_in [OF Some])
  then have g: "live now b k = Some g" "g_Scope g = scope"
    by (auto simp: candidate_def e in_prune [OF assms])
  have "grant_key g \<le> grant_key g'" if "live now b k' = Some g'" "g_Scope g' = scope" for k' g'
    using best_match_least [OF Some, of "(k', g')"] that e
    by (simp add: candidate_def in_prune [OF assms])
  then have "earliest (live now b) scope k" using g unfolding earliest_def by blast
  then show ?thesis using Some g by (simp add: findMatch_def Let_def e)
qed

lemma findMatch_token:
  assumes "wf_broker b" and "tok \<noteq> ''''"
  shows "case findMatch now tok scope b of
     (b1, None) \<Rightarrow> b1 = pruneLocked now b \<and> \<not> covers (live now b) tok scope
   | (b1, Some (k, g)) \<Rightarrow> b1 = pruneLocked now b \<and> k = tok \<and> live now b k = Some g \<and> g_Scope g = scope"
  using assms by (auto simp: findMatch_def Let_def map_of_prune covers_def matchesScope_eq split: option.splits)

lemma wf_use [simp]: "wf_broker b \<Longrightarrow> wf_broker (use_grant k g b)"
  by (simp add: wf_broker_def use_grant_def)

lemma live_use: "live t (use_grant k g b) = (live t b)(k := None)"
  by (rule ext) (simp add: live_def use_grant_def)


text \<open>The simulation relation: from now on the broker's usable grants are those of the abstract
  state. Pruning is invisible to it.\<close>

definition simulates :: "int \<Rightarrow> Broker \<Rightarrow> approvals \<Rightarrow> bool" where
  "simulates now b A \<longleftrightarrow> wf_broker b \<and> (\<forall>t. now \<le> t \<longrightarrow> live t b = at_time t A)"

lemma simulatesI: "wf_broker b \<Longrightarrow> (\<And>t. now \<le> t \<Longrightarrow> live t b = at_time t A) \<Longrightarrow> simulates now b A"
  by (simp add: simulates_def)

lemma simulates_live: "simulates now b A \<Longrightarrow> now \<le> t \<Longrightarrow> live t b = at_time t A"
  by (simp add: simulates_def)

lemma simulates_wf: "simulates now b A \<Longrightarrow> wf_broker b"
  by (simp add: simulates_def)

lemma at_time_drop: "at_time t (A(k := None)) = (at_time t A)(k := None)"
  by (rule ext) (simp add: at_time_def)

lemma simulates_prune:
  assumes "simulates t0 b A" and "t0 \<le> now"
  shows "simulates now (pruneLocked now b) A"
proof (rule simulatesI)
  show "wf_broker (pruneLocked now b)" using simulates_wf [OF assms(1)] by simp
  fix t assume "now \<le> t"
  then show "live t (pruneLocked now b) = at_time t A"
    using simulates_live [OF assms(1), of t] simulates_wf [OF assms(1)] assms(2) by (simp add: live_prune)
qed

lemma simulates_use:
  assumes "simulates now b A"
  shows "simulates now (use_grant k g b) (A(k := None))"
proof (rule simulatesI)
  show "wf_broker (use_grant k g b)" using simulates_wf [OF assms] by simp
  fix t assume "now \<le> t"
  then show "live t (use_grant k g b) = at_time t (A(k := None))"
    using simulates_live [OF assms, of t] by (simp add: live_use at_time_drop)
qed

lemma simulates_add:
  assumes "simulates now b A" and "\<not> g_Used g"
  shows "simulates now (b\<lparr>grants := AList.update k g (grants b)\<rparr>) (A(k \<mapsto> g))"
proof (rule simulatesI)
  show "wf_broker (b\<lparr>grants := AList.update k g (grants b)\<rparr>)"
    using simulates_wf [OF assms(1)] by (simp add: wf_broker_def)
  fix t assume "now \<le> t"
  then have "live t b = at_time t A" using simulates_live [OF assms(1)] by blast
  then show "live t (b\<lparr>grants := AList.update k g (grants b)\<rparr>) = at_time t (A(k \<mapsto> g))"
    using assms(2) by (intro ext) (auto simp: live_def at_time_def fun_eq_iff)
qed

lemma simulates_later: "simulates t0 b A \<Longrightarrow> t0 \<le> now \<Longrightarrow> simulates now b A"
  by (simp add: simulates_def)

lemma step_grant:
  assumes "simulates t0 b A" and "t0 \<le> now"
    and "run_op sha now (OpGrant rand scope approver ttl) b = (r, b')"
  shows "\<exists>A'. a_step sha now (OpGrant rand scope approver ttl) r A A' \<and> simulates now b' A'"
proof (cases "sc_Action scope = '''' \<or> approver = '''' \<or> ttl \<le> 0 \<or> isl rand")
  case True
  then obtain e where "r = OGrant (Inl e)" "b' = b"
    using assms(3) by (auto simp: broker_Grant_def generateToken_def split: if_splits sum.splits)
  then show ?thesis
    using a_step.refused [OF True, of sha now e A] simulates_later [OF assms(1,2)] by blast
next
  case False
  then obtain tok where tok: "rand = Inr tok" by (cases rand) auto
  define g where "g = \<lparr>g_Token = tok, g_TokenHash = sha tok, g_Scope = scope, g_ApprovedBy = approver,
           g_ApprovedAt = now, g_ExpiresAt = now + ttl, g_Used = False\<rparr>"
  have r: "r = OGrant (Inr g)"
    and b': "b' = (pruneLocked now b)\<lparr>grants := AList.update tok g (grants (pruneLocked now b))\<rparr>"
    using assms(3) False tok by (auto simp: broker_Grant_def generateToken_def Let_def g_def)
  have "a_step sha now (OpGrant rand scope approver ttl) r A (A(tok \<mapsto> g))"
    using False unfolding r tok by (intro a_step.grant) (auto simp: g_def)
  moreover have "simulates now b' (A(tok \<mapsto> g))"
    unfolding b' by (rule simulates_add [OF simulates_prune [OF assms(1,2)]]) (simp add: g_def)
  ultimately show ?thesis by blast
qed

lemma step_check:
  assumes "simulates t0 b A" and "t0 \<le> now" and "run_op sha now (OpCheck scope) b = (r, b')"
  shows "\<exists>A'. a_step sha now (OpCheck scope) r A A' \<and> simulates now b' A'"
proof -
  note p = simulates_prune [OF assms(1,2)]
  note f = findMatch_scope [OF simulates_wf [OF assms(1)], of now scope,
      unfolded simulates_live [OF assms(1,2)]]
  obtain b1 m where m: "findMatch now '''' scope b = (b1, m)" by (cases "findMatch now '''' scope b")
  show ?thesis
  proof (cases m)
    case None
    then have "r = OStatus StatusApprovalRequired" "b' = pruneLocked now b"
      and "\<nexists>k. covers (at_time now A) k scope"
      using f assms(3) m by (auto simp: Check_def)
    then show ?thesis using p a_step.denied by blast
  next
    case (Some e)
    then obtain k g where "r = OStatus StatusPass" "b' = use_grant k g (pruneLocked now b)"
      and "earliest (at_time now A) scope k"
      using f assms(3) m by (cases e) (auto simp: Check_def)
    then show ?thesis using simulates_use [OF p] a_step.pass by blast
  qed
qed

lemma step_check_token:
  assumes "simulates t0 b A" and "t0 \<le> now" and "run_op sha now (OpCheckToken tok scope) b = (r, b')"
  shows "\<exists>A'. a_step sha now (OpCheckToken tok scope) r A A' \<and> simulates now b' A'"
proof (cases "tok = ''''")
  case True
  then have "r = OStatus StatusApprovalRequired" "b' = b" using assms(3) by (auto simp: CheckToken_def)
  then show ?thesis using True a_step.denied_token simulates_later [OF assms(1,2)] by blast
next
  case ne: False
  note p = simulates_prune [OF assms(1,2)]
  note f = findMatch_token [OF simulates_wf [OF assms(1)] ne, of now scope,
      unfolded simulates_live [OF assms(1,2)]]
  obtain b1 m where m: "findMatch now tok scope b = (b1, m)" by (cases "findMatch now tok scope b")
  show ?thesis
  proof (cases m)
    case None
    then have "r = OStatus StatusApprovalRequired" "b' = pruneLocked now b"
      and "\<not> covers (at_time now A) tok scope"
      using f assms(3) m ne by (auto simp: CheckToken_def)
    then show ?thesis using p a_step.denied_token by blast
  next
    case (Some e)
    then obtain g where "r = OStatus StatusPass" "b' = use_grant tok g (pruneLocked now b)"
      and "covers (at_time now A) tok scope"
      using f assms(3) m ne by (cases e) (auto simp: CheckToken_def covers_def)
    then show ?thesis using simulates_use [OF p] a_step.pass_token [OF ne] by blast
  qed
qed

lemma step_dry:
  assumes "simulates t0 b A" and "t0 \<le> now" and "run_op sha now (OpDryRun scope) b = (r, b')"
  shows "a_step sha now (OpDryRun scope) r A A \<and> simulates now b' A"
proof -
  note f = findMatch_scope [OF simulates_wf [OF assms(1)], of now scope,
      unfolded simulates_live [OF assms(1,2)]]
  have "b' = pruneLocked now b"
    using assms(3) by (auto simp: DryRunCheck_def findMatch_def Let_def)
  moreover have "r = OStatus (if \<exists>k. covers (at_time now A) k scope then StatusPass else StatusApprovalRequired)"
    using f assms(3) by (auto simp: DryRunCheck_def covers_def earliest_def split: prod.splits option.splits)
  ultimately show ?thesis using simulates_prune [OF assms(1,2)] a_step.dry by blast
qed

lemma step_dry_token:
  assumes "simulates t0 b A" and "t0 \<le> now" and "run_op sha now (OpDryRunToken tok scope) b = (r, b')"
  shows "a_step sha now (OpDryRunToken tok scope) r A A \<and> simulates now b' A"
proof (cases "tok = ''''")
  case True
  then have "r = OStatus StatusApprovalRequired" "b' = b" using assms(3) by (auto simp: DryRunCheckToken_def)
  then show ?thesis
    using True a_step.dry_token [of StatusApprovalRequired tok] simulates_later [OF assms(1,2)] by simp
next
  case ne: False
  note f = findMatch_token [OF simulates_wf [OF assms(1)] ne, of now scope,
      unfolded simulates_live [OF assms(1,2)]]
  have "b' = pruneLocked now b"
    using assms(3) ne by (auto simp: DryRunCheckToken_def findMatch_def Let_def)
  moreover have "r = OStatus (if tok \<noteq> '''' \<and> covers (at_time now A) tok scope
                              then StatusPass else StatusApprovalRequired)"
    using f assms(3) ne by (auto simp: DryRunCheckToken_def covers_def split: prod.splits option.splits)
  ultimately show ?thesis using simulates_prune [OF assms(1,2)] a_step.dry_token by blast
qed

lemma step_active:
  assumes "simulates t0 b A" and "t0 \<le> now" and "run_op sha now OpActive b = (r, b')"
  shows "a_step sha now OpActive r A A \<and> simulates now b' A"
proof -
  let ?gs = "sort_key grant_key (map snd (grants (pruneLocked now b)))"
  have "r = OGrants ?gs" "b' = pruneLocked now b"
    using assms(3) by (auto simp: ActiveGrants_def Let_def)
  moreover have "set ?gs = ran (at_time now A)"
    using in_prune [OF simulates_wf [OF assms(1)], of _ _ now] simulates_live [OF assms(1,2)]
    by (force simp: ran_def)
  ultimately show ?thesis
    using simulates_prune [OF assms(1,2)] a_step.active [of ?gs] by simp
qed

lemma broker_step_refines:
  assumes "simulates t0 b A" and "t0 \<le> now" and "run_op sha now op b = (r, b')"
  shows "\<exists>A'. a_step sha now op r A A' \<and> simulates now b' A'"
proof (cases op)
  case (OpGrant x1 x2 x3 x4)
  then show ?thesis using step_grant [OF assms(1,2)] assms(3) by blast
next
  case (OpCheck x2)
  then show ?thesis using step_check [OF assms(1,2)] assms(3) by blast
next
  case (OpCheckToken x1 x2)
  then show ?thesis using step_check_token [OF assms(1,2)] assms(3) by blast
next
  case (OpDryRun x2)
  then show ?thesis using step_dry [OF assms(1,2)] assms(3) by blast
next
  case (OpDryRunToken x1 x2)
  then show ?thesis using step_dry_token [OF assms(1,2)] assms(3) by blast
next
  case OpActive
  then show ?thesis using step_active [OF assms(1,2)] assms(3) by blast
qed

lemma broker_run_refines:
  assumes "simulates t0 b A" and "sorted (t0 # map fst ops)" and "run_ops sha ops b = (rs, b')"
  shows "\<exists>A'. a_run sha ops rs A A'"
  using assms
proof (induction ops arbitrary: t0 b A rs b')
  case Nil
  then show ?case by (auto intro: a_run.nothing)
next
  case (Cons x ops)
  obtain now op where x: "x = (now, op)" by (cases x)
  obtain r b1 where s: "run_op sha now op b = (r, b1)" by (cases "run_op sha now op b")
  obtain rs1 b2 where t: "run_ops sha ops b1 = (rs1, b2)" by (cases "run_ops sha ops b1")
  have le: "t0 \<le> now" and so: "sorted (now # map fst ops)" using Cons.prems(2) x by auto
  obtain A1 where A1: "a_step sha now op r A A1" and sim: "simulates now b1 A1"
    using broker_step_refines [OF Cons.prems(1) le s] by blast
  obtain A2 where "a_run sha ops rs1 A1 A2" using Cons.IH [OF sim so t] by blast
  moreover have "rs = r # rs1" using Cons.prems(3) x s t by simp
  ultimately show ?case using a_run.one_more [OF A1] x by blast
qed

text \<open>C22. The broker refines the abstract approvals. Over any sequence of operations at
  non-decreasing times, started from a new broker, its answers are answers of the abstract state:
  a check passes exactly when some issued, unconsumed, unexpired grant has the scope itself, it
  consumes the earliest such grant and nothing else, a check by token consumes exactly that grant,
  dry runs consume nothing, the listing shows exactly the usable grants in order, and the pruning
  of the table is never observable.\<close>

theorem broker_refines:
  assumes "sorted (map fst ops)" and "run_ops sha ops NewBroker = (rs, b)"
  shows "\<exists>A. a_run sha ops rs Map.empty A"
proof (cases ops)
  case Nil
  then show ?thesis using assms by (auto intro: a_run.nothing)
next
  case (Cons x xs)
  have "simulates (fst x) NewBroker Map.empty"
    by (rule simulatesI) (simp_all add: live_def [abs_def] at_time_def [abs_def] NewBroker_def wf_broker_def)
  moreover have "sorted (fst x # map fst ops)" using assms(1) Cons by simp
  ultimately show ?thesis using broker_run_refines assms(2) by blast
qed


definition ex_scope :: Scope where
  "ex_scope = \<lparr>sc_Action = ''push'', sc_Resource = ''main''\<rparr>"

definition ex_ops :: "(int \<times> broker_op) list" where
  "ex_ops = [(10, OpGrant (Inr ''t1'') ex_scope ''ann'' 5), (12, OpCheck ex_scope), (13, OpCheck ex_scope)]"

lemma ex_ops_run:
  "run_ops id ex_ops NewBroker =
     ([OGrant (Inr \<lparr>g_Token = ''t1'', g_TokenHash = ''t1'', g_Scope = ex_scope, g_ApprovedBy = ''ann'',
         g_ApprovedAt = 10, g_ExpiresAt = 15, g_Used = False\<rparr>),
       OStatus StatusPass, OStatus StatusApprovalRequired], NewBroker)"
  by code_simp

theorem broker_refines_witness:
  "\<exists>A. a_run id ex_ops (fst (run_ops id ex_ops NewBroker)) Map.empty A"
  using broker_refines [of ex_ops id "fst (run_ops id ex_ops NewBroker)" "snd (run_ops id ex_ops NewBroker)"]
  by (simp add: ex_ops_def)


section \<open>Single use\<close>

definition unused_for :: "Scope \<Rightarrow> Broker \<Rightarrow> nat" where
  "unused_for scope b = length (filter (\<lambda>(k, g). \<not> g_Used g \<and> g_Scope g = scope) (grants b))"

fun issues :: "Scope \<Rightarrow> (int \<times> broker_op) \<times> outcome \<Rightarrow> bool" where
  "issues scope ((_, OpGrant _ s _ _), OGrant (Inr _)) = (s = scope)"
| "issues scope _ = False"

fun consumes :: "Scope \<Rightarrow> (int \<times> broker_op) \<times> outcome \<Rightarrow> bool" where
  "consumes scope ((_, OpCheck s), OStatus st) = (s = scope \<and> st = StatusPass)"
| "consumes scope ((_, OpCheckToken _ s), OStatus st) = (s = scope \<and> st = StatusPass)"
| "consumes scope _ = False"

definition how_many :: "('a \<Rightarrow> bool) \<Rightarrow> 'a list \<Rightarrow> nat" where
  "how_many P xs = length (filter P xs)"

lemma unused_prune: "unused_for scope (pruneLocked now b) \<le> unused_for scope b"
proof -
  have "length (filter Q (filter P m)) \<le> length (filter Q m)" for P Q and m :: "Grant gomap"
    by (induction m) auto
  then show ?thesis unfolding unused_for_def pruneLocked_def by simp
qed

lemma count_update:
  "length (filter (\<lambda>(k, g). P g) (AList.update k v m)) \<le>
   length (filter (\<lambda>(k, g). P g) m) + (if P v then 1 else 0)"
  by (induction m) auto

lemma unused_add:
  "unused_for scope (b\<lparr>grants := AList.update k g (grants b)\<rparr>) \<le> unused_for scope b + of_bool (g_Scope g = scope)"
  using count_update [of "\<lambda>g. \<not> g_Used g \<and> g_Scope g = scope" k g "grants b"]
  by (auto simp: unused_for_def split: if_splits)

lemma count_update_drop:
  "map_of m k = Some g \<Longrightarrow> P g \<Longrightarrow> \<not> P v \<Longrightarrow>
   Suc (length (filter (\<lambda>(k, g). P g) (AList.update k v m))) = length (filter (\<lambda>(k, g). P g) m)"
  by (induction m) auto

lemma unused_use:
  assumes "map_of (grants b) k = Some g" and "\<not> g_Used g"
  shows "unused_for scope (use_grant k g b) + (if g_Scope g = scope then 1 else 0) \<le> unused_for scope b"
proof (cases "g_Scope g = scope")
  case True
  then show ?thesis
    using count_update_drop [OF assms(1), of "\<lambda>g. \<not> g_Used g \<and> g_Scope g = scope" "g\<lparr>g_Used := True\<rparr>"] assms(2)
    by (simp add: unused_for_def use_grant_def)
next
  case False
  then show ?thesis
    using count_update [of "\<lambda>g. \<not> g_Used g \<and> g_Scope g = scope" k "g\<lparr>g_Used := True\<rparr>" "grants b"]
    by (simp add: unused_for_def use_grant_def)
qed

lemma live_unused: "live now b k = Some g \<Longrightarrow> \<not> g_Used g"
  by (auto simp: live_def split: option.splits if_splits)

lemma unused_consume:
  assumes "wf_broker b" and "live now b k = Some g"
  shows "unused_for scope (use_grant k g (pruneLocked now b)) + (if g_Scope g = scope then 1 else 0)
         \<le> unused_for scope b"
  using unused_use [of "pruneLocked now b" k g scope] live_unused [OF assms(2)] assms
    unused_prune [of scope now b] by (simp add: map_of_prune)

lemma unused_consume_same:
  "wf_broker b \<Longrightarrow> live now b k = Some g \<Longrightarrow>
   Suc (unused_for (g_Scope g) (use_grant k g (pruneLocked now b))) \<le> unused_for (g_Scope g) b"
  using unused_consume [of b now k g "g_Scope g"] by simp

lemma unused_consume_any:
  "wf_broker b \<Longrightarrow> live now b k = Some g \<Longrightarrow>
   unused_for scope (use_grant k g (pruneLocked now b)) \<le> unused_for scope b"
  using unused_consume [of b now k g scope] by (simp split: if_splits)

lemma step_uses:
  assumes "wf_broker b" and "run_op sha now op b = (r, b')"
  shows "unused_for scope b' + of_bool (consumes scope ((now, op), r))
         \<le> unused_for scope b + of_bool (issues scope ((now, op), r)) \<and> wf_broker b'"
proof (cases op)
  case (OpGrant rand s approver ttl)
  let ?b1 = "pruneLocked now b"
  show ?thesis
  proof (cases "sc_Action s = '''' \<or> approver = '''' \<or> ttl \<le> 0 \<or> isl rand")
    case True
    then show ?thesis using assms OpGrant
      by (auto simp: broker_Grant_def generateToken_def split: if_splits sum.splits)
  next
    case False
    then obtain tok where "rand = Inr tok" by (cases rand) auto
    define g where "g = \<lparr>g_Token = tok, g_TokenHash = sha tok, g_Scope = s, g_ApprovedBy = approver,
           g_ApprovedAt = now, g_ExpiresAt = now + ttl, g_Used = False\<rparr>"
    then have "g_Scope g = s" by simp
    moreover have "r = OGrant (Inr g)"
      and b': "b' = ?b1\<lparr>grants := AList.update tok g (grants ?b1)\<rparr>"
      using assms OpGrant False \<open>rand = Inr tok\<close>
      by (auto simp: broker_Grant_def generateToken_def Let_def g_def)
    moreover have "wf_broker b'" using wf_prune [OF assms(1), of now] b' by (simp add: wf_broker_def)
    ultimately show ?thesis
      using OpGrant unused_prune [of scope now b] unused_add [where scope = scope and b = ?b1 and k = tok and g = g] by simp
  qed
next
  case (OpCheck s)
  then show ?thesis
    using findMatch_scope [OF assms(1), of now s] assms unused_prune [of scope now b]
    by (auto simp: Check_def earliest_def status_defs intro: unused_consume_same unused_consume_any
        split: prod.splits option.splits)
next
  case (OpCheckToken tok s)
  then show ?thesis
    using findMatch_token [OF assms(1), of tok now s] assms unused_prune [of scope now b]
    by (auto simp: CheckToken_def status_defs intro: unused_consume_same unused_consume_any
        split: prod.splits option.splits if_splits)
next
  case (OpDryRun s)
  then show ?thesis using assms unused_prune [of scope now b]
    by (auto simp: DryRunCheck_def findMatch_def Let_def)
next
  case (OpDryRunToken tok s)
  then show ?thesis using assms unused_prune [of scope now b]
    by (auto simp: DryRunCheckToken_def findMatch_def Let_def split: if_splits)
next
  case OpActive
  then show ?thesis using assms unused_prune [of scope now b]
    by (auto simp: ActiveGrants_def Let_def)
qed


lemma run_uses:
  assumes "wf_broker b" and "run_ops sha ops b = (rs, b')"
  shows "unused_for scope b' + how_many (consumes scope) (zip ops rs)
         \<le> unused_for scope b + how_many (issues scope) (zip ops rs)"
  using assms
proof (induction ops arbitrary: b rs)
  case Nil
  then show ?case by (simp add: how_many_def)
next
  case (Cons x ops)
  obtain now op where x: "x = (now, op)" by (cases x)
  obtain r b1 where s: "run_op sha now op b = (r, b1)" by (cases "run_op sha now op b")
  obtain rs1 b2 where t: "run_ops sha ops b1 = (rs1, b2)" by (cases "run_ops sha ops b1")
  have u: "unused_for scope b1 + of_bool (consumes scope ((now, op), r))
         \<le> unused_for scope b + of_bool (issues scope ((now, op), r))" and wf: "wf_broker b1"
    using step_uses [OF Cons.prems(1) s] by blast+
  have rs: "rs = r # rs1" and b': "b' = b2" using Cons.prems(2) x s t by auto
  have h: "how_many P (zip (x # ops) rs) = of_bool (P ((now, op), r)) + how_many P (zip ops rs1)" for P
    using x rs by (simp add: how_many_def)
  show ?case using Cons.IH [OF wf] t u unfolding h b' by fastforce
qed

text \<open>C23. A grant authorises at most one action. Over any sequence of operations on a new broker,
  whatever the clock does and even if a token were drawn twice, the checks of a scope that passed,
  with or without a token, are never more than the grants issued for exactly that scope.\<close>

theorem broker_single_use:
  assumes "run_ops sha ops NewBroker = (rs, b)"
  shows "how_many (consumes scope) (zip ops rs) \<le> how_many (issues scope) (zip ops rs)"
  using run_uses [OF wf_NewBroker assms, of scope] by (simp add: unused_for_def NewBroker_def)

theorem broker_single_use_witness:
  "how_many (consumes ex_scope) (zip ex_ops (fst (run_ops id ex_ops NewBroker))) = 1 \<and>
   how_many (consumes ex_scope) (zip ex_ops (fst (run_ops id ex_ops NewBroker))) \<le>
     how_many (issues ex_scope) (zip ex_ops (fst (run_ops id ex_ops NewBroker)))"
  using broker_single_use [of id ex_ops _ _ ex_scope, OF prod.collapse [symmetric]]
  by (simp add: ex_ops_run) (simp add: ex_ops_def how_many_def)


section \<open>The store\<close>

lemma tmp_path_ne [simp]: "tmp_path p \<noteq> p" "p \<noteq> tmp_path p"
  by (simp_all add: tmp_path_def)

lemma restored_stored: "g_TokenHash g = sha (g_Token g) \<Longrightarrow> restored sha (stored g) = g"
  by (simp add: restored_def stored_def)

text \<open>The tables a broker builds: distinct tokens, each grant filed under its own token and with
  the hash of that token.\<close>

definition filed :: "(string \<Rightarrow> string) \<Rightarrow> Broker \<Rightarrow> bool" where
  "filed sha b \<longleftrightarrow> wf_broker b \<and> list_all (\<lambda>(k, g). k = g_Token g \<and> g_TokenHash g = sha (g_Token g)) (grants b)"

lemma Load_grants_snoc:
  "Load_grants sha (ss @ [s]) = (Load_grants sha ss)\<lparr>grants := AList.update (sg_Token s) (restored sha s) (grants (Load_grants sha ss))\<rparr>"
  by (simp add: Load_grants_def)

lemma Load_stored:
  "distinct (map fst m) \<Longrightarrow> list_all (\<lambda>(k, g). k = g_Token g \<and> g_TokenHash g = sha (g_Token g)) m \<Longrightarrow>
   Load_grants sha (map (stored \<circ> snd) m) = \<lparr>grants = m\<rparr>"
proof (induction m rule: rev_induct)
  case Nil
  then show ?case by (simp add: Load_grants_def NewBroker_def)
next
  case (snoc e m)
  obtain k g where e: "e = (k, g)" by (cases e)
  have "restored sha (stored g) = g" and "sg_Token (stored g) = k" and "k \<notin> fst ` set m"
    using snoc.prems e restored_stored by (auto simp: stored_def)
  then show ?case using snoc e by (simp add: Load_grants_snoc update_fresh)
qed

text \<open>C24. Saving and loading is lossless and never exposes a partial file. With a JSON encoding
  that decodes its own output, a successful save leaves a file from which \<open>Load\<close> rebuilds the same
  broker, used and expired grants included; and in every state of the disk during a save, failed or
  not, the store's file has either its old content or the complete new one.\<close>

theorem Save_Load:
  assumes json: "\<And>gs data. marshal gs = Inr data \<Longrightarrow> unmarshal data = Inr gs"
    and "filed sha b" and "Save marshal env path b d = (err, ds)"
  shows "(err = None \<longrightarrow> Load sha unmarshal None path (last ds) = Inr b) \<and>
    (\<forall>d' \<in> set ds. d' path = d path \<or>
       (\<exists>data. marshal (map (stored \<circ> snd) (grants b)) = Inr data \<and> d' path = Some data)) \<and>
    (err \<noteq> None \<longrightarrow> last ds path = d path)"
proof -
  have load: "Load_grants sha (map (stored \<circ> snd) (grants b)) = b"
    using assms(2) Load_stored [of "grants b" sha] by (cases b) (simp add: filed_def wf_broker_def)
  show ?thesis
    using assms(3) load
    by (auto simp: Save_def Load_def Let_def dest: json split: sum.splits option.splits prod.splits)
qed


definition ex_grant :: Grant where
  "ex_grant = \<lparr>g_Token = ''t1'', g_TokenHash = ''t1'', g_Scope = ex_scope, g_ApprovedBy = ''ann'',
     g_ApprovedAt = 10, g_ExpiresAt = 15, g_Used = True\<rparr>"

definition ex_marshal :: "storedGrant list \<Rightarrow> string result" where
  "ex_marshal gs = (if gs = [stored ex_grant] then Inr ''json'' else Inl ErrNotExist)"

definition ex_unmarshal :: "string \<Rightarrow> storedGrant list result" where
  "ex_unmarshal data = (if data = ''json'' then Inr [stored ex_grant] else Inl ErrNotExist)"

definition no_faults :: save_env where
  "no_faults = \<lparr>mkdir_err = None, write_err = None, rename_err = None\<rparr>"

definition ex_broker :: Broker where
  "ex_broker = \<lparr>grants = [(''t1'', ex_grant)]\<rparr>"

theorem Save_Load_witness:
  "fst (Save ex_marshal no_faults ''p'' ex_broker (\<lambda>_. None)) = None \<and>
   Load id ex_unmarshal None ''p'' (last (snd (Save ex_marshal no_faults ''p'' ex_broker (\<lambda>_. None))))
     = Inr ex_broker"
proof -
  have ok: "fst (Save ex_marshal no_faults ''p'' ex_broker (\<lambda>_. None)) = None"
    by (simp add: Save_def ex_marshal_def no_faults_def ex_broker_def Let_def)
  have json: "ex_unmarshal data = Inr gs" if "ex_marshal gs = Inr data" for gs data
    using that by (auto simp: ex_marshal_def ex_unmarshal_def split: if_splits)
  have filed: "filed id ex_broker"
    by (simp add: filed_def wf_broker_def ex_broker_def ex_grant_def)
  show ?thesis
    using ok Save_Load [where marshal = ex_marshal and unmarshal = ex_unmarshal and sha = id
        and b = ex_broker and env = no_faults and path = "''p''" and d = "\<lambda>_. None",
        OF json filed prod.collapse [symmetric]] by simp
qed

end
