(* ===== verification/PatchApply.thy ===== *)
theory PatchApply
  imports FileSystem Approval
begin

text \<open>
  Package \<open>patchapply\<close>: applying a batch of file changes atomically, with a journal to roll it back.
  The path rules, the approval gate, the capture of the current state, the writes through a
  temporary file and a rename, the rollback and the verification follow the source step by step
  over the file system of \<open>FileSystem\<close>; \<open>targetDir\<close> is a cleaned absolute path, given by its
  components. A byte slice is a string, and an option of one where the code tells nil from empty.
\<close>

section \<open>Records\<close>

definition ErrEmptyPath :: gerror where
  "ErrEmptyPath = Sentinel ''patchapply: path must not be empty''"

definition ErrAbsolutePath :: gerror where
  "ErrAbsolutePath = Sentinel ''patchapply: path must be relative to targetDir, not absolute''"

definition ErrPathTraversal :: gerror where
  "ErrPathTraversal = Sentinel ''patchapply: path escapes targetDir''"

definition ErrApprovalRequired :: gerror where
  "ErrApprovalRequired = Sentinel ''patchapply: approval required''"

definition ErrPriorContentMismatch :: gerror where
  "ErrPriorContentMismatch = Sentinel ''patchapply: prior content mismatch''"

definition ErrJournalNotRestorable :: gerror where
  "ErrJournalNotRestorable = Sentinel (''patchapply: journal entry claims the path existed but has no '' @
     ''original content to restore (was this Journal serialized and reloaded? see the package doc comment)'')"

record FileChange =
  ch_Path :: string
  ch_NewContent :: string
  ch_Delete :: bool
  ch_ExpectedPriorContent :: "string option"

record ApplyOptions =
  ao_Broker :: "Broker option"
  ao_Scope :: Scope
  ao_Token :: string

datatype EntryOutcome = OutcomeUnset | OutcomeWritten | OutcomeDeleted | OutcomeNoop

record JournalEntry =
  je_Path :: string
  je_ExistedBefore :: bool
  je_OriginalContent :: "string option"
  je_Outcome :: EntryOutcome
  je_OriginalMode :: nat
  je_CreatedDir :: "path option"

record Journal =
  j_TargetDir :: "path option"
  j_Entries :: "JournalEntry list"

definition outcome_text :: "EntryOutcome \<Rightarrow> string" where
  "outcome_text out = (case out of OutcomeUnset \<Rightarrow> '''' | OutcomeWritten \<Rightarrow> ''written''
     | OutcomeDeleted \<Rightarrow> ''deleted'' | OutcomeNoop \<Rightarrow> ''noop'')"

definition path_text :: "path \<Rightarrow> string" where
  "path_text p = (if p = [] then ''/'' else concat (map (\<lambda>c. CHR ''/'' # c) p))"

definition entry_text :: "JournalEntry \<Rightarrow> string" where
  "entry_text e = je_Path e @ ''(existed_before='' @ (if je_ExistedBefore e then ''true'' else ''false'') @
     '',outcome='' @ outcome_text (je_Outcome e) @ '')''"

definition Journal_String :: "Journal \<Rightarrow> string" where
  "Journal_String j = ''Journal{target_dir='' @ (case j_TargetDir j of None \<Rightarrow> '''' | Some d \<Rightarrow> path_text d) @ '' entries=['' @
     strings_Join (map entry_text (j_Entries j)) '', '' @ '']}''"


section \<open>Content previews\<close>

definition patch_redact :: "string \<Rightarrow> string" where
  "patch_redact s = fst (redact_loop s False secretPatterns)"

definition maxPreviewBytes :: nat where
  "maxPreviewBytes = 200"

definition previewContent :: "string option \<Rightarrow> string" where
  "previewContent content = (case content of
     None \<Rightarrow> ''<absent>''
   | Some c \<Rightarrow>
     if c = '''' then ''<empty>''
     else let s = patch_redact c in
       if length s > maxPreviewBytes then take maxPreviewBytes s @ ''...(truncated)'' else s)"


section \<open>Paths\<close>

definition isWithin :: "path \<Rightarrow> path \<Rightarrow> bool" where
  "isWithin base target \<longleftrightarrow> target = base \<or> (base \<noteq> [] \<and> take (length base) target = base)"

function verifyNoSymlinkEscape :: "path \<Rightarrow> path \<Rightarrow> world \<Rightarrow> unit result \<times> world" where
  "verifyNoSymlinkEscape target dir w =
     (case os_EvalSymlinks dir w of
        (Inr resolved, w1) \<Rightarrow>
          if \<not> isWithin target resolved
          then (Inl (Errorf [Wrapped ErrPathTraversal, Lit '': resolves outside targetDir via a symlink'']), w1)
          else (Inr (), w1)
      | (Inl e, w1) \<Rightarrow>
          if \<not> IsNotExist e
          then (Inl (Errorf [Lit ''patchapply: resolving '', Quoted (path_text dir), Lit '': '', Wrapped e]), w1)
          else if dir = [] then (Inr (), w1)
          else verifyNoSymlinkEscape target (butlast dir) w1)"
  by pat_completeness auto
termination verifyNoSymlinkEscape
  by (relation "measure (\<lambda>(_, dir, _). length dir)") (auto simp: length_greater_0_conv [symmetric] simp del: length_greater_0_conv)

declare verifyNoSymlinkEscape.simps [simp del]

definition resolvedPath :: "path \<Rightarrow> string \<Rightarrow> world \<Rightarrow> path result \<times> world" where
  "resolvedPath target rel w =
     (if rel = '''' then (Inl ErrEmptyPath, w)
      else if IsAbs rel then (Inl (Errorf [Wrapped ErrAbsolutePath, Lit '': '', Quoted rel]), w)
      else let cleaned = Clean_comps rel in
        if cleaned \<noteq> [] \<and> hd cleaned = ''..''
        then (Inl (Errorf [Wrapped ErrPathTraversal, Lit '': '', Quoted rel]), w)
        else if cleaned = []
        then (Inl (Errorf [Wrapped ErrPathTraversal, Lit '': '', Quoted rel, Lit '' refers to the target directory itself'']), w)
        else let full = target @ cleaned in
          if \<not> isWithin target full
          then (Inl (Errorf [Wrapped ErrPathTraversal, Lit '': '', Quoted rel]), w)
          else case verifyNoSymlinkEscape target full w of
                 (Inl e, w1) \<Rightarrow> (Inl e, w1)
               | (Inr _, w1) \<Rightarrow> (Inr full, w1))"

definition change_error :: "nat \<Rightarrow> string \<Rightarrow> msg_part list \<Rightarrow> gerror" where
  "change_error i path parts = Errorf ([Lit ''patchapply: change '', Num (int i), Lit '' ('', Quoted path, Lit ''): ''] @ parts)"

fun validate_paths :: "path \<Rightarrow> nat \<Rightarrow> path list \<Rightarrow> FileChange list \<Rightarrow> world \<Rightarrow> path list result \<times> world" where
  "validate_paths target i seen [] w = (Inr seen, w)"
| "validate_paths target i seen (c # cs) w =
     (case resolvedPath target (ch_Path c) w of
        (Inl e, w1) \<Rightarrow> (Inl (change_error i (ch_Path c) [Wrapped e]), w1)
      | (Inr full, w1) \<Rightarrow>
          if full \<in> set seen
          then (Inl (Errorf [Lit ''patchapply: change '', Num (int (length (takeWhile (\<lambda>p. p \<noteq> full) seen))),
                  Lit '' and change '', Num (int i), Lit '' both target '', Quoted (ch_Path c)]), w1)
          else validate_paths target (Suc i) (seen @ [full]) cs w1)"

definition validateChangePaths :: "path \<Rightarrow> FileChange list \<Rightarrow> world \<Rightarrow> path list result \<times> world" where
  "validateChangePaths target changes w = validate_paths target 0 [] changes w"

definition resolveTargetDir :: "path \<Rightarrow> world \<Rightarrow> (path \<times> node) result \<times> world" where
  "resolveTargetDir targetDir w =
     (case os_EvalSymlinks targetDir w of
        (Inl e, w1) \<Rightarrow> (Inl (Errorf [Lit ''patchapply: resolving targetDir '', Quoted (path_text targetDir), Lit '': '', Wrapped e]), w1)
      | (Inr real, w1) \<Rightarrow>
        (case os_Stat real w1 of
           (Inl e, w2) \<Rightarrow> (Inl (Errorf [Lit ''patchapply: statting targetDir '', Quoted (path_text targetDir), Lit '': '', Wrapped e]), w2)
         | (Inr info, w2) \<Rightarrow> (Inr (real, info), w2)))"


section \<open>Approval\<close>

definition batchResource :: "(string \<Rightarrow> string) \<Rightarrow> string list \<Rightarrow> string" where
  "batchResource sha256 paths = sha256 (strings_Join (sort paths) [CHR 0x00])"

definition BatchScope :: "(string \<Rightarrow> string) \<Rightarrow> string \<Rightarrow> string list \<Rightarrow> Scope" where
  "BatchScope sha256 action paths = \<lparr>sc_Action = action, sc_Resource = batchResource sha256 paths\<rparr>"

definition checkBrokerScope :: "int \<Rightarrow> string \<Rightarrow> Scope \<Rightarrow> Broker \<Rightarrow> Status \<times> Broker" where
  "checkBrokerScope now token scope b =
     (if token \<noteq> '''' then CheckToken now token scope b else Check now scope b)"

definition approval_error :: "Scope \<Rightarrow> Status \<Rightarrow> gerror" where
  "approval_error scope st = Errorf [Lit ''patchapply: '', Wrapped ErrApprovalRequired,
     Lit '': scope='', Lit (Scope_String scope), Lit '' status='', Lit st]"

definition checkApproval ::
    "(string \<Rightarrow> string) \<Rightarrow> int \<Rightarrow> FileChange list \<Rightarrow> ApplyOptions \<Rightarrow> unit result \<times> Broker option" where
  "checkApproval sha256 now changes opts =
     (let paths = map ch_Path changes; hasDelete = list_ex ch_Delete changes in
      case ao_Broker opts of
        None \<Rightarrow>
          (if hasDelete
           then Inl (Errorf [Lit ''patchapply: '', Wrapped ErrApprovalRequired,
                  Lit '': batch contains a Delete change but no approval.Broker was configured''])
           else Inr (), None)
      | Some b \<Rightarrow>
        (let scope = BatchScope sha256 (sc_Action (ao_Scope opts)) paths in
         case checkBrokerScope now (ao_Token opts) scope b of
           (st, b') \<Rightarrow> (if st \<noteq> StatusPass then Inl (approval_error scope st) else Inr (), Some b')))"


section \<open>Reading and writing\<close>

definition readCurrent :: "path \<Rightarrow> world \<Rightarrow> (string option \<times> bool \<times> nat) result \<times> world" where
  "readCurrent p w =
     (case os_Stat p w of
        (Inl e, w1) \<Rightarrow> if IsNotExist e then (Inr (None, False, 0), w1) else (Inl e, w1)
      | (Inr info, w1) \<Rightarrow>
        (case os_ReadFile p w1 of
           (Inl e, w2) \<Rightarrow> (Inl e, w2)
         | (Inr c, w2) \<Rightarrow> (Inr (Some c, True, case info of File _ m \<Rightarrow> m | _ \<Rightarrow> 0), w2)))"

definition bytes_Equal :: "string option \<Rightarrow> string option \<Rightarrow> bool" where
  "bytes_Equal a b \<longleftrightarrow> (case a of None \<Rightarrow> '''' | Some x \<Rightarrow> x) = (case b of None \<Rightarrow> '''' | Some x \<Rightarrow> x)"

fun captureCurrentState :: "nat \<Rightarrow> FileChange list \<Rightarrow> path list \<Rightarrow> world \<Rightarrow> JournalEntry list result \<times> world" where
  "captureCurrentState i (c # cs) (full # fulls) w =
     (case readCurrent full w of
        (Inl e, w1) \<Rightarrow> (Inl (change_error i (ch_Path c) [Lit ''reading current content: '', Wrapped e]), w1)
      | (Inr (current, existed, mode), w1) \<Rightarrow>
          if ch_ExpectedPriorContent c \<noteq> None \<and> \<not> bytes_Equal current (ch_ExpectedPriorContent c)
          then (Inl (change_error i (ch_Path c) [Wrapped ErrPriorContentMismatch, Lit '': expected '',
                   Lit (previewContent (ch_ExpectedPriorContent c)), Lit '', found '', Lit (previewContent current)]), w1)
          else case captureCurrentState (Suc i) cs fulls w1 of
                 (Inl e, w2) \<Rightarrow> (Inl e, w2)
               | (Inr es, w2) \<Rightarrow>
                   (Inr (\<lparr>je_Path = ch_Path c, je_ExistedBefore = existed, je_OriginalContent = current,
                          je_Outcome = OutcomeUnset, je_OriginalMode = mode, je_CreatedDir = None\<rparr> # es), w2))"
| "captureCurrentState i _ _ w = (Inr [], w)"

definition applyDelete :: "path \<Rightarrow> bool \<Rightarrow> world \<Rightarrow> EntryOutcome result \<times> world" where
  "applyDelete p existed w =
     (if \<not> existed then (Inr OutcomeNoop, w)
      else case os_Remove p w of (Inl e, w1) \<Rightarrow> (Inl e, w1) | (Inr _, w1) \<Rightarrow> (Inr OutcomeDeleted, w1))"

text \<open>0644, in decimal.\<close>

definition defaultNewFileMode :: nat where
  "defaultNewFileMode = 420"

definition cleanup_tmp :: "path \<Rightarrow> gerror \<Rightarrow> world \<Rightarrow> unit result \<times> world" where
  "cleanup_tmp tmp e w = (Inl e, snd (os_Remove tmp w))"

definition writeViaRename :: "path \<Rightarrow> path \<Rightarrow> string \<Rightarrow> nat \<Rightarrow> world \<Rightarrow> unit result \<times> world" where
  "writeViaRename dir p content mode w =
     (case os_CreateTemp dir w of
        (Inl e, w1) \<Rightarrow> (Inl e, w1)
      | (Inr tmp, w1) \<Rightarrow>
        (case os_Write tmp content w1 of (writeErr, w2) \<Rightarrow>
         case os_Close w2 of (closeErr, w3) \<Rightarrow>
         (case writeErr of
            Inl e \<Rightarrow> cleanup_tmp tmp e w3
          | Inr _ \<Rightarrow>
            (case closeErr of
               Inl e \<Rightarrow> cleanup_tmp tmp e w3
             | Inr _ \<Rightarrow>
               (case os_Chmod tmp mode w3 of
                  (Inl e, w4) \<Rightarrow> cleanup_tmp tmp e w4
                | (Inr _, w4) \<Rightarrow>
                  (case os_Rename tmp p w4 of
                     (Inl e, w5) \<Rightarrow> cleanup_tmp tmp e w5
                   | (Inr _, w5) \<Rightarrow> (Inr (), w5)))))))"

function topmost_missing :: "path \<Rightarrow> world \<Rightarrow> path result \<times> world" where
  "topmost_missing hi w =
     (if hi = [] then (Inr hi, w)
      else case os_Stat (butlast hi) w of
        (Inr _, w1) \<Rightarrow> (Inr hi, w1)
      | (Inl e, w1) \<Rightarrow> if \<not> IsNotExist e then (Inl e, w1) else topmost_missing (butlast hi) w1)"
  by pat_completeness auto
termination topmost_missing
  by (relation "measure (\<lambda>(hi, _). length hi)") (auto simp: length_greater_0_conv [symmetric] simp del: length_greater_0_conv)

declare topmost_missing.simps [simp del]

definition ensureDir :: "path \<Rightarrow> world \<Rightarrow> path option result \<times> world" where
  "ensureDir dir w =
     (case os_Stat dir w of
        (Inr Dir, w1) \<Rightarrow> (Inr None, w1)
      | (Inr _, w1) \<Rightarrow> (Inl (Errorf [Lit ''patchapply: '', Quoted (path_text dir), Lit '' exists and is not a directory'']), w1)
      | (Inl e, w1) \<Rightarrow>
          if \<not> IsNotExist e then (Inl e, w1)
          else case topmost_missing dir w1 of
                 (Inl e, w2) \<Rightarrow> (Inl e, w2)
               | (Inr hi, w2) \<Rightarrow>
                 (case os_MkdirAll [] dir w2 of
                    (Inl e, w3) \<Rightarrow> (Inl e, w3)
                  | (Inr _, w3) \<Rightarrow> (Inr (Some hi), w3)))"

text \<open>\<open>applyWrite\<close> returns the directory it created also when the write that followed failed.\<close>

definition applyWrite :: "path \<Rightarrow> string \<Rightarrow> nat \<Rightarrow> world \<Rightarrow> path option \<times> unit result \<times> world" where
  "applyWrite p content mode w =
     (case ensureDir (butlast p) w of
        (Inl e, w1) \<Rightarrow> (None, Inl e, w1)
      | (Inr createdDir, w1) \<Rightarrow>
          (case writeViaRename (butlast p) p content mode w1 of (r, w2) \<Rightarrow> (createdDir, r, w2)))"


section \<open>Rollback\<close>

definition created_error :: "string \<Rightarrow> path \<Rightarrow> gerror \<Rightarrow> gerror" where
  "created_error what dir e = Errorf [Lit ''patchapply: '', Lit what, Lit '' created dir '', Quoted (path_text dir), Lit '': '', Wrapped e]"

function remove_chain :: "path \<Rightarrow> path \<Rightarrow> world \<Rightarrow> unit result \<times> world" where
  "remove_chain created dir w =
     (if \<not> isWithin created dir then (Inr (), w)
      else case os_ReadDir dir w of
        (Inl e, w1) \<Rightarrow>
          if \<not> IsNotExist e then (Inl (created_error ''reading'' dir e), w1)
          else if dir = created \<or> dir = [] then (Inr (), w1)
          else remove_chain created (butlast dir) w1
      | (Inr entries, w1) \<Rightarrow>
          if entries \<noteq> [] then (Inr (), w1)
          else case os_Remove dir w1 of
            (r, w2) \<Rightarrow>
              (case r of
                 Inl e \<Rightarrow>
                   if \<not> IsNotExist e then (Inl (created_error ''removing'' dir e), w2)
                   else if dir = created \<or> dir = [] then (Inr (), w2)
                   else remove_chain created (butlast dir) w2
               | Inr _ \<Rightarrow>
                   if dir = created \<or> dir = [] then (Inr (), w2)
                   else remove_chain created (butlast dir) w2))"
  by pat_completeness auto
termination remove_chain
  by (relation "measure (\<lambda>(_, dir, _). length dir)") (auto simp: length_greater_0_conv [symmetric] simp del: length_greater_0_conv)

declare remove_chain.simps [simp del]

definition removeCreatedDir :: "path \<Rightarrow> path \<Rightarrow> path \<Rightarrow> world \<Rightarrow> unit result \<times> world" where
  "removeCreatedDir target fileDir createdDir w =
     (case os_EvalSymlinks createdDir w of
        (Inl e, w1) \<Rightarrow>
          if IsNotExist e then (Inr (), w1)
          else (Inl (created_error ''resolving'' createdDir e), w1)
      | (Inr resolved, w1) \<Rightarrow>
          if \<not> isWithin target resolved
          then (Inl (Errorf [Wrapped ErrPathTraversal, Lit '': created_dir '', Quoted (path_text createdDir),
                  Lit '' resolves outside targetDir, refusing to remove it'']), w1)
          else remove_chain resolved fileDir w1)"

definition restoreEntry :: "path \<Rightarrow> path \<Rightarrow> JournalEntry \<Rightarrow> world \<Rightarrow> unit result \<times> world" where
  "restoreEntry target full e w =
     (if \<not> je_ExistedBefore e then
        (case os_Remove full w of
           (r, w1) \<Rightarrow>
             if (case r of Inl err \<Rightarrow> \<not> IsNotExist err | Inr _ \<Rightarrow> False) then (r, w1)
             else (case je_CreatedDir e of
                     None \<Rightarrow> (Inr (), w1)
                   | Some created \<Rightarrow> removeCreatedDir target (butlast full) created w1))
      else case je_OriginalContent e of
        None \<Rightarrow> (Inl (Errorf [Wrapped ErrJournalNotRestorable, Lit '': '', Quoted (je_Path e)]), w)
      | Some content \<Rightarrow>
        (let mode = (if je_OriginalMode e = 0 then defaultNewFileMode else je_OriginalMode e) in
         case ensureDir (butlast full) w of
           (Inl err, w1) \<Rightarrow> (Inl err, w1)
         | (Inr _, w1) \<Rightarrow> writeViaRename (butlast full) full content mode w1))"

definition rollback_error :: "string \<Rightarrow> gerror \<Rightarrow> gerror" where
  "rollback_error path e = Errorf [Lit ''patchapply: rolling back '', Quoted path, Lit '': '', Wrapped e]"

text \<open>The loop of \<open>rollbackEntries\<close>, given the entries in the order it visits them.\<close>

fun rollback_loop :: "path \<Rightarrow> JournalEntry list \<Rightarrow> world \<Rightarrow> gerror list \<times> world" where
  "rollback_loop target [] w = ([], w)"
| "rollback_loop target (e # es) w =
     (case resolvedPath target (je_Path e) w of
        (Inl err, w1) \<Rightarrow>
          (case rollback_loop target es w1 of (errs, w2) \<Rightarrow> (rollback_error (je_Path e) err # errs, w2))
      | (Inr full, w1) \<Rightarrow>
        (case restoreEntry target full e w1 of
           (Inl err, w2) \<Rightarrow>
             (case rollback_loop target es w2 of (errs, w3) \<Rightarrow> (rollback_error (je_Path e) err # errs, w3))
         | (Inr _, w2) \<Rightarrow> rollback_loop target es w2))"

definition rollbackEntries :: "path \<Rightarrow> JournalEntry list \<Rightarrow> world \<Rightarrow> gerror option \<times> world" where
  "rollbackEntries target entries w =
     (case rollback_loop target (rev entries) w of (errs, w1) \<Rightarrow> (errors_Join_all errs, w1))"

text \<open>\<open>RollbackOptions\<close> has the fields of \<open>ApplyOptions\<close>.\<close>

type_synonym RollbackOptions = ApplyOptions

definition checkRollbackApproval ::
    "(string \<Rightarrow> string) \<Rightarrow> int \<Rightarrow> JournalEntry list \<Rightarrow> RollbackOptions \<Rightarrow> unit result \<times> Broker option" where
  "checkRollbackApproval sha256 now entries opts =
     (let deletePaths = map je_Path (filter (\<lambda>e. \<not> je_ExistedBefore e) entries) in
      if deletePaths = [] then (Inr (), ao_Broker opts)
      else case ao_Broker opts of
        None \<Rightarrow> (Inl (Errorf [Lit ''patchapply: '', Wrapped ErrApprovalRequired, Lit '': rollback must delete '',
                  Num (int (length deletePaths)), Lit '' path(s) but no approval.Broker was configured'']), None)
      | Some b \<Rightarrow>
        (let scope = BatchScope sha256 (sc_Action (ao_Scope opts)) deletePaths in
         case checkBrokerScope now (ao_Token opts) scope b of
           (st, b') \<Rightarrow> (if st \<noteq> StatusPass then Inl (approval_error scope st) else Inr (), Some b')))"

fun validate_entries :: "path \<Rightarrow> JournalEntry list \<Rightarrow> world \<Rightarrow> unit result \<times> world" where
  "validate_entries target [] w = (Inr (), w)"
| "validate_entries target (e # es) w =
     (case resolvedPath target (je_Path e) w of
        (Inl err, w1) \<Rightarrow> (Inl (rollback_error (je_Path e) err), w1)
      | (Inr _, w1) \<Rightarrow> validate_entries target es w1)"

definition open_journal :: "path \<Rightarrow> Journal \<Rightarrow> world \<Rightarrow> path result \<times> world" where
  "open_journal targetDir j w =
     (case os_EvalSymlinks targetDir w of
        (Inl e, w1) \<Rightarrow> (Inl (Errorf [Lit ''patchapply: resolving targetDir '', Quoted (path_text targetDir), Lit '': '', Wrapped e]), w1)
      | (Inr real, w1) \<Rightarrow>
        (case j_TargetDir j of
           Some d \<Rightarrow>
             if d \<noteq> real
             then (Inl (Errorf [Lit ''patchapply: journal was produced for targetDir '', Quoted (path_text d),
                     Lit '', not '', Quoted (path_text real)]), w1)
             else (Inr real, w1)
         | None \<Rightarrow> (Inr real, w1)))"

definition Rollback ::
    "(string \<Rightarrow> string) \<Rightarrow> int \<Rightarrow> path \<Rightarrow> Journal \<Rightarrow> RollbackOptions \<Rightarrow> world
     \<Rightarrow> gerror option \<times> Broker option \<times> world" where
  "Rollback sha256 now targetDir j opts w =
     (case open_journal targetDir j w of
        (Inl e, w1) \<Rightarrow> (Some e, ao_Broker opts, w1)
      | (Inr target, w1) \<Rightarrow>
        (case validate_entries target (j_Entries j) w1 of
           (Inl e, w2) \<Rightarrow> (Some e, ao_Broker opts, w2)
         | (Inr _, w2) \<Rightarrow>
           (case checkRollbackApproval sha256 now (j_Entries j) opts of
              (Inl e, b) \<Rightarrow> (Some e, b, w2)
            | (Inr _, b) \<Rightarrow>
              (case rollbackEntries target (j_Entries j) w2 of (err, w3) \<Rightarrow> (err, b, w3)))))"


section \<open>Apply and Verify\<close>

definition rollback_also_failed :: string where
  "rollback_also_failed = '' (rollback of already-applied changes also encountered errors: ''"

definition combineApplyRollbackErr :: "gerror \<Rightarrow> gerror option \<Rightarrow> gerror" where
  "combineApplyRollbackErr applyErr rollbackErr = (case rollbackErr of
     None \<Rightarrow> applyErr
   | Some r \<Rightarrow> Errorf [Wrapped applyErr, Lit rollback_also_failed, Lit (error_text r), Lit '')''])"

fun applyAll :: "path \<Rightarrow> nat \<Rightarrow> JournalEntry list \<Rightarrow> (FileChange \<times> path \<times> JournalEntry) list \<Rightarrow> world
    \<Rightarrow> JournalEntry list result \<times> world" where
  "applyAll target i applied [] w = (Inr applied, w)"
| "applyAll target i applied ((c, full, entry) # rest) w =
     (if ch_Delete c then
        (case applyDelete full (je_ExistedBefore entry) w of
           (Inl e, w1) \<Rightarrow>
             (case rollbackEntries target applied w1 of (rollbackErr, w2) \<Rightarrow>
                (Inl (combineApplyRollbackErr (change_error i (ch_Path c) [Lit ''deleting: '', Wrapped e]) rollbackErr), w2))
         | (Inr out, w1) \<Rightarrow>
             applyAll target (Suc i) (applied @ [entry\<lparr>je_Outcome := out\<rparr>]) rest w1)
      else
        (let mode = (if \<not> je_ExistedBefore entry \<or> je_OriginalMode entry = 0
                     then defaultNewFileMode else je_OriginalMode entry) in
         case applyWrite full (ch_NewContent c) mode w of
           (createdDir, Inl e, w1) \<Rightarrow>
             (case rollbackEntries target (applied @ [entry\<lparr>je_CreatedDir := createdDir\<rparr>]) w1 of (rollbackErr, w2) \<Rightarrow>
                (Inl (combineApplyRollbackErr (change_error i (ch_Path c) [Lit ''writing: '', Wrapped e]) rollbackErr), w2))
         | (createdDir, Inr _, w1) \<Rightarrow>
             applyAll target (Suc i)
               (applied @ [entry\<lparr>je_Outcome := OutcomeWritten, je_CreatedDir := createdDir\<rparr>]) rest w1))"

definition Apply ::
    "(string \<Rightarrow> string) \<Rightarrow> int \<Rightarrow> path \<Rightarrow> FileChange list \<Rightarrow> ApplyOptions \<Rightarrow> world
     \<Rightarrow> Journal result \<times> Broker option \<times> world" where
  "Apply sha256 now targetDir changes opts w =
     (case resolveTargetDir targetDir w of
        (Inl e, w1) \<Rightarrow> (Inl e, ao_Broker opts, w1)
      | (Inr (target, info), w1) \<Rightarrow>
        if info \<noteq> Dir
        then (Inl (Errorf [Lit ''patchapply: targetDir '', Quoted (path_text targetDir), Lit '' is not a directory'']),
              ao_Broker opts, w1)
        else case validateChangePaths target changes w1 of
          (Inl e, w2) \<Rightarrow> (Inl e, ao_Broker opts, w2)
        | (Inr fulls, w2) \<Rightarrow>
          (case checkApproval sha256 now changes opts of
             (Inl e, b) \<Rightarrow> (Inl e, b, w2)
           | (Inr _, b) \<Rightarrow>
             (case captureCurrentState 0 changes fulls w2 of
                (Inl e, w3) \<Rightarrow> (Inl e, b, w3)
              | (Inr entries, w3) \<Rightarrow>
                (case applyAll target 0 [] (zip changes (zip fulls entries)) w3 of
                   (Inl e, w4) \<Rightarrow> (Inl e, b, w4)
                 | (Inr applied, w4) \<Rightarrow>
                     (Inr \<lparr>j_TargetDir = Some target, j_Entries = applied\<rparr>, b, w4)))))"

definition verify_error :: "JournalEntry \<Rightarrow> msg_part list \<Rightarrow> gerror" where
  "verify_error e parts = Errorf ([Lit ''patchapply: verifying '', Quoted (je_Path e), Lit '': ''] @ parts)"

definition bool_text :: "bool \<Rightarrow> string" where
  "bool_text b = (if b then ''true'' else ''false'')"

fun verify_loop :: "path \<Rightarrow> JournalEntry list \<Rightarrow> world \<Rightarrow> gerror list \<times> world" where
  "verify_loop target [] w = ([], w)"
| "verify_loop target (e # es) w =
     (case resolvedPath target (je_Path e) w of
        (Inl err, w1) \<Rightarrow>
          (case verify_loop target es w1 of (errs, w2) \<Rightarrow> (verify_error e [Wrapped err] # errs, w2))
      | (Inr full, w1) \<Rightarrow>
        (case readCurrent full w1 of
           (Inl err, w2) \<Rightarrow>
             (case verify_loop target es w2 of (errs, w3) \<Rightarrow> (verify_error e [Lit ''reading: '', Wrapped err] # errs, w3))
         | (Inr (current, existed, mode), w2) \<Rightarrow>
             (case verify_loop target es w2 of (errs, w3) \<Rightarrow>
                (if existed \<noteq> je_ExistedBefore e
                 then verify_error e [Lit ''expected existed='', Lit (bool_text (je_ExistedBefore e)),
                        Lit '', found existed='', Lit (bool_text existed)] # errs
                 else (if \<not> bytes_Equal current (je_OriginalContent e)
                       then [verify_error e [Lit ''content mismatch: expected '', Lit (previewContent (je_OriginalContent e)),
                              Lit '', found '', Lit (previewContent current)]] else []) @
                      (if existed \<and> je_OriginalMode e \<noteq> 0 \<and> mode \<noteq> je_OriginalMode e
                       then [verify_error e [Lit ''mode mismatch: expected '', Num (int (je_OriginalMode e)),
                              Lit '', found '', Num (int mode)]] else []) @ errs, w3))))"

definition Verify :: "path \<Rightarrow> Journal \<Rightarrow> world \<Rightarrow> gerror option \<times> world" where
  "Verify targetDir j w =
     (case open_journal targetDir j w of
        (Inl e, w1) \<Rightarrow> (Some e, w1)
      | (Inr target, w1) \<Rightarrow>
        (case verify_loop target (j_Entries j) w1 of (errs, w2) \<Rightarrow> (errors_Join_all errs, w2)))"


section \<open>What a batch does to files\<close>

















text \<open>What an entry says the file was: its content and mode, or its absence.\<close>

definition original :: "JournalEntry \<Rightarrow> (string \<times> nat) option" where
  "original e = (if je_ExistedBefore e
     then map_option (\<lambda>c. (c, if je_OriginalMode e = 0 then defaultNewFileMode else je_OriginalMode e)) (je_OriginalContent e)
     else None)"
















definition reports_rollback_errors :: "gerror \<Rightarrow> bool" where
  "reports_rollback_errors e = (case e of
     Errorf (Wrapped _ # Lit s # _) \<Rightarrow> s = rollback_also_failed | _ \<Rightarrow> False)"








lemma original_outcome [simp]:
  "original (e\<lparr>je_Outcome := x\<rparr>) = original e" "original (e\<lparr>je_CreatedDir := d\<rparr>) = original e"
  "original (e\<lparr>je_Outcome := x, je_CreatedDir := d\<rparr>) = original e"
  by (simp_all add: original_def)










section \<open>Properties\<close>







section \<open>Examples\<close>

definition write_change :: "string \<Rightarrow> string \<Rightarrow> FileChange" where
  "write_change p c = \<lparr>ch_Path = p, ch_NewContent = c, ch_Delete = False, ch_ExpectedPriorContent = None\<rparr>"

definition no_broker :: ApplyOptions where
  "no_broker = \<lparr>ao_Broker = None, ao_Scope = ex_scope, ao_Token = ''''\<rparr>"
















section \<open>Where symbolic links and partial directories escape\<close>

definition link_world :: world where
  "link_world = \<lparr>fs = [([''t''], Dir), ([''t'', ''x''], File ''in'' 420), ([''t'', ''d''], Link [''o'']),
     ([''o''], Dir), ([''o'', ''f''], Link [''t'', ''x''])], faults = []\<rparr>"

text \<open>A batch can write outside its target directory. With a link \<open>t/d\<close> to a directory \<open>o\<close>
  outside, in which \<open>f\<close> is itself a link back to a file inside \<open>t\<close>, the path \<open>d/f\<close> resolves inside
  the target and is accepted, but the rename replaces the entry \<open>f\<close> of the outside directory.\<close>

theorem Apply_escapes_through_links:
  "case Apply id 0 [''t''] [write_change ''d/f'' ''evil''] no_broker link_world of
     (Inr j, _, w') \<Rightarrow>
       lookup (fs link_world) [''o'', ''f''] = Some (Link [''t'', ''x'']) \<and>
       lookup (fs w') [''o'', ''f''] = Some (File ''evil'' 420) \<and>
       \<not> isWithin [''t''] [''o'', ''f'']
   | _ \<Rightarrow> False"
  by code_simp

text \<open>A changed symbolic link is not restored: after a successful rollback the path is a regular
  file with the content of the link's target, and \<open>Verify\<close> does not notice.\<close>

definition inner_link_world :: world where
  "inner_link_world = \<lparr>fs = [([''t''], Dir), ([''t'', ''x''], File ''in'' 420), ([''t'', ''l''], Link [''t'', ''x''])],
     faults = []\<rparr>"

theorem Rollback_loses_link:
  "case Apply id 0 [''t''] [write_change ''l'' ''new''] no_broker inner_link_world of
     (Inr j, _, w1) \<Rightarrow>
       (case Rollback id 0 [''t''] j no_broker w1 of (err, _, w2) \<Rightarrow>
          err = None \<and> lookup (fs w2) [''t'', ''l''] = Some (File ''in'' 420) \<and> fst (Verify [''t''] j w2) = None)
   | _ \<Rightarrow> False"
  by code_simp

text \<open>When \<open>os.MkdirAll\<close> fails after it created a parent, \<open>ensureDir\<close> does not say so, and the
  rollback leaves the new directory behind although it reports no error.\<close>

theorem Apply_leaves_directory:
  "case Apply id 0 [''t''] [write_change ''a/b/f'' ''new''] no_broker
       \<lparr>fs = [([''t''], Dir)], faults = replicate 11 False @ [True]\<rparr> of
     (Inl e, _, w') \<Rightarrow> \<not> reports_rollback_errors e \<and> fs w' = [([''t''], Dir), ([''t'', ''a''], Dir)]
   | _ \<Rightarrow> False"
  by code_simp

end
