(* ===== verification/Classify.thy ===== *)
theory Classify
  imports Provenance
begin

text \<open>
  The command classification of \<open>src/discovery/classify.go\<close>: the ordered table of anchored
  patterns, the guard on the arguments of read-only git commands, and \<open>ClassifyCommand\<close> with its
  fail-safe default. A pattern is a term of \<open>re\<close>; what the table accepts is then read off the
  declarative meaning of the patterns.
\<close>

record ClassificationRule =
  rule_Pattern :: re
  rule_RejectArgs :: "(string list \<Rightarrow> bool) option"
  rule_Class :: CommandClass
  rule_Reason :: string

definition unsafeGitReadOnlyArg :: "string \<Rightarrow> bool" where
  "unsafeGitReadOnlyArg arg \<longleftrightarrow>
     (arg = ''-o'' \<or> arg = ''-O'' \<or> arg = ''-c'') \<or>
     (HasPrefix arg ''--output'' \<or> HasPrefix arg ''--output-directory'') \<or>
     HasPrefix arg ''--ext-diff''"

definition rejectUnsafeGitReadOnlyArgs :: "string list \<Rightarrow> bool" where
  "rejectUnsafeGitReadOnlyArgs args = list_ex unsafeGitReadOnlyArg args"

text \<open>The patterns of the form \<open>^command (verb|...)\b\<close>, and the four anchored at both ends.\<close>

definition verb_pattern :: "string \<Rightarrow> string list \<Rightarrow> re" where
  "verb_pattern command verbs =
     re_seq [TextStart, re_lit command, re_alts (map re_lit verbs), WordBoundary]"

definition is_dir_char :: "char \<Rightarrow> bool" where
  "is_dir_char c \<longleftrightarrow> is_word c \<or> c = CHR ''-''"

definition is_arg_start :: "char \<Rightarrow> bool" where
  "is_arg_start c \<longleftrightarrow> is_word c \<or> c = CHR ''.''"

definition is_arg_char :: "char \<Rightarrow> bool" where
  "is_arg_char c \<longleftrightarrow> is_word c \<or> c \<in> {CHR ''.'', CHR ''/'', CHR ''-''}"

definition is_script_char :: "char \<Rightarrow> bool" where
  "is_script_char c \<longleftrightarrow> is_word c \<or> c \<in> {CHR ''.'', CHR ''-''}"

definition is_target_char :: "char \<Rightarrow> bool" where
  "is_target_char c \<longleftrightarrow> is_lower c \<or> c = CHR ''-''"

definition goCheckPattern :: re where
  "goCheckPattern = re_seq (TextStart #
     [re_lit ''go '',
      re_opt (re_seq [re_lit ''-C '', Class is_word, Star is_dir_char,
        Rep (re_seq [re_lit ''/'', Class is_word, Star is_dir_char]), re_lit '' '']),
      re_alts (map re_lit [''build'', ''vet'', ''test'']),
      Rep (re_seq [re_lit '' '', Class is_arg_start, Star is_arg_char])] @ [TextEnd])"

definition goModVerifyPattern :: re where
  "goModVerifyPattern = re_seq (TextStart # [re_lit ''go mod verify''] @ [TextEnd])"

definition checkScriptPattern :: re where
  "checkScriptPattern = re_seq (TextStart #
     [re_lit ''./scripts/check-'', re_at_least 1 is_script_char, re_lit ''.sh''] @ [TextEnd])"

definition makeCheckPattern :: re where
  "makeCheckPattern = re_seq (TextStart #
     [re_lit ''make '',
      re_alts (map re_lit [''build'', ''test'', ''test-arch'', ''lint'', ''help''] @
        [re_seq [re_lit ''check-'', re_at_least 1 is_target_char]])] @ [TextEnd])"

definition ClassificationRules :: "ClassificationRule list" where
  "ClassificationRules = [
     \<lparr>rule_Pattern = verb_pattern ''git '' [''status'', ''diff'', ''log''],
      rule_RejectArgs = Some rejectUnsafeGitReadOnlyArgs, rule_Class = ClassSafe,
      rule_Reason = ''read-only git inspection command; always allowed per agent-safety-policy.md''\<rparr>,
     \<lparr>rule_Pattern = verb_pattern ''git '' [''reset --hard'', ''clean -f'', ''branch -D''],
      rule_RejectArgs = None, rule_Class = ClassDestructive,
      rule_Reason = ''discards uncommitted work or deletes a branch irreversibly; requires explicit human approval before running per agent-safety-policy.md''\<rparr>,
     \<lparr>rule_Pattern = verb_pattern ''git '' [''push'', ''tag''],
      rule_RejectArgs = None, rule_Class = ClassApprovalRequired,
      rule_Reason = ''pushes to a remote or creates a tag; external mutation requires explicit, current-session human approval per agent-safety-policy.md''\<rparr>,
     \<lparr>rule_Pattern = verb_pattern ''git '' [''add'', ''commit''],
      rule_RejectArgs = None, rule_Class = ClassMutating,
      rule_Reason = ''writes to the local git index/history on the current branch; allowed on a feature branch, never directly on main''\<rparr>,
     \<lparr>rule_Pattern = goCheckPattern, rule_RejectArgs = None, rule_Class = ClassSafe,
      rule_Reason = ''compiles or statically checks code with no side effects; always allowed per agent-safety-policy.md''\<rparr>,
     \<lparr>rule_Pattern = goModVerifyPattern, rule_RejectArgs = None, rule_Class = ClassSafe,
      rule_Reason = ''verifies downloaded modules against go.sum checksums; read-only, no network or mutation''\<rparr>,
     \<lparr>rule_Pattern = verb_pattern ''go mod '' [''download''],
      rule_RejectArgs = None, rule_Class = ClassNetworked,
      rule_Reason = ''fetches module content from the configured module proxy''\<rparr>,
     \<lparr>rule_Pattern = checkScriptPattern, rule_RejectArgs = None, rule_Class = ClassSafe,
      rule_Reason = ''runs a repository check script (scripts/check-*.sh), the same read-only verification the make check-* targets wrap''\<rparr>,
     \<lparr>rule_Pattern = verb_pattern ''make '' [''fmt''],
      rule_RejectArgs = None, rule_Class = ClassMutating,
      rule_Reason = ''rewrites source files in place (gofmt -s -w .)''\<rparr>,
     \<lparr>rule_Pattern = verb_pattern ''make '' [''deps''],
      rule_RejectArgs = None, rule_Class = ClassNetworked,
      rule_Reason = ''downloads Go module dependencies (go mod download)''\<rparr>,
     \<lparr>rule_Pattern = verb_pattern ''make '' [''vuln''],
      rule_RejectArgs = None, rule_Class = ClassNetworked,
      rule_Reason = ''fetches the govulncheck vulnerability database over the network''\<rparr>,
     \<lparr>rule_Pattern = verb_pattern ''make '' [''release''],
      rule_RejectArgs = None, rule_Class = ClassApprovalRequired,
      rule_Reason = ''tags and pushes a release (git tag + git push origin); tagging/publishing a release always requires explicit human approval per agent-safety-policy.md, regardless of any standing autonomy instruction''\<rparr>,
     \<lparr>rule_Pattern = verb_pattern ''make '' [''publish-godev''],
      rule_RejectArgs = None, rule_Class = ClassApprovalRequired,
      rule_Reason = ''networked AND externally visible (asks proxy.golang.org/pkg.go.dev to index a release); approval_required takes precedence over networked per this rule table's documented tie-break''\<rparr>,
     \<lparr>rule_Pattern = makeCheckPattern, rule_RejectArgs = None, rule_Class = ClassSafe,
      rule_Reason = ''runs a read-only build, test, or verification target (wraps go build/test/vet, golangci-lint run, or a read-only check script) with no network or mutating side effects''\<rparr>]"

definition is_shell_meta :: "char \<Rightarrow> bool" where
  "is_shell_meta c \<longleftrightarrow> c \<in> {CHR '';'', CHR ''&'', CHR ''|'', CHR 0x60, CHR ''$'', CHR ''<'', CHR ''>'', CHR 0x0A, CHR 0x0D}"

definition shellMetacharacters :: re where
  "shellMetacharacters = Class is_shell_meta"

fun classify_loop :: "string \<Rightarrow> ClassificationRule list \<Rightarrow> CommandClass \<times> string" where
  "classify_loop trimmed [] =
     (ClassApprovalRequired, ''no classification rule matched this command; fail-safe default treats any unrecognized command as approval-required rather than assuming it is safe'')"
| "classify_loop trimmed (rule # rules) =
     (if \<not> MatchString (rule_Pattern rule) trimmed then classify_loop trimmed rules
      else if (case rule_RejectArgs rule of None \<Rightarrow> False | Some f \<Rightarrow> f (strings_Fields trimmed))
      then classify_loop trimmed rules
      else (rule_Class rule, rule_Reason rule))"

definition ClassifyCommand :: "string \<Rightarrow> CommandClass \<times> string" where
  "ClassifyCommand cmd =
     (let trimmed = TrimSpace cmd in
      if MatchString shellMetacharacters trimmed then
        (ClassApprovalRequired, ''command contains a shell metacharacter (;, &, |, `, $, <, >, or a newline) that could chain, substitute, or redirect beyond the matched command; fail-safe default treats this as approval-required rather than classifying by prefix alone'')
      else classify_loop trimmed ClassificationRules)"


section \<open>What the patterns accept\<close>

text \<open>A command that begins with the given words, the last of them complete.\<close>

definition word_prefix :: "string \<Rightarrow> string \<Rightarrow> bool" where
  "word_prefix t p \<longleftrightarrow> (\<exists>rest. t = p @ rest \<and> (rest = [] \<or> \<not> is_word (hd rest)))"

lemma MatchString_verb_pattern:
  assumes "list_all (\<lambda>v. v \<noteq> [] \<and> is_word (last v)) verbs"
  shows "MatchString (verb_pattern command verbs) t \<longleftrightarrow> list_ex (\<lambda>v. word_prefix t (command @ v)) verbs"
proof -
  have b: "at_boundary (before (before None command) v, rest) \<longleftrightarrow> rest = [] \<or> \<not> is_word (hd rest)"
    if "v \<in> set verbs" for v rest
    using that assms by (auto simp: at_boundary_def before_def list_all_iff split: list.splits)
  have "MatchString (verb_pattern command verbs) t \<longleftrightarrow>
      (\<exists>v \<in> set verbs. \<exists>rest. t = command @ v @ rest \<and> at_boundary (before (before None command) v, rest))"
    by (simp add: verb_pattern_def MatchString_anchored) (metis append.assoc)
  also have "\<dots> \<longleftrightarrow> (\<exists>v \<in> set verbs. word_prefix t (command @ v))"
    using b by (simp add: word_prefix_def)
  finally show ?thesis by (simp add: list_ex_iff)
qed

definition segment :: "(char \<Rightarrow> bool) \<Rightarrow> (char \<Rightarrow> bool) \<Rightarrow> string \<Rightarrow> bool" where
  "segment P Q s \<longleftrightarrow> s \<noteq> [] \<and> P (hd s) \<and> list_all Q (tl s)"

lemma matches_segment:
  "matches (re_seq (Class P # Star Q # rs)) p w s \<longleftrightarrow>
     (\<exists>u v. w = u @ v \<and> segment P Q u \<and> matches (re_seq rs) (before p u) v s)"
    (is "?L \<longleftrightarrow> ?R")
proof
  assume ?L
  then obtain c u v where "w = c # u @ v" "P c" "list_all Q u" "matches (re_seq rs) (before p (c # u)) v s"
    by auto
  then show ?R by (intro exI [of _ "c # u"] exI [of _ v]) (simp add: segment_def)
next
  assume ?R
  then obtain u v where uv: "w = u @ v" "segment P Q u" "matches (re_seq rs) (before p u) v s"
    by blast
  then obtain c u' where "u = c # u'" "P c" "list_all Q u'" by (cases u) (auto simp: segment_def)
  then show ?L using uv by (simp, intro exI [of _ "[c]"] exI [of _ "u' @ v"] conjI exI [of _ u'] exI [of _ v]) simp_all
qed

lemma matches_segments:
  "matches (Rep (re_seq [re_lit [x], Class P, Star Q])) p w s \<longleftrightarrow>
     (\<exists>as. w = concat (map ((#) x) as) \<and> list_all (segment P Q) as)"
proof -
  have "matches (re_seq [re_lit [x], Class P, Star Q]) p w s \<longleftrightarrow> (\<exists>a. w = x # a \<and> segment P Q a)" for p w s
    unfolding matches_re_seq(2) [of "re_lit [x]"] matches_segment by auto
  note iff = matches_Rep_iff [of _ "\<lambda>w. \<exists>a. w = x # a \<and> segment P Q a", OF this]
  have "(\<exists>ws. w = concat ws \<and> list_all (\<lambda>w. \<exists>a. w = x # a \<and> segment P Q a) ws) \<longleftrightarrow>
      (\<exists>as. w = concat (map ((#) x) as) \<and> list_all (segment P Q) as)" (is "?L \<longleftrightarrow> ?R")
  proof
    assume ?L
    then obtain ws where ws: "w = concat ws" "list_all (\<lambda>w. \<exists>a. w = x # a \<and> segment P Q a) ws" by blast
    from ws(2) have "ws = map ((#) x) (map tl ws) \<and> list_all (segment P Q) (map tl ws)" by (induction ws) auto
    then show ?R using ws(1) by metis
  next
    assume ?R
    then obtain as where "w = concat (map ((#) x) as)" "list_all (segment P Q) as" by blast
    then show ?L by (intro exI [of _ "map ((#) x) as"]) (auto simp: list_all_iff)
  qed
  then show ?thesis unfolding iff .
qed

section \<open>The commands that need no approval\<close>

text \<open>The safe commands, by what they look like: a read-only git command without an argument that
  writes a file or runs another program; \<open>go build\<close>, \<open>vet\<close> or \<open>test\<close>, optionally in a
  subdirectory named by plain segments, with plain arguments that are neither options nor absolute
  paths; \<open>go mod verify\<close>; a check script of the repository; or a read-only make target, alone.\<close>

definition safe_git :: "string \<Rightarrow> bool" where
  "safe_git t \<longleftrightarrow> list_ex (\<lambda>v. word_prefix t (''git '' @ v)) [''status'', ''diff'', ''log''] \<and>
     \<not> list_ex unsafeGitReadOnlyArg (strings_Fields t)"

definition safe_go :: "string \<Rightarrow> bool" where
  "safe_go t \<longleftrightarrow> (\<exists>dir verb args. t = ''go '' @ dir @ verb @ concat (map ((#) CHR '' '') args) \<and>
     (dir = [] \<or> (\<exists>seg segs. dir = ''-C '' @ seg @ concat (map ((#) CHR ''/'') segs) @ '' '' \<and>
        segment is_word is_dir_char seg \<and> list_all (segment is_word is_dir_char) segs)) \<and>
     verb \<in> {''build'', ''vet'', ''test''} \<and> list_all (segment is_arg_start is_arg_char) args)"

definition safe_script :: "string \<Rightarrow> bool" where
  "safe_script t \<longleftrightarrow> (\<exists>n. t = ''./scripts/check-'' @ n @ ''.sh'' \<and> n \<noteq> [] \<and> list_all is_script_char n)"

definition safe_make :: "string \<Rightarrow> bool" where
  "safe_make t \<longleftrightarrow> t \<in> {''make build'', ''make test'', ''make test-arch'', ''make lint'', ''make help''} \<or>
     (\<exists>n. t = ''make check-'' @ n \<and> n \<noteq> [] \<and> list_all is_target_char n)"

definition safe_command :: "string \<Rightarrow> bool" where
  "safe_command t \<longleftrightarrow> safe_git t \<or> safe_go t \<or> t = ''go mod verify'' \<or> safe_script t \<or> safe_make t"

lemma goCheckPattern_iff: "MatchString goCheckPattern t \<longleftrightarrow> safe_go t"
proof -
  let ?D = "\<lambda>dir. dir = [] \<or> (\<exists>seg segs. dir = ''-C '' @ seg @ concat (map ((#) CHR ''/'') segs) @ '' '' \<and>
      segment is_word is_dir_char seg \<and> list_all (segment is_word is_dir_char) segs)"
  have dir: "matches (re_opt (re_seq [re_lit ''-C '', Class is_word, Star is_dir_char,
        Rep (re_seq [re_lit ''/'', Class is_word, Star is_dir_char]), re_lit '' ''])) p w s \<longleftrightarrow> ?D w" for p w s
    unfolding matches_re_opt matches_re_seq(2) [of "re_lit ''-C ''"] matches_segment matches_re_seq(2) [of "Rep _"]
      matches_segments by auto
  show ?thesis
    unfolding goCheckPattern_def MatchString_whole matches_re_seq(2) dir matches_segments safe_go_def
    by simp blast
qed

lemma goModVerifyPattern_iff: "MatchString goModVerifyPattern t \<longleftrightarrow> t = ''go mod verify''"
  unfolding goModVerifyPattern_def MatchString_whole by simp

lemma checkScriptPattern_iff: "MatchString checkScriptPattern t \<longleftrightarrow> safe_script t"
  unfolding checkScriptPattern_def MatchString_whole safe_script_def matches_re_seq(2) matches_at_least_one by auto

lemma makeCheckPattern_iff: "MatchString makeCheckPattern t \<longleftrightarrow> safe_make t"
proof -
  let ?targets = "[''build'', ''test'', ''test-arch'', ''lint'', ''help'']"
  have "matches (re_alts (map re_lit ?targets @ [re_seq [re_lit ''check-'', re_at_least 1 is_target_char]])) p w s \<longleftrightarrow>
      w \<in> set ?targets \<or> (\<exists>n. w = ''check-'' @ n \<and> n \<noteq> [] \<and> list_all is_target_char n)" for p w s
    unfolding matches_re_alts by (simp add: matches_at_least_one [simplified])
  then have "MatchString makeCheckPattern t \<longleftrightarrow>
      (\<exists>w. t = ''make '' @ w \<and> (w \<in> set ?targets \<or> (\<exists>n. w = ''check-'' @ n \<and> n \<noteq> [] \<and> list_all is_target_char n)))"
    unfolding makeCheckPattern_def MatchString_whole matches_re_seq(2) [of "re_lit ''make ''"] matches_re_seq(2) [of "re_alts _"]
    by simp
  also have "\<dots> \<longleftrightarrow> list_ex (\<lambda>w. t = ''make '' @ w) ?targets \<or> (\<exists>n. t = ''make '' @ ''check-'' @ n \<and> n \<noteq> [] \<and> list_all is_target_char n)"
    unfolding list_ex_iff by blast
  finally show ?thesis by (simp add: safe_make_def)
qed


lemma shellMetacharacters_iff: "MatchString shellMetacharacters t \<longleftrightarrow> list_ex is_shell_meta t"
proof -
  have "MatchString shellMetacharacters t \<longleftrightarrow> (\<exists>u w v. t = u @ w @ v \<and> (\<exists>c. w = [c] \<and> is_shell_meta c))"
    by (simp add: shellMetacharacters_def MatchString_iff)
  also have "\<dots> \<longleftrightarrow> (\<exists>c \<in> set t. is_shell_meta c)"
    by (metis append_Cons append_Nil in_set_conv_decomp)
  finally show ?thesis by (simp add: list_ex_iff)
qed

text \<open>Commands of different families differ in their first bytes.\<close>

lemma word_prefix_take: "word_prefix t p \<Longrightarrow> n \<le> length p \<Longrightarrow> take n t = take n p"
  by (auto simp: word_prefix_def)

lemma safe_takes:
  "safe_go t \<Longrightarrow> take 3 t = ''go ''"
  "safe_script t \<Longrightarrow> take 3 t = ''./s''"
  "safe_make t \<Longrightarrow> take 6 t \<in> {''make b'', ''make t'', ''make l'', ''make h'', ''make c''}"
  "safe_make t \<Longrightarrow> take 3 t = ''mak''"
  by (auto simp: safe_go_def safe_script_def safe_make_def)

lemma verb_pattern_take:
  assumes "MatchString (verb_pattern command verbs) t"
    and "list_all (\<lambda>v. v \<noteq> [] \<and> is_word (last v) \<and> n \<le> length (command @ v)) verbs"
  shows "take n t \<in> set (map (\<lambda>v. take n (command @ v)) verbs)"
proof -
  have "list_all (\<lambda>v. v \<noteq> [] \<and> is_word (last v)) verbs" using assms(2) by (auto simp: list_all_iff)
  then have "list_ex (\<lambda>v. word_prefix t (command @ v)) verbs"
    using assms(1) MatchString_verb_pattern by blast
  then show ?thesis using assms(2) word_prefix_take by (fastforce simp: list_ex_iff list_all_iff)
qed

lemma git_pattern_take:
  "MatchString (verb_pattern ''git '' verbs) t \<Longrightarrow> list_all (\<lambda>v. v \<noteq> [] \<and> is_word (last v)) verbs \<Longrightarrow> take 3 t = ''git''"
  using verb_pattern_take [of "''git ''" verbs t 3] by (auto simp: list_all_iff)

lemma make_pattern_take:
  "MatchString (verb_pattern ''make '' [v]) t \<Longrightarrow> v \<noteq> [] \<Longrightarrow> is_word (last v) \<Longrightarrow> take 6 t = ''make '' @ take 1 v"
  using verb_pattern_take [of "''make ''" "[v]" t 6] by (cases v) auto

lemma git_pattern_iff:
  "MatchString (verb_pattern ''git '' [''status'', ''diff'', ''log'']) t \<and> \<not> rejectUnsafeGitReadOnlyArgs (strings_Fields t) \<longleftrightarrow> safe_git t"
  unfolding safe_git_def rejectUnsafeGitReadOnlyArgs_def
  by (subst MatchString_verb_pattern) (simp_all add: go_defs)

text \<open>The table without its reasons.\<close>

fun class_loop :: "string \<Rightarrow> (re \<times> (string list \<Rightarrow> bool) option \<times> CommandClass) list \<Rightarrow> CommandClass" where
  "class_loop t [] = ClassApprovalRequired"
| "class_loop t ((r, reject, c) # rules) =
     (if \<not> MatchString r t \<or> (case reject of None \<Rightarrow> False | Some f \<Rightarrow> f (strings_Fields t)) then class_loop t rules else c)"

lemma fst_classify_loop:
  "fst (classify_loop t rules) = class_loop t (map (\<lambda>r. (rule_Pattern r, rule_RejectArgs r, rule_Class r)) rules)"
  by (induction rules) auto

lemma rule_classes:
  "map (\<lambda>r. (rule_Pattern r, rule_RejectArgs r, rule_Class r)) ClassificationRules =
   [(verb_pattern ''git '' [''status'', ''diff'', ''log''], Some rejectUnsafeGitReadOnlyArgs, ClassSafe),
    (verb_pattern ''git '' [''reset --hard'', ''clean -f'', ''branch -D''], None, ClassDestructive),
    (verb_pattern ''git '' [''push'', ''tag''], None, ClassApprovalRequired),
    (verb_pattern ''git '' [''add'', ''commit''], None, ClassMutating),
    (goCheckPattern, None, ClassSafe), (goModVerifyPattern, None, ClassSafe),
    (verb_pattern ''go mod '' [''download''], None, ClassNetworked),
    (checkScriptPattern, None, ClassSafe),
    (verb_pattern ''make '' [''fmt''], None, ClassMutating), (verb_pattern ''make '' [''deps''], None, ClassNetworked),
    (verb_pattern ''make '' [''vuln''], None, ClassNetworked), (verb_pattern ''make '' [''release''], None, ClassApprovalRequired),
    (verb_pattern ''make '' [''publish-godev''], None, ClassApprovalRequired), (makeCheckPattern, None, ClassSafe)]"
  by (simp add: ClassificationRules_def)

lemma safe_rule_matches:
  assumes "fst (classify_loop t ClassificationRules) = ClassSafe"
  shows "safe_command t"
proof (rule ccontr)
  assume n: "\<not> safe_command t"
  note no = n [unfolded safe_command_def de_Morgan_disj]
  show False
    using assms no git_pattern_iff [of t]
    unfolding fst_classify_loop rule_classes
    by (auto simp: goCheckPattern_iff goModVerifyPattern_iff checkScriptPattern_iff
        makeCheckPattern_iff class_defs split: if_splits)
qed


lemma rule_words:
  "list_all (\<lambda>v. v \<noteq> [] \<and> is_word (last v)) [''reset --hard'', ''clean -f'', ''branch -D'']"
  "list_all (\<lambda>v. v \<noteq> [] \<and> is_word (last v)) [''push'', ''tag'']"
  "list_all (\<lambda>v. v \<noteq> [] \<and> is_word (last v)) [''add'', ''commit'']"
  "list_all (\<lambda>v. v \<noteq> [] \<and> is_word (last v)) [''download'', ''fmt'', ''deps'', ''vuln'', ''release'', ''publish-godev'']"
  by code_simp+

lemma make_patterns_take:
  "MatchString (verb_pattern ''make '' [''fmt'']) t \<Longrightarrow> take 6 t = ''make f''"
  "MatchString (verb_pattern ''make '' [''deps'']) t \<Longrightarrow> take 6 t = ''make d''"
  "MatchString (verb_pattern ''make '' [''vuln'']) t \<Longrightarrow> take 6 t = ''make v''"
  "MatchString (verb_pattern ''make '' [''release'']) t \<Longrightarrow> take 6 t = ''make r''"
  "MatchString (verb_pattern ''make '' [''publish-godev'']) t \<Longrightarrow> take 6 t = ''make p''"
  using make_pattern_take [of _ t] rule_words(4) by simp_all

lemma safe_command_matches:
  assumes "safe_command t"
  shows "fst (classify_loop t ClassificationRules) = ClassSafe"
proof -
  have git: "take 3 t \<noteq> ''git'' \<Longrightarrow>
      \<not> MatchString (verb_pattern ''git '' [''reset --hard'', ''clean -f'', ''branch -D'']) t \<and>
      \<not> MatchString (verb_pattern ''git '' [''push'', ''tag'']) t \<and>
      \<not> MatchString (verb_pattern ''git '' [''add'', ''commit'']) t"
    using git_pattern_take rule_words(1-3) by blast
  have download: "take 3 t \<noteq> ''go '' \<Longrightarrow> \<not> MatchString (verb_pattern ''go mod '' [''download'']) t"
    using verb_pattern_take [of "''go mod ''" "[''download'']" t 3] rule_words(4) by auto
  consider "safe_git t" | "safe_go t \<or> t = ''go mod verify''" | "safe_script t" | "safe_make t"
    using assms by (auto simp: safe_command_def)
  then show ?thesis
  proof cases
    case 1
    then show ?thesis using git_pattern_iff [of t] by (simp add: fst_classify_loop rule_classes)
  next
    case 2
    then have "take 3 t = ''go ''" using safe_takes(1) by auto
    with 2 git show ?thesis
      unfolding fst_classify_loop rule_classes by (auto simp: goCheckPattern_iff goModVerifyPattern_iff)
  next
    case 3
    with git download safe_takes(2) [of t] show ?thesis
      by (simp add: fst_classify_loop rule_classes checkScriptPattern_iff)
  next
    case 4
    then have "take 6 t \<notin> {''make f'', ''make d'', ''make v'', ''make r'', ''make p''}" and "take 3 t = ''mak''"
      using safe_takes(3,4) [of t] by auto
    with 4 git download make_patterns_take [of t] show ?thesis
      by (auto simp: fst_classify_loop rule_classes makeCheckPattern_iff)
  qed
qed



section \<open>Properties\<close>

text \<open>C26. \<open>ClassifyCommand\<close> calls a command safe exactly when, trimmed, it contains no shell
  metacharacter and is one of the listed read-only commands; and every command it does not put
  behind an approval, whatever its class, is free of shell metacharacters.\<close>

theorem ClassifyCommand_safe_iff:
  "(fst (ClassifyCommand cmd) = ClassSafe \<longleftrightarrow>
      \<not> list_ex is_shell_meta (TrimSpace cmd) \<and> safe_command (TrimSpace cmd)) \<and>
   (fst (ClassifyCommand cmd) \<in> {ClassApprovalRequired, ClassDestructive} \<or>
      list_all (\<lambda>c. \<not> is_shell_meta c) (TrimSpace cmd))"
proof -
  have "fst (classify_loop t ClassificationRules) = ClassSafe \<longleftrightarrow> safe_command t" for t
    using safe_rule_matches safe_command_matches by blast
  then show ?thesis
    by (auto simp: ClassifyCommand_def Let_def shellMetacharacters_iff list_ex_iff list_all_iff class_defs)
qed

text \<open>The guard looks at the words as they are written, the shell at the words after quote removal:
  an option that is refused in plain spelling is accepted in quotes, or with a backslash, although
  the shell passes git the same argument.\<close>

theorem quoted_option_classified_safe:
  "fst (ClassifyCommand ''git diff --output=README.md'') = ClassApprovalRequired \<and>
   fst (ClassifyCommand (''git diff '' @ CHR 0x27 # ''--output=README.md'' @ [CHR 0x27])) = ClassSafe \<and>
   fst (ClassifyCommand (''git diff --o'' @ CHR 0x5C # ''utput=README.md'')) = ClassSafe"
  by code_simp

end
