(* ===== verification/Verify.thy ===== *)
theory Verify
  imports Classify Contract "HOL-Library.Product_Lexorder"
begin

text \<open>
  The package \<open>src/verify\<close>: the mapping from changed paths to focused checks and the fixed full
  gates (\<open>verify.go\<close>), running checks with the tool, network and make-target gates (\<open>run.go\<close>), and
  the text rendering (\<open>render.go\<close>). The environment a check runs in is a parameter: which files
  exist, where programs are found, and what a program started in a directory prints and returns.
  Running also returns the trace of the programs started. Checks with equal sort keys keep their
  order, which Go's unstable sort does not promise.
\<close>

section \<open>Planning\<close>

definition safePathPattern :: re where
  "safePathPattern = re_seq (TextStart #
     [re_at_least 1 (\<lambda>c. is_alnum c \<or> c \<in> {CHR ''_'', CHR ''.'', CHR ''-'', CHR ''/''})] @ [TextEnd])"

definition isPathSafeForCommand :: "string \<Rightarrow> bool" where
  "isPathSafeForCommand path \<longleftrightarrow>
     \<not> (path = '''' \<or> strings_Contains path ''..'') \<and> MatchString safePathPattern path"

record CheckSpec =
  cs_Name :: string
  cs_Command :: string
  cs_Category :: string
  cs_Reason :: string
  cs_RequiredTool :: string
  cs_Networked :: bool
  cs_Dir :: string

record Plan =
  pl_FocusedChecks :: "CheckSpec list"
  pl_FullGates :: "CheckSpec list"

definition gate :: "string \<Rightarrow> string \<Rightarrow> string \<Rightarrow> string \<Rightarrow> CheckSpec" where
  "gate name command reason tool =
     \<lparr>cs_Name = name, cs_Command = command, cs_Category = VerificationFull, cs_Reason = reason,
      cs_RequiredTool = tool, cs_Networked = False, cs_Dir = ''''\<rparr>"

definition FullGates :: "CheckSpec list" where
  "FullGates =
    [gate ''build'' ''make build''
       ''compiles all packages and examples; required before any push or release per AGENTS.md'' ''go'',
     gate ''test'' ''make test''
       ''runs the full test suite; required before any push or release per AGENTS.md'' ''go'',
     gate ''test-arch'' ''make test-arch''
       ''runs the full test suite under the race detector; required before any push or release per AGENTS.md'' ''go'',
     gate ''lint'' ''make lint''
       ''runs golangci-lint across the repository; required before any push or release per AGENTS.md'' ''golangci-lint'',
     gate ''check-consumer-boundary'' ''make check-consumer-boundary''
       ''verifies a consumer importing only the core package does not compile in an integration adapter as a build dependency'' ''go'',
     gate ''check-module-boundary'' ''make check-module-boundary''
       ''runs the modboundary analyzer against examples/deployment to enforce feature-module boundaries'' ''go'',
     gate ''check-api-compat'' ''make check-api-compat''
       ''reports public API changes since the latest git tag'' ''go'',
     gate ''check-changelog'' ''make check-changelog''
       ''verifies CHANGELOG.md is updated when required (PR diff vs origin/main)'' ''git'']"

definition focused :: "string \<Rightarrow> string \<Rightarrow> string \<Rightarrow> string \<Rightarrow> CheckSpec" where
  "focused name command reason tool =
     \<lparr>cs_Name = name, cs_Command = command, cs_Category = VerificationFocused, cs_Reason = reason,
      cs_RequiredTool = tool, cs_Networked = False, cs_Dir = ''''\<rparr>"

definition topLevelSegment :: "string \<Rightarrow> string" where
  "topLevelSegment path =
     (if CHR ''/'' \<in> set path then takeWhile (\<lambda>c. c \<noteq> CHR ''/'') path else '''')"

definition isWorkflowFile :: "string \<Rightarrow> bool" where
  "isWorkflowFile path \<longleftrightarrow> HasPrefix path ''.github/workflows/'' \<and> (HasSuffix path ''.yml'' \<or> HasSuffix path ''.yaml'')"

definition isCheckScript :: "string \<Rightarrow> bool" where
  "isCheckScript path \<longleftrightarrow> HasPrefix path ''scripts/check-'' \<and> HasSuffix path ''.sh''"

fun nested_under :: "string list \<Rightarrow> string \<Rightarrow> string" where
  "nested_under [] path = ''''"
| "nested_under (parent # ps) path =
     (if HasPrefix path parent \<and> topLevelSegment (TrimPrefix path parent) \<noteq> ''''
      then parent @ topLevelSegment (TrimPrefix path parent) else nested_under ps path)"

definition nestedModuleDir :: "string \<Rightarrow> string" where
  "nestedModuleDir path =
     (let d = nested_under [''tools/'', ''services/''] path in
      if d \<noteq> '''' then d
      else if HasPrefix path ''examples/external-consumer/'' then ''examples/external-consumer'' else '''')"

definition nestedModuleChecks :: "string \<Rightarrow> string \<Rightarrow> CheckSpec list" where
  "nestedModuleChecks path dir =
     [focused (''test-'' @ dir) (''go -C '' @ dir @ '' test ./...'')
        (path @ '' changed; '' @ dir @ '' is its own Go module, so its tests run from that module's root'') ''go'',
      focused (''vet-'' @ dir) (''go -C '' @ dir @ '' vet ./...'')
        (path @ '' changed; '' @ dir @ '' is its own Go module, so vet runs from that module's root'') ''go'']"

definition fallbackToFullGates :: "string \<Rightarrow> CheckSpec list" where
  "fallbackToFullGates path = map (\<lambda>g. g\<lparr>cs_Category := VerificationFocused,
     cs_Reason := ''no focused-check rule matched '' @ strconv_Quote path @
       ''; falling back to the full gate set out of caution rather than recommending nothing'',
     cs_Dir := ''''\<rparr>) FullGates"

definition focusedChecksForExample :: "string \<Rightarrow> CheckSpec list" where
  "focusedChecksForExample path =
     (let checks = [focused ''build-examples'' ''go build ./examples/...''
            (path @ '' changed under examples/; ensure all examples still build'') ''go'']
      in if nestedModuleDir path \<noteq> '''' then checks @ nestedModuleChecks path (nestedModuleDir path)
         else let dir = topLevelSegment (TrimPrefix path ''examples/'') in
           if dir \<noteq> '''' then checks @
             [focused (''test-examples/'' @ dir) (''go test ./examples/'' @ dir @ ''/...'')
                (''examples/'' @ dir @ '' changed; run its own tests'') ''go'']
           else checks)"

definition focusedChecksForGoFile :: "string \<Rightarrow> CheckSpec list" where
  "focusedChecksForGoFile path =
     (if nestedModuleDir path \<noteq> '''' then nestedModuleChecks path (nestedModuleDir path)
      else if HasPrefix path ''tools/'' \<or> HasPrefix path ''services/'' then fallbackToFullGates path
      else let pkg = topLevelSegment path in
        if pkg = '''' then
          [focused ''test-root'' ''go test .'' (path @ '' changed; it belongs to the root package'') ''go'',
           focused ''vet-root'' ''go vet .'' (path @ '' changed; it belongs to the root package'') ''go'']
        else
          [focused (''test-'' @ pkg) (''go test ./'' @ pkg @ ''/...'') (pkg @ ''/ changed'') ''go'',
           focused (''vet-'' @ pkg) (''go vet ./'' @ pkg @ ''/...'') (pkg @ ''/ changed'') ''go''])"

definition slashed :: "string \<Rightarrow> string" where
  "slashed path = ReplaceAll_char path (CHR 0x5C) ''/''"

definition focusedChecksForFile :: "string \<Rightarrow> CheckSpec list" where
  "focusedChecksForFile path0 =
     (let path = slashed path0 in
      if \<not> isPathSafeForCommand path then fallbackToFullGates path
      else if isWorkflowFile path then []
      else if isCheckScript path then
        [focused path (''./'' @ path) (path @ '' itself changed; run it directly rather than only its make wrapper'') '''']
      else if HasPrefix path ''examples/'' then focusedChecksForExample path
      else if path = ''go.mod'' \<or> path = ''go.sum'' then
        [focused ''check-api-compat'' ''make check-api-compat''
           (path @ '' changed; dependency changes can affect the public API surface'') ''go'',
         focused ''go-mod-verify'' ''go mod verify''
           (path @ '' changed; verify downloaded modules match go.sum checksums'') ''go'']
      else if path = ''CHANGELOG.md'' then
        [focused ''check-changelog'' ''make check-changelog''
           ''CHANGELOG.md changed; trivially fast to re-check now rather than only at full-gate time'' ''git'']
      else if HasSuffix path ''.go'' then focusedChecksForGoFile path
      else if nestedModuleDir path \<noteq> '''' then nestedModuleChecks path (nestedModuleDir path)
      else fallbackToFullGates path)"

definition check_key :: "CheckSpec \<Rightarrow> string" where
  "check_key c = cs_Category c @ [CHR 0x00] @ cs_Name c @ [CHR 0x00] @ cs_Command c"

fun dedupe :: "string list \<Rightarrow> CheckSpec list \<Rightarrow> CheckSpec list" where
  "dedupe seen [] = []"
| "dedupe seen (c # cs) =
     (if check_key c \<in> set seen then dedupe seen cs else c # dedupe (check_key c # seen) cs)"

definition dedupeAndSort :: "CheckSpec list \<Rightarrow> CheckSpec list" where
  "dedupeAndSort checks = sort_key (\<lambda>c. (cs_Category c, cs_Name c)) (dedupe [] checks)"

definition PlanFor :: "string list \<Rightarrow> Plan" where
  "PlanFor changedFiles =
     \<lparr>pl_FocusedChecks = dedupeAndSort (concat (map focusedChecksForFile changedFiles)),
      pl_FullGates = FullGates\<rparr>"


section \<open>Running\<close>

record ToolStatus =
  ts_Name :: string
  ts_Present :: bool
  ts_Path :: string

text \<open>A started program: the directory it runs in, empty for the caller's own, and its arguments.\<close>

type_synonym started = "string \<times> string list"

record run_env =
  env_exists :: "string \<Rightarrow> bool"
  env_LookPath :: "string \<Rightarrow> string result"
  env_start :: "string \<Rightarrow> string list \<Rightarrow> string \<times> gerror option"
  env_duration :: "CheckSpec \<Rightarrow> int"

definition maxOutputBytes :: nat where
  "maxOutputBytes = 4096"

definition truncateOutput :: "string \<Rightarrow> string" where
  "truncateOutput s =
     (if length s \<le> maxOutputBytes then s
      else ''...[output truncated]...'' @ nl @ drop (length s - maxOutputBytes) s)"

definition is_make_char :: "char \<Rightarrow> bool" where
  "is_make_char c \<longleftrightarrow> is_alnum c \<or> c \<in> {CHR ''.'', CHR ''_'', CHR ''-''}"

definition makeCommandRe :: re where
  "makeCommandRe = re_seq (TextStart # [re_lit ''make '', re_at_least 1 is_make_char] @ [TextEnd])"

definition makefileNames :: "string list" where
  "makefileNames = [''GNUmakefile'', ''makefile'', ''Makefile'']"

definition noRulePatterns :: "string list" where
  "noRulePatterns = [''No rule to make target'', ''don't know how to make'']"

definition missingMakeTarget :: "run_env \<Rightarrow> CheckSpec \<Rightarrow> string \<times> started list" where
  "missingMakeTarget env c =
     (if \<not> MatchString makeCommandRe (cs_Command c) then ('''', [])
      else
        (let target = drop (length ''make '') (cs_Command c);
             dir = (if cs_Dir c = '''' then ''.'' else cs_Dir c)
         in if \<not> list_ex (\<lambda>name. env_exists env (filepath_Join [dir, name])) makefileNames
            then (''make target '' @ strconv_Quote target @ '' is not defined: the repository has no Makefile'', [])
            else
              (case env_LookPath env ''make'' of
                 Inl _ \<Rightarrow> (''make target '' @ strconv_Quote target @ '' cannot be verified: '' @ strconv_Quote ''make'' @ '' is not present on PATH'', [])
               | Inr makePath \<Rightarrow>
                 (let args = [makePath, ''-n'', target] in
                  case env_start env (cs_Dir c) args of
                    (_, None) \<Rightarrow> ('''', [(cs_Dir c, args)])
                  | (out, Some _) \<Rightarrow>
                    if list_ex (strings_Contains out) noRulePatterns
                    then (''make target '' @ strconv_Quote target @ '' is not defined in the repository's Makefile'', [(cs_Dir c, args)])
                    else ('''', [(cs_Dir c, args)])))))"

definition runCommand :: "run_env \<Rightarrow> string \<Rightarrow> string \<Rightarrow> (string \<times> gerror option) \<times> started list" where
  "runCommand env command dir =
     (case env_LookPath env ''sh'' of
        Inl e \<Rightarrow> (('''', Some e), [])
      | Inr shPath \<Rightarrow> (env_start env dir [shPath, ''-c'', command], [(dir, [shPath, ''-c'', command])]))"

definition toolPresence :: "ToolStatus list \<Rightarrow> bool gomap" where
  "toolPresence ts = fold (\<lambda>t m. AList.update (ts_Name t) (ts_Present t) m) ts []"

definition check_result :: "CheckSpec \<Rightarrow> Status \<Rightarrow> int \<Rightarrow> string \<Rightarrow> string \<Rightarrow> VerificationResult" where
  "check_result c status duration message reason =
     \<lparr>vr_Name = cs_Name c, vr_Category = cs_Category c, vr_Status = status,
      vr_Duration = duration, vr_Message = message, vr_Reason = reason\<rparr>"

definition runOne :: "run_env \<Rightarrow> CheckSpec \<Rightarrow> bool gomap \<Rightarrow> bool \<Rightarrow> VerificationResult \<times> started list" where
  "runOne env c present allowNetwork =
     (if cs_RequiredTool c \<noteq> '''' \<and> map_of present (cs_RequiredTool c) \<noteq> Some True
      then (check_result c StatusUnavailable 0 ''''
              (''required tool '' @ strconv_Quote (cs_RequiredTool c) @ '' is not present on PATH''), [])
      else if cs_Networked c \<and> \<not> allowNetwork
      then (check_result c StatusSkipped 0 '''' ''networked check skipped: no network access in this environment'', [])
      else
        (case missingMakeTarget env c of (reason, probes) \<Rightarrow>
         if reason \<noteq> '''' then (check_result c StatusUnavailable 0 '''' reason, probes)
         else
           (case runCommand env (cs_Command c) (cs_Dir c) of ((output, err), tr) \<Rightarrow>
            (check_result c (if err = None then StatusPass else StatusFail)
               (env_duration env c) (truncateOutput output) '''',
             probes @ tr))))"

definition verify_Run :: "run_env \<Rightarrow> CheckSpec list \<Rightarrow> ToolStatus list \<Rightarrow> bool \<Rightarrow> VerificationResult list \<times> started list" where
  "verify_Run env checks tools allowNetwork =
     (let rs = map (\<lambda>c. runOne env c (toolPresence tools) allowNetwork) checks
      in (map fst rs, concat (map snd rs)))"


section \<open>Rendering\<close>

text \<open>\<open>render_duration\<close> is the text of a \<open>time.Duration\<close>; the dash before a reason is three
  bytes of UTF-8.\<close>

definition strings_ToUpper :: "string \<Rightarrow> string" where
  "strings_ToUpper s = map to_upper s"

definition TrimRight_nl :: "string \<Rightarrow> string" where
  "TrimRight_nl s = rev (dropWhile (\<lambda>c. c = CHR 0x0A) (rev s))"

definition render_result :: "(int \<Rightarrow> string) \<Rightarrow> VerificationResult \<Rightarrow> string" where
  "render_result render_duration r =
     ''['' @ strings_ToUpper (vr_Status r) @ ''] '' @ vr_Name r @ '' ('' @ render_duration (vr_Duration r) @ '')'' @
     (if vr_Reason r \<noteq> '''' then '' '' @ [CHR 0xE2, CHR 0x80, CHR 0x94] @ '' '' @ vr_Reason r else '''') @ nl @
     (if vr_Message r \<noteq> ''''
      then ''    '' @ ReplaceAll_char (TrimRight_nl (vr_Message r)) (CHR 0x0A) (nl @ ''    '') @ nl else '''')"

definition verify_RenderText :: "(int \<Rightarrow> string) \<Rightarrow> VerificationResult list \<Rightarrow> string" where
  "verify_RenderText render_duration results =
     (if results = [] then ''no verification results'' @ nl
      else concat (map (\<lambda>cat. ''=== '' @ cat @ '' ==='' @ nl @
             concat (map (render_result render_duration) (filter (\<lambda>r. vr_Category r = cat) results)) @ nl)
           (sort (remdups (map vr_Category results)))))"



section \<open>Commands of a plan\<close>

text \<open>The bytes a command of a plan may contain: none of them is special to a shell, and the space
  only separates words.\<close>

definition inert :: "char \<Rightarrow> bool" where
  "inert c \<longleftrightarrow> is_word c \<or> c \<in> {CHR ''.'', CHR ''-'', CHR ''/'', CHR '' ''}"












lemma inert_chars [simp]:
  "inert CHR ''a''" "inert CHR ''b''" "inert CHR ''c''" "inert CHR ''d''" "inert CHR ''e''" "inert CHR ''f''"
  "inert CHR ''g''" "inert CHR ''h''" "inert CHR ''i''" "inert CHR ''k''" "inert CHR ''l''" "inert CHR ''m''"
  "inert CHR ''n''" "inert CHR ''o''" "inert CHR ''p''" "inert CHR ''r''" "inert CHR ''s''" "inert CHR ''t''"
  "inert CHR ''u''" "inert CHR ''v''" "inert CHR ''x''" "inert CHR ''y''" "inert CHR ''C''" "inert CHR ''.''"
  "inert CHR ''-''" "inert CHR ''/''" "inert CHR '' ''"
  by code_simp+














text \<open>The reason of a check comes from the first file that asked for it, so two orders of the same
  changed files give different plans.\<close>

theorem PlanFor_depends_on_order: "PlanFor [''go.mod'', ''go.sum''] \<noteq> PlanFor [''go.sum'', ''go.mod'']"
  by code_simp


section \<open>Results of a run\<close>

definition startable :: "run_env \<Rightarrow> ToolStatus list \<Rightarrow> bool \<Rightarrow> CheckSpec \<Rightarrow> bool" where
  "startable env tools allowNetwork c \<longleftrightarrow>
     (cs_RequiredTool c = '''' \<or>
      map_of (rev (map (\<lambda>t. (ts_Name t, ts_Present t)) tools)) (cs_RequiredTool c) = Some True) \<and>
     (cs_Networked c \<longrightarrow> allowNetwork) \<and> fst (missingMakeTarget env c) = ''''"

definition succeeds :: "run_env \<Rightarrow> CheckSpec \<Rightarrow> bool" where
  "succeeds env c \<longleftrightarrow> (\<exists>sh. env_LookPath env ''sh'' = Inr sh \<and>
     snd (env_start env (cs_Dir c) [sh, ''-c'', cs_Command c]) = None)"

definition shell_commands :: "started list \<Rightarrow> string list" where
  "shell_commands tr = map (\<lambda>(_, args). args ! 2) (filter (\<lambda>(_, args). args ! 1 = ''-c'') tr)"

lemma shell_commands_append [simp]: "shell_commands (a @ b) = shell_commands a @ shell_commands b"
  by (simp add: shell_commands_def)

lemma shell_commands_concat: "shell_commands (concat trs) = concat (map shell_commands trs)"
  by (induction trs) (simp_all, simp add: shell_commands_def)

lemma probes_no_shell: "shell_commands (snd (missingMakeTarget env c)) = []"
  by (simp add: missingMakeTarget_def shell_commands_def Let_def split: sum.splits prod.splits option.splits)

lemma map_of_toolPresence:
  "map_of (toolPresence ts) = map_of (rev (map (\<lambda>t. (ts_Name t, ts_Present t)) ts))"
  unfolding toolPresence_def by (induction ts rule: rev_induct) auto

lemma runOne_result:
  assumes "runOne env c (toolPresence tools) net = (r, tr)"
  shows "vr_Name r = cs_Name c" "vr_Category r = cs_Category c"
    and "vr_Status r = StatusPass \<longleftrightarrow> startable env tools net c \<and> succeeds env c"
    and "startable env tools net c \<longleftrightarrow> vr_Status r = StatusPass \<or> vr_Status r = StatusFail"
    and "shell_commands tr = (if startable env tools net c \<and> \<not> isl (env_LookPath env ''sh'') then [cs_Command c] else [])"
proof -
  obtain reason probes where m: "missingMakeTarget env c = (reason, probes)" by (cases "missingMakeTarget env c")
  obtain out err t where x: "runCommand env (cs_Command c) (cs_Dir c) = ((out, err), t)"
    by (cases "runCommand env (cs_Command c) (cs_Dir c)") auto
  have err: "err = None \<longleftrightarrow> succeeds env c"
    and t: "shell_commands t = (if isl (env_LookPath env ''sh'') then [] else [cs_Command c])"
    using x by (auto simp: runCommand_def succeeds_def shell_commands_def split: sum.splits)
  have p: "shell_commands probes = []" using probes_no_shell [of env c] m by simp
  show "vr_Name r = cs_Name c" "vr_Category r = cs_Category c"
    and "vr_Status r = StatusPass \<longleftrightarrow> startable env tools net c \<and> succeeds env c"
    and "startable env tools net c \<longleftrightarrow> vr_Status r = StatusPass \<or> vr_Status r = StatusFail"
    and "shell_commands tr = (if startable env tools net c \<and> \<not> isl (env_LookPath env ''sh'') then [cs_Command c] else [])"
    using assms m x err t p
    by (auto simp: runOne_def check_result_def startable_def map_of_toolPresence status_defs shell_commands_def split: if_splits)
qed

text \<open>C32. A run reports exactly one result per check, in order and under the check's name and
  category. A check passes exactly when its tool is present, the network is allowed if it needs it,
  its make target is not missing, and a shell really ran its command with success; and the commands
  given to a shell are exactly those of the checks reported as passed or failed.\<close>

theorem verify_Run_honest:
  "let rs = fst (verify_Run env checks tools net) in
   map (\<lambda>r. (vr_Name r, vr_Category r)) rs = map (\<lambda>c. (cs_Name c, cs_Category c)) checks \<and>
   map (\<lambda>r. vr_Status r = StatusPass) rs = map (\<lambda>c. startable env tools net c \<and> succeeds env c) checks \<and>
   map (\<lambda>r. vr_Status r = StatusPass \<or> vr_Status r = StatusFail) rs = map (startable env tools net) checks \<and>
   shell_commands (snd (verify_Run env checks tools net)) =
     (if isl (env_LookPath env ''sh'') then [] else map cs_Command (filter (startable env tools net) checks))"
proof -
  note one = runOne_result [OF prod.collapse [symmetric]]
  have "concat (map (\<lambda>c. shell_commands (snd (runOne env c (toolPresence tools) net))) checks) =
      (if isl (env_LookPath env ''sh'') then [] else map cs_Command (filter (startable env tools net) checks))"
    by (induction checks) (auto simp: one(5) [where tools = tools])
  then show ?thesis
    using one(1-4) [where tools = tools]
    by (simp add: verify_Run_def Let_def comp_def shell_commands_concat)
qed

end
