(* ===== verification/ProtectedPaths.thy ===== *)
theory ProtectedPaths
  imports Contract
begin

text \<open>
  The protected-paths check of \<open>src/review/protectedpaths.go\<close>: the git calls with their argument
  checks, loading the protected paths from the base revision, segment-wise glob matching with
  \<open>**\<close>, the exceptions for \<open>CHANGELOG.md\<close> and \<open>go.mod\<close>, and \<open>CheckProtectedPaths\<close>. The git
  executable is a parameter: where it is found, and the exit error, the standard output and the
  standard error of a run with given arguments. Line numbers and counts are unbounded integers.
\<close>

record git_exec =
  git_LookPath :: "string result"
  git_run :: "string \<Rightarrow> string list \<Rightarrow> gerror option \<times> string \<times> string"


section \<open>Running git\<close>

definition errInvalidRef :: gerror where
  "errInvalidRef = Errorf [Lit (''git ref must not be empty or start with '' @ [CHR 0x27] @ ''-'' @ [CHR 0x27])]"

definition validateRef :: "string \<Rightarrow> gerror option" where
  "validateRef ref = (if ref = '''' \<or> HasPrefix ref ''-'' then Some errInvalidRef else None)"

definition gitOutput :: "git_exec \<Rightarrow> string \<Rightarrow> string list \<Rightarrow> string result" where
  "gitOutput git dir args =
     (case git_LookPath git of
        Inl e \<Rightarrow> Inl e
      | Inr gitPath \<Rightarrow>
        (let fullArgs = (if dir \<noteq> '''' then [''-C'', dir] else []) @ args in
         case git_run git gitPath fullArgs of
           (Some e, _, stderr) \<Rightarrow>
             (let msg = TrimSpace stderr in
              if msg \<noteq> '''' then Inl (Errorf [Wrapped e, Lit '': '', Lit msg]) else Inl e)
         | (None, out, _) \<Rightarrow> Inr out))"

definition diff_range :: "string \<Rightarrow> string \<Rightarrow> string" where
  "diff_range baseRef headRef = baseRef @ ''...'' @ headRef"

definition ChangedFiles :: "git_exec \<Rightarrow> string \<Rightarrow> string \<Rightarrow> string \<Rightarrow> string list result" where
  "ChangedFiles git dir baseRef headRef =
     (case validateRef baseRef of
        Some e \<Rightarrow> Inl e
      | None \<Rightarrow>
        (case validateRef headRef of
           Some e \<Rightarrow> Inl e
         | None \<Rightarrow>
           (case gitOutput git dir [''diff'', ''--name-only'', ''--no-color'', diff_range baseRef headRef] of
              Inl e \<Rightarrow> Inl e
            | Inr out \<Rightarrow>
              (let trimmed = TrimSpace out in
               if trimmed = '''' then Inr [] else Inr (strings_Split trimmed (CHR 0x0A))))))"

definition gitShow :: "git_exec \<Rightarrow> string \<Rightarrow> string \<Rightarrow> string \<Rightarrow> string result" where
  "gitShow git dir ref path =
     (case validateRef ref of Some e \<Rightarrow> Inl e | None \<Rightarrow> gitOutput git dir [''show'', ref @ '':'' @ path])"

definition singleFileDiff :: "git_exec \<Rightarrow> string \<Rightarrow> string \<Rightarrow> string \<Rightarrow> string \<Rightarrow> string result" where
  "singleFileDiff git dir baseRef headRef path =
     (case validateRef baseRef of
        Some e \<Rightarrow> Inl e
      | None \<Rightarrow>
        (case validateRef headRef of
           Some e \<Rightarrow> Inl e
         | None \<Rightarrow> gitOutput git dir
             [''diff'', ''--unified=0'', ''--no-color'', diff_range baseRef headRef, ''--'', path]))"


section \<open>Loading the protected paths\<close>

definition contractMissingAtRefSubstrings :: "string list" where
  "contractMissingAtRefSubstrings = [''does not exist in'', ''exists on disk, but not in'']"

definition ErrContractUnparseable :: gerror where
  "ErrContractUnparseable = Sentinel ''contract is present but unparseable''"

definition LoadProtectedPathsAtRef ::
    "git_exec \<Rightarrow> (string \<Rightarrow> Contract result) \<Rightarrow> string \<Rightarrow> string \<Rightarrow> string list result" where
  "LoadProtectedPathsAtRef git yaml dir ref =
     (case gitShow git dir ref contract_FileName of
        Inl err \<Rightarrow>
          if list_ex (strings_Contains (error_text err)) contractMissingAtRefSubstrings then Inr []
          else Inl (Errorf [Lit ''loading '', Lit contract_FileName, Lit '' at '', Lit ref, Lit '': '', Wrapped err])
      | Inr data \<Rightarrow>
        (case contract_Unmarshal yaml data of
           Inl parseErr \<Rightarrow>
             Inl (Errorf [Lit ''loading '', Lit contract_FileName, Lit '' at '', Lit ref, Lit '': '',
                          Wrapped ErrContractUnparseable, Lit '': '', Wrapped parseErr])
         | Inr c \<Rightarrow>
             Inr (if contract_FileName \<in> set (c_ProtectedPaths c) then c_ProtectedPaths c
                  else c_ProtectedPaths c @ [contract_FileName])))"


section \<open>Matching\<close>

definition segments :: "string \<Rightarrow> string list" where
  "segments p = strings_Split p (CHR ''/'')"

definition glob_ok :: "string \<Rightarrow> bool" where
  "glob_ok p = list_all (\<lambda>seg. seg = ''**'' \<or> \<not> isl (path_Match seg '''')) (segments p)"

definition partitionGlobs :: "string list \<Rightarrow> string list \<times> string list" where
  "partitionGlobs patterns = partition glob_ok patterns"

text \<open>The loop over the positions at which the rest of the pattern may continue after \<open>**\<close>.\<close>

fun any_suffix :: "(string list \<Rightarrow> bool result) \<Rightarrow> string list \<Rightarrow> bool result" where
  "any_suffix f name =
     (case f name of
        Inl e \<Rightarrow> Inl e
      | Inr True \<Rightarrow> Inr True
      | Inr False \<Rightarrow> (case name of [] \<Rightarrow> Inr False | _ # rest \<Rightarrow> any_suffix f rest))"

declare any_suffix.simps [simp del]

primrec matchPathSegments :: "string list \<Rightarrow> string list \<Rightarrow> bool result" where
  "matchPathSegments [] name = Inr (name = [])"
| "matchPathSegments (p # ps) name =
     (if p = ''**'' then
        (if ps = [] then Inr True else any_suffix (matchPathSegments ps) name)
      else case name of
        [] \<Rightarrow> Inr False
      | n # ns \<Rightarrow>
        (case path_Match p n of
           Inl e \<Rightarrow> Inl e
         | Inr False \<Rightarrow> Inr False
         | Inr True \<Rightarrow> matchPathSegments ps ns))"

definition matchProtectedPath :: "string \<Rightarrow> string \<Rightarrow> bool result" where
  "matchProtectedPath pattern name = matchPathSegments (segments pattern) (segments name)"


section \<open>Hunks\<close>

record diffHunk =
  oldStart :: int
  oldCount :: int
  newStart :: int
  newCount :: int

text \<open>The groups of \<open>^@@ -(\d+)(?:,(\d+))? \+(\d+)(?:,(\d+))? @@\<close>. After a run of digits the
  pattern asks for another byte, so a greedy run is the only one that can match; an absent group is
  the empty text.\<close>

definition digits :: "string \<Rightarrow> (string \<times> string) option" where
  "digits s = (if takeWhile is_digit s = [] then None else Some (takeWhile is_digit s, dropWhile is_digit s))"

definition literal :: "string \<Rightarrow> string \<Rightarrow> string option" where
  "literal p s = (if HasPrefix s p then Some (drop (length p) s) else None)"

definition range_groups :: "string \<Rightarrow> (string \<times> string \<times> string) option" where
  "range_groups s =
     (case digits s of
        None \<Rightarrow> None
      | Some (a, s1) \<Rightarrow>
        (case literal '','' s1 of
           None \<Rightarrow> Some (a, '''', s1)
         | Some s2 \<Rightarrow> (case digits s2 of None \<Rightarrow> Some (a, '''', s1) | Some (b, s3) \<Rightarrow> Some (a, b, s3))))"

definition hunk_groups :: "string \<Rightarrow> (string \<times> string \<times> string \<times> string) option" where
  "hunk_groups line =
     Option.bind (literal ''@@ -'' line) (\<lambda>s1.
     Option.bind (range_groups s1) (\<lambda>(a, b, s2).
     Option.bind (literal '' +'' s2) (\<lambda>s3.
     Option.bind (range_groups s3) (\<lambda>(c, d, s4).
     Option.bind (literal '' @@'' s4) (\<lambda>_. Some (a, b, c, d))))))"

definition fullHunkHeaderPattern :: re where
  "fullHunkHeaderPattern = re_seq (TextStart #
     [re_lit ''@@ -'', re_at_least 1 is_digit, re_opt (re_seq [re_lit '','', re_at_least 1 is_digit]),
      re_lit '' +'', re_at_least 1 is_digit, re_opt (re_seq [re_lit '','', re_at_least 1 is_digit]),
      re_lit '' @@''])"

definition Atoi :: "string \<Rightarrow> int" where
  "Atoi s = int (atoi_acc 0 s)"

definition count_of :: "string \<Rightarrow> int" where
  "count_of g = (if g \<noteq> '''' then Atoi g else 1)"

definition parseHunk :: "string \<Rightarrow> diffHunk option" where
  "parseHunk line =
     (if \<not> HasPrefix line ''@@ '' then None
      else map_option (\<lambda>(a, b, c, d).
        \<lparr>oldStart = Atoi a, oldCount = count_of b, newStart = Atoi c, newCount = count_of d\<rparr>) (hunk_groups line))"

definition parseHunks :: "string \<Rightarrow> diffHunk list" where
  "parseHunks diff = List.map_filter parseHunk (strings_Split diff (CHR 0x0A))"


section \<open>Exceptions\<close>

definition splitLines :: "string \<Rightarrow> string list" where
  "splitLines content =
     (let lines = strings_Split content (CHR 0x0A) in
      if lines \<noteq> [] \<and> last lines = '''' then butlast lines else lines)"

definition versionSectionHeaderPattern :: re where
  "versionSectionHeaderPattern = re_seq [TextStart, re_lit ''## ['']"

text \<open>A range is a pair of line numbers from 1; \<open>(0, 0)\<close> is the zero value.\<close>

fun section_end :: "int \<Rightarrow> string list \<Rightarrow> int" where
  "section_end j [] = j"
| "section_end j (l # ls) = (if MatchString versionSectionHeaderPattern l then j else section_end (j + 1) ls)"

fun section_range :: "int \<Rightarrow> string list \<Rightarrow> int \<times> int" where
  "section_range i [] = (0, 0)"
| "section_range i (l # ls) =
     (if HasPrefix l ''## [Unreleased]'' then (i + 1, section_end (i + 1) ls) else section_range (i + 1) ls)"

definition unreleasedSectionRange :: "string \<Rightarrow> int \<times> int" where
  "unreleasedSectionRange content = section_range 0 (splitLines content)"

definition rangeWithin :: "int \<Rightarrow> int \<Rightarrow> int \<times> int \<Rightarrow> bool" where
  "rangeWithin start cnt r \<longleftrightarrow>
     (if cnt = 0 then True
      else if r = (0, 0) then False
      else start \<ge> fst r \<and> start + cnt - 1 \<le> snd r)"

definition fileExceptionApplies ::
    "git_exec \<Rightarrow> string \<Rightarrow> string \<Rightarrow> string \<Rightarrow> string \<Rightarrow> (diffHunk \<Rightarrow> string \<Rightarrow> string \<Rightarrow> bool) \<Rightarrow> bool" where
  "fileExceptionApplies git dir baseRef headRef path hunkIsSafe =
     (case gitShow git dir baseRef path of
        Inl _ \<Rightarrow> False
      | Inr baseContent \<Rightarrow>
        (case gitShow git dir headRef path of
           Inl _ \<Rightarrow> False
         | Inr headContent \<Rightarrow>
           (case singleFileDiff git dir baseRef headRef path of
              Inl _ \<Rightarrow> False
            | Inr diff \<Rightarrow> list_all (\<lambda>h. hunkIsSafe h baseContent headContent) (parseHunks diff))))"

definition changelog_hunk_safe :: "diffHunk \<Rightarrow> string \<Rightarrow> string \<Rightarrow> bool" where
  "changelog_hunk_safe h baseContent headContent \<longleftrightarrow>
     rangeWithin (oldStart h) (oldCount h) (unreleasedSectionRange baseContent) \<and>
     rangeWithin (newStart h) (newCount h) (unreleasedSectionRange headContent)"

definition changelogEditIsWithinUnreleased :: "git_exec \<Rightarrow> string \<Rightarrow> string \<Rightarrow> string \<Rightarrow> bool" where
  "changelogEditIsWithinUnreleased git dir baseRef headRef =
     fileExceptionApplies git dir baseRef headRef ''CHANGELOG.md'' changelog_hunk_safe"

definition cutRetractKeyword :: "string \<Rightarrow> string option" where
  "cutRetractKeyword trimmed =
     (if \<not> HasPrefix trimmed ''retract'' then None
      else let rest = TrimPrefix trimmed ''retract'' in
        if rest \<noteq> [] \<and> hd rest \<noteq> CHR '' '' \<and> hd rest \<noteq> CHR 0x09 \<and> hd rest \<noteq> CHR ''('' then None
        else Some (TrimSpace rest))"

definition isRetractBlockOpen :: "string \<Rightarrow> bool" where
  "isRetractBlockOpen rest \<longleftrightarrow>
     HasPrefix rest ''('' \<and>
     (let after = TrimSpace (TrimPrefix rest ''('') in after = '''' \<or> HasPrefix after ''//'')"

definition isRetractBlockClose :: "string \<Rightarrow> bool" where
  "isRetractBlockClose trimmed \<longleftrightarrow>
     HasPrefix trimmed '')'' \<and>
     (let rest = TrimSpace (tl trimmed) in rest = '''' \<or> HasPrefix rest ''//'')"

text \<open>The scan for retract directives: \<open>blk\<close> is the first line of the block the scan is in.\<close>

fun retract_scan :: "int option \<Rightarrow> int \<Rightarrow> string list \<Rightarrow> (int \<times> int) list" where
  "retract_scan blk i [] = []"
| "retract_scan (Some start) i (raw # ls) =
     (if isRetractBlockClose (TrimSpace raw) then (start, i + 1) # retract_scan None (i + 1) ls
      else retract_scan (Some start) (i + 1) ls)"
| "retract_scan None i (raw # ls) =
     (case cutRetractKeyword (TrimSpace raw) of
        None \<Rightarrow> retract_scan None (i + 1) ls
      | Some rest \<Rightarrow>
        if isRetractBlockOpen rest then retract_scan (Some (i + 1)) (i + 1) ls
        else (i + 1, i + 1) # retract_scan None (i + 1) ls)"

definition retractLineRanges :: "string \<Rightarrow> (int \<times> int) list" where
  "retractLineRanges content = retract_scan None 0 (splitLines content)"

definition rangeIntersectsAny :: "int \<Rightarrow> int \<Rightarrow> (int \<times> int) list \<Rightarrow> bool" where
  "rangeIntersectsAny start cnt ranges \<longleftrightarrow>
     (if cnt = 0 then False else list_ex (\<lambda>r. start \<le> snd r \<and> start + cnt - 1 \<ge> fst r) ranges)"

definition goMod_hunk_safe :: "diffHunk \<Rightarrow> string \<Rightarrow> string \<Rightarrow> bool" where
  "goMod_hunk_safe h baseContent headContent \<longleftrightarrow>
     \<not> rangeIntersectsAny (oldStart h) (oldCount h) (retractLineRanges baseContent) \<and>
     \<not> rangeIntersectsAny (newStart h) (newCount h) (retractLineRanges headContent)"

definition goModEditTouchesOnlyNonRetractLines :: "git_exec \<Rightarrow> string \<Rightarrow> string \<Rightarrow> string \<Rightarrow> bool" where
  "goModEditTouchesOnlyNonRetractLines git dir baseRef headRef =
     fileExceptionApplies git dir baseRef headRef ''go.mod'' goMod_hunk_safe"


section \<open>The check\<close>

definition protected_result :: "Status \<Rightarrow> string \<Rightarrow> string \<Rightarrow> VerificationResult" where
  "protected_result status message reason =
     \<lparr>vr_Name = ''check-protected-paths'', vr_Category = VerificationProtectedPaths, vr_Status = status,
      vr_Duration = 0, vr_Message = message, vr_Reason = reason\<rparr>"

text \<open>The inner loop, over the patterns: the hit reported for a file, if any.\<close>

fun protected_hit :: "git_exec \<Rightarrow> string \<Rightarrow> string \<Rightarrow> string \<Rightarrow> string \<Rightarrow> string list \<Rightarrow> string option" where
  "protected_hit git dir baseRef headRef path [] = None"
| "protected_hit git dir baseRef headRef path (pattern # patterns) =
     (if matchProtectedPath pattern path \<noteq> Inr True then protected_hit git dir baseRef headRef path patterns
      else if path = ''CHANGELOG.md'' \<and> changelogEditIsWithinUnreleased git dir baseRef headRef then None
      else if path = ''go.mod'' \<and> goModEditTouchesOnlyNonRetractLines git dir baseRef headRef then None
      else Some (path @ '' matches protected path '' @ strconv_Quote pattern))"

definition bad_glob_problem :: "string \<Rightarrow> string" where
  "bad_glob_problem pattern = ''protected path '' @ strconv_Quote pattern @
     '' is not a valid glob pattern and cannot be enforced (fix modulex.agent.yaml)''"

definition CheckProtectedPaths ::
    "git_exec \<Rightarrow> string \<Rightarrow> string \<Rightarrow> string \<Rightarrow> string list \<Rightarrow> VerificationResult" where
  "CheckProtectedPaths git dir baseRef headRef protectedPaths =
     (if protectedPaths = []
      then protected_result StatusPass '''' ''no protected_paths declared in modulex.agent.yaml''
      else
        (let (validPatterns, invalidPatterns) = partitionGlobs protectedPaths;
             problems = map bad_glob_problem invalidPatterns
         in case ChangedFiles git dir baseRef headRef of
              Inl err \<Rightarrow>
                protected_result StatusUnavailable ''''
                  (''could not compute diff '' @ diff_range baseRef headRef @ '': '' @ error_text err @
                   (if problems \<noteq> [] then ''; '' @ strings_Join problems ''; '' else ''''))
            | Inr changed \<Rightarrow>
                (let hits = List.map_filter (\<lambda>f. protected_hit git dir baseRef headRef f validPatterns) changed;
                     problems = problems @ hits
                 in if problems = [] then protected_result StatusPass '''' ''''
                    else protected_result StatusFail
                      (itoa (length problems) @ '' protected-paths problem(s) (a protected-path change requires explicit human approval, see docs/planning/agent-safety-policy.md):'' @
                       nl @ strings_Join problems nl) '''')))"



section \<open>What a pattern covers\<close>

text \<open>A \<open>**\<close> covers any number of segments, every other segment of the pattern one segment that
  it matches as a glob.\<close>

inductive covers :: "string list \<Rightarrow> string list \<Rightarrow> bool" where
  nothing: "covers [] []"
| stars: "covers ps ns \<Longrightarrow> covers (''**'' # ps) (skipped @ ns)"
| one: "p \<noteq> ''**'' \<Longrightarrow> path_Match p n = Inr True \<Longrightarrow> covers ps ns \<Longrightarrow> covers (p # ps) (n # ns)"

inductive_simps covers_Nil [simp]: "covers [] ns"
inductive_simps covers_Cons: "covers (p # ps) ns"

lemma any_suffix_iff:
  assumes "\<And>ns. f ns = Inr (g ns)"
  shows "any_suffix f ns = Inr (\<exists>us vs. ns = us @ vs \<and> g vs)"
proof (induction ns)
  case Nil
  then show ?case using assms by (subst any_suffix.simps) (auto split: bool.splits)
next
  case (Cons n ns)
  have "(\<exists>us vs. n # ns = us @ vs \<and> g vs) \<longleftrightarrow> g (n # ns) \<or> (\<exists>us vs. ns = us @ vs \<and> g vs)"
    by (metis append_Cons append_Nil list.inject neq_Nil_conv)
  then show ?case using Cons.IH assms [of "n # ns"] by (subst any_suffix.simps) (simp split: bool.splits)
qed

lemma matchPathSegments_covers:
  assumes "list_all (\<lambda>seg. seg = ''**'' \<or> \<not> isl (path_Match seg '''')) ps"
  shows "matchPathSegments ps ns = Inr (covers ps ns)"
  using assms
proof (induction ps arbitrary: ns)
  case (Cons p ps)
  then have IH: "matchPathSegments ps ns = Inr (covers ps ns)" for ns by simp
  show ?case
  proof (cases "p = ''**''")
    case True
    have "covers (''**'' # ps) ns \<longleftrightarrow> (\<exists>us vs. ns = us @ vs \<and> covers ps vs)"
      by (auto simp: covers_Cons)
    then show ?thesis using True any_suffix_iff [of _ "covers ps", OF IH] by auto
  next
    case False
    have ok: "path_Match p n \<noteq> Inl e" for n e
      using Cons.prems False path_Match_error [of p n e "''''"] by auto
    show ?thesis
    proof (cases ns)
      case Nil
      then show ?thesis using False by (auto simp: covers_Cons)
    next
      case (Cons n ns')
      then show ?thesis using False ok IH
        by (cases "path_Match p n") (auto simp: covers_Cons split: bool.splits)
    qed
  qed
qed simp

definition protects :: "string \<Rightarrow> string \<Rightarrow> bool" where
  "protects pattern path = covers (segments pattern) (segments path)"

lemma matchProtectedPath_iff: "glob_ok p \<Longrightarrow> matchProtectedPath p f = Inr (protects p f)"
  by (simp add: glob_ok_def matchProtectedPath_def protects_def matchPathSegments_covers)

definition excepted :: "git_exec \<Rightarrow> string \<Rightarrow> string \<Rightarrow> string \<Rightarrow> string \<Rightarrow> bool" where
  "excepted git dir baseRef headRef f \<longleftrightarrow>
     (f = ''CHANGELOG.md'' \<and> changelogEditIsWithinUnreleased git dir baseRef headRef) \<or>
     (f = ''go.mod'' \<and> goModEditTouchesOnlyNonRetractLines git dir baseRef headRef)"

lemma protected_hit_None:
  assumes "list_all glob_ok ps"
  shows "protected_hit git dir b h f ps = None \<longleftrightarrow> \<not> list_ex (\<lambda>p. protects p f) ps \<or> excepted git dir b h f"
  using assms
proof (induction ps)
  case (Cons p ps)
  then show ?case
    by (cases "protects p f") (auto simp: matchProtectedPath_iff excepted_def)
qed simp

lemma map_filter_Nil: "List.map_filter f xs = [] \<longleftrightarrow> list_all (\<lambda>x. f x = None) xs"
  by (induction xs) (auto simp: List.map_filter_def)

text \<open>The files an edit may touch.\<close>

definition allowed :: "git_exec \<Rightarrow> string \<Rightarrow> string \<Rightarrow> string \<Rightarrow> string list \<Rightarrow> string \<Rightarrow> bool" where
  "allowed git dir b h ps f \<longleftrightarrow> \<not> list_ex (\<lambda>p. protects p f) ps \<or> excepted git dir b h f"

lemma CheckProtectedPaths_pass:
  "vr_Status (CheckProtectedPaths git dir b h ps) = StatusPass \<longleftrightarrow>
     ps = [] \<or> (\<exists>changed. ChangedFiles git dir b h = Inr changed \<and>
       list_all glob_ok ps \<and> list_all (allowed git dir b h ps) changed)"
proof (cases "ChangedFiles git dir b h")
  case (Inl e)
  then show ?thesis
    by (simp add: CheckProtectedPaths_def Let_def protected_result_def status_defs partitionGlobs_def)
next
  case (Inr changed)
  let ?hits = "List.map_filter (\<lambda>f. protected_hit git dir b h f (filter glob_ok ps)) changed"
  have pass: "vr_Status (CheckProtectedPaths git dir b h ps) = StatusPass \<longleftrightarrow>
      ps = [] \<or> (filter (\<lambda>p. \<not> glob_ok p) ps = [] \<and> ?hits = [])"
    using Inr by (simp add: CheckProtectedPaths_def Let_def protected_result_def status_defs partitionGlobs_def comp_def)
  have "filter (\<lambda>p. \<not> glob_ok p) ps = [] \<longleftrightarrow> list_all glob_ok ps"
    by (induction ps) auto
  moreover have "?hits = [] \<longleftrightarrow> list_all (allowed git dir b h ps) changed" if "list_all glob_ok ps"
  proof -
    have "filter glob_ok ps = ps" using that by (induction ps) auto
    then show ?thesis using that by (simp add: map_filter_Nil protected_hit_None allowed_def [abs_def])
  qed
  ultimately show ?thesis using pass Inr by auto
qed



lemma contract_protects_itself: "glob_ok contract_FileName \<and> protects contract_FileName contract_FileName"
proof -
  have seg: "segments contract_FileName = [contract_FileName]" by code_simp
  have "list_all (\<lambda>c. \<not> glob_meta c) contract_FileName" by code_simp
  then have m: "path_Match contract_FileName n = Inr (n = contract_FileName)" for n by (rule path_Match_literal)
  have "contract_FileName \<noteq> ''**''" by code_simp
  then show ?thesis
    by (auto simp: glob_ok_def protects_def seg m intro!: covers.one covers.nothing)
qed

text \<open>C28. A change cannot disarm the policy it is checked against. When the base revision has a
  contract, the paths loaded from it always include the contract itself, and the check of a change
  that touches the contract does not pass, whatever the contract says.\<close>

theorem contract_cannot_be_disarmed:
  assumes "gitShow git dir base contract_FileName = Inr data"
    and "LoadProtectedPathsAtRef git yaml dir base = Inr ps"
    and "ChangedFiles git dir base head = Inr changed" and "contract_FileName \<in> set changed"
  shows "contract_FileName \<in> set ps \<and> vr_Status (CheckProtectedPaths git dir base head ps) \<noteq> StatusPass"
proof -
  have ps: "contract_FileName \<in> set ps"
    using assms(1,2) by (auto simp: LoadProtectedPathsAtRef_def split: sum.splits if_splits)
  have "\<not> excepted git dir base head contract_FileName"
    by (simp add: excepted_def contract_FileName_def)
  then have "\<not> allowed git dir base head ps contract_FileName"
    using ps contract_protects_itself by (auto simp: allowed_def list_ex_iff)
  then have "\<not> list_all (allowed git dir base head ps) changed"
    using assms(4) by (auto simp: list_all_iff)
  then show ?thesis using ps assms(3) by (auto simp: CheckProtectedPaths_pass)
qed



section \<open>The exception for the module file\<close>


text \<open>The lines that belong to a retract directive, and whether a block is open after some lines.\<close>

fun next_in_block :: "bool \<Rightarrow> string \<Rightarrow> bool" where
  "next_in_block True l = (\<not> isRetractBlockClose (TrimSpace l))"
| "next_in_block False l =
     (case cutRetractKeyword (TrimSpace l) of None \<Rightarrow> False | Some rest \<Rightarrow> isRetractBlockOpen rest)"

fun in_block :: "bool \<Rightarrow> string list \<Rightarrow> bool" where
  "in_block b [] = b"
| "in_block b (l # ls) = in_block (next_in_block b l) ls"


lemma in_block_append [simp]: "in_block b (u @ v) = in_block (in_block b u) v"
  by (induction u arbitrary: b) auto
















section \<open>Hunk headers\<close>

text \<open>The groups are found exactly for the lines the pattern matches.\<close>

lemma digits_run:
  "list_all is_digit a \<Longrightarrow> a \<noteq> [] \<Longrightarrow> s \<noteq> [] \<Longrightarrow> \<not> is_digit (hd s) \<Longrightarrow> digits (a @ s) = Some (a, s)"
  by (cases s) (auto simp: digits_def list_all_iff takeWhile_append2 dropWhile_append2)

lemma digits_SomeD: "digits s = Some (a, t) \<Longrightarrow> s = a @ t \<and> a \<noteq> [] \<and> list_all is_digit a"
  by (auto simp: digits_def list_all_iff dest: set_takeWhileD split: if_splits)

lemma literal_iff [simp]: "literal p s = Some t \<longleftrightarrow> s = p @ t"
  by (auto simp: literal_def HasPrefix_iff)

definition is_range :: "string \<Rightarrow> bool" where
  "is_range w \<longleftrightarrow> (\<exists>a b. w = a @ b \<and> a \<noteq> [] \<and> list_all is_digit a \<and>
     (b = [] \<or> (\<exists>d. b = CHR '','' # d \<and> d \<noteq> [] \<and> list_all is_digit d)))"

lemma range_groups_run:
  assumes "is_range w" and "s = CHR '' '' # s'"
  shows "\<exists>a b. range_groups (w @ s) = Some (a, b, s)"
proof -
  obtain a b where w: "w = a @ b" "a \<noteq> []" "list_all is_digit a"
    and b: "b = [] \<or> (\<exists>d. b = CHR '','' # d \<and> d \<noteq> [] \<and> list_all is_digit d)"
    using assms(1) by (auto simp: is_range_def)
  have sp: "\<not> is_digit (CHR '' '')" "\<not> is_digit (CHR '','')" by code_simp+
  show ?thesis
  proof (cases "b = []")
    case True
    have "digits (a @ s) = Some (a, s)" using w sp assms(2) by (intro digits_run) auto
    then show ?thesis using w True assms(2) by (simp add: range_groups_def literal_def HasPrefix_def)
  next
    case False
    then obtain d where d: "b = CHR '','' # d" "d \<noteq> []" "list_all is_digit d" using b by blast
    have "digits (a @ b @ s) = Some (a, b @ s)" using w sp d by (intro digits_run) auto
    moreover have "digits (d @ s) = Some (d, s)" using d sp assms(2) by (intro digits_run) auto
    ultimately show ?thesis using w d by (simp add: range_groups_def literal_def HasPrefix_def)
  qed
qed

lemma range_groups_SomeD:
  assumes "range_groups s = Some (a, b, t)"
  shows "\<exists>w. s = w @ t \<and> is_range w"
proof -
  obtain s1 where d: "digits s = Some (a, s1)" using assms by (auto simp: range_groups_def split: option.splits)
  note D = digits_SomeD [OF d]
  consider "t = s1" | d2 where "s1 = CHR '','' # d2 @ t" "d2 \<noteq> []" "list_all is_digit d2"
    using assms d by (auto simp: range_groups_def dest!: digits_SomeD split: option.splits)
  then show ?thesis
  proof cases
    case 1
    then show ?thesis using D by (intro exI [of _ a]) (auto simp: is_range_def)
  next
    case (2 d2)
    then show ?thesis using D by (intro exI [of _ "a @ CHR '','' # d2"]) (auto simp: is_range_def)
  qed
qed

lemma matches_range:
  "matches (re_seq (re_at_least 1 is_digit # re_opt (re_seq [re_lit '','', re_at_least 1 is_digit]) # rs)) p w s \<longleftrightarrow>
     (\<exists>u v. w = u @ v \<and> is_range u \<and> matches (re_seq rs) (before p u) v s)" (is "?L \<longleftrightarrow> ?R")
proof
  assume ?L
  then obtain a b v where "w = a @ b @ v" "a \<noteq> []" "list_all is_digit a"
      "b = [] \<or> (\<exists>d. b = CHR '','' # d \<and> d \<noteq> [] \<and> list_all is_digit d)" "matches (re_seq rs) (before p (a @ b)) v s"
    unfolding matches_re_seq(2) by (simp add: matches_at_least_one [simplified]) blast
  then show ?R unfolding is_range_def by (intro exI [of _ "a @ b"] exI [of _ v]) auto
next
  assume ?R
  then obtain u v where "w = u @ v" "is_range u" "matches (re_seq rs) (before p u) v s" by blast
  moreover from this(2) obtain a b where "u = a @ b" "a \<noteq> []" "list_all is_digit a"
      "b = [] \<or> (\<exists>d. b = CHR '','' # d \<and> d \<noteq> [] \<and> list_all is_digit d)"
    unfolding is_range_def by blast
  moreover from calculation have w: "w = a @ b @ v" by simp
  ultimately show ?L unfolding w matches_re_seq(2)
    by (intro exI [of _ a] exI [of _ "b @ v"] exI [of _ b] exI [of _ v] conjI) (auto simp: matches_at_least_one [simplified])
qed

lemma hunk_groups_iff: "hunk_groups line \<noteq> None \<longleftrightarrow> MatchString fullHunkHeaderPattern line"
proof -
  have pat: "MatchString fullHunkHeaderPattern line \<longleftrightarrow>
      (\<exists>w w' v. line = ''@@ -'' @ w @ '' +'' @ w' @ '' @@'' @ v \<and> is_range w \<and> is_range w')"
  proof -
    have "matches (re_seq [re_lit ''@@ -'', re_at_least 1 is_digit, re_opt (re_seq [re_lit '','', re_at_least 1 is_digit]),
        re_lit '' +'', re_at_least 1 is_digit, re_opt (re_seq [re_lit '','', re_at_least 1 is_digit]), re_lit '' @@'']) None x v \<longleftrightarrow>
        (\<exists>w w'. x = ''@@ -'' @ w @ '' +'' @ w' @ '' @@'' \<and> is_range w \<and> is_range w')" for x v
      unfolding matches_re_seq(2) [of "re_lit _"] matches_range by simp blast
    moreover have "(\<exists>x v. line = x @ v \<and> (\<exists>w w'. x = f w w' \<and> is_range w \<and> is_range w')) \<longleftrightarrow>
        (\<exists>w w' v. line = f w w' @ v \<and> is_range w \<and> is_range w')" for f by blast
    from this [of "\<lambda>w w'. ''@@ -'' @ w @ '' +'' @ w' @ '' @@''"] calculation show ?thesis
      unfolding fullHunkHeaderPattern_def MatchString_anchored by (simp only: append.assoc)
  qed
  show ?thesis
  proof
    assume "hunk_groups line \<noteq> None"
    then obtain s1 a b s2 s3 c d s4 where "line = ''@@ -'' @ s1" "range_groups s1 = Some (a, b, s2)" "s2 = '' +'' @ s3"
        "range_groups s3 = Some (c, d, s4)" "\<exists>v. s4 = '' @@'' @ v"
      by (auto simp: hunk_groups_def bind_eq_Some_conv)
    then show "MatchString fullHunkHeaderPattern line"
      unfolding pat using range_groups_SomeD [of s1 a b s2] range_groups_SomeD [of s3 c d s4] by fastforce
  next
    assume "MatchString fullHunkHeaderPattern line"
    then obtain w w' v where l: "line = ''@@ -'' @ w @ '' +'' @ w' @ '' @@'' @ v" "is_range w" "is_range w'"
      unfolding pat by blast
    obtain a b where 1: "range_groups (w @ '' +'' @ w' @ '' @@'' @ v) = Some (a, b, '' +'' @ w' @ '' @@'' @ v)"
      using range_groups_run [OF l(2)] by simp blast
    obtain c d where 2: "range_groups (w' @ '' @@'' @ v) = Some (c, d, '' @@'' @ v)"
      using range_groups_run [OF l(3)] by simp blast
    have lit: "literal p (p @ s) = Some s" for p s by simp
    show "hunk_groups line \<noteq> None"
      unfolding hunk_groups_def l(1) lit bind.simps 1 2 prod.case by simp
  qed
qed


section \<open>Examples\<close>

text \<open>A repository with two revisions \<open>b\<close> and \<open>h\<close> of a few files, and the diffs between them.\<close>

definition ex_git :: "(string \<times> string \<times> string \<times> string) list \<Rightarrow> git_exec" where
  "ex_git fs = \<lparr>git_LookPath = Inr ''/usr/bin/git'', git_run = (\<lambda>_ args.
     if args = [''diff'', ''--name-only'', ''--no-color'', ''b...h'']
     then (None, strings_Join (map fst fs) nl, '''')
     else case List.find (\<lambda>(f, _). args = [''show'', ''b:'' @ f]) fs of
       Some (_, old, _, _) \<Rightarrow> (None, old, '''')
     | None \<Rightarrow> (case List.find (\<lambda>(f, _). args = [''show'', ''h:'' @ f]) fs of
         Some (_, _, new, _) \<Rightarrow> (None, new, '''')
       | None \<Rightarrow> (case List.find (\<lambda>(f, _). args = [''diff'', ''--unified=0'', ''--no-color'', ''b...h'', ''--'', f]) fs of
           Some (_, _, _, diff) \<Rightarrow> (None, diff, '''')
         | None \<Rightarrow> (Some (Sentinel ''exit status 128''), '''', ''fatal: bad object''))))\<rparr>"

definition ex_yaml :: "string \<Rightarrow> Contract result" where
  "ex_yaml data = Inr \<lparr>c_SchemaVersion = ''1.0.0'', c_Projects = [], c_Instructions = \<lparr>ip_Files = [], ip_Rule = ''''\<rparr>,
     c_Boundaries = [], c_Commands = [], c_Verification = \<lparr>vd_Focused = [], vd_Full = []\<rparr>,
     c_ProtectedPaths = [''docs/**/*.md''], c_GeneratedPaths = [], c_RequiredTools = [], c_OptionalServices = [],
     c_RequiredCredentials = [], c_HandoffFormat = ''''\<rparr>"

definition ex_contract_change :: git_exec where
  "ex_contract_change = ex_git [(contract_FileName, ''protected_paths: [docs/**/*.md]'', ''protected_paths: []'', '''')]"

theorem contract_cannot_be_disarmed_witness:
  "LoadProtectedPathsAtRef ex_contract_change ex_yaml '''' ''b'' = Inr [''docs/**/*.md'', contract_FileName] \<and>
   vr_Status (CheckProtectedPaths ex_contract_change '''' ''b'' ''h'' [''docs/**/*.md'', contract_FileName]) \<noteq> StatusPass"
proof -
  have data: "gitShow ex_contract_change '''' ''b'' contract_FileName = Inr ''protected_paths: [docs/**/*.md]''"
    and load: "LoadProtectedPathsAtRef ex_contract_change ex_yaml '''' ''b'' = Inr [''docs/**/*.md'', contract_FileName]"
    and changed: "ChangedFiles ex_contract_change '''' ''b'' ''h'' = Inr [contract_FileName]"
    by code_simp+
  show ?thesis using contract_cannot_be_disarmed [OF data load changed] load by simp
qed



text \<open>The exception for the change log looks at line ranges only: moving the header of the
  unreleased section into a released section is let through, although it takes notes away from that
  release.\<close>

definition ex_changelog :: git_exec where
  "ex_changelog = ex_git [(''CHANGELOG.md'', ''## [Unreleased]'' @ nl @ ''## [1.0.0]'' @ nl @ ''- fix'' @ nl @ ''- break'' @ nl,
     ''## [1.0.0]'' @ nl @ ''- fix'' @ nl @ ''## [Unreleased]'' @ nl @ ''- break'' @ nl,
     ''@@ -1 +0,0 @@'' @ nl @ ''-## [Unreleased]'' @ nl @ ''@@ -3,0 +3 @@'' @ nl @ ''+## [Unreleased]'' @ nl)]"

theorem changelog_exception_moves_notes:
  "vr_Status (CheckProtectedPaths ex_changelog '''' ''b'' ''h'' [''CHANGELOG.md'']) = StatusPass"
  by code_simp

end
