(* ===== verification/Discovery.thy ===== *)
theory Discovery
  imports Verify ProtectedPaths
begin

text \<open>
  Repository discovery, \<open>src/discovery/discovery.go\<close>. A repository is a tree of directories and
  files; the entries of a directory stand in the order \<open>os.ReadDir\<close> gives them, sorted by name, and
  a file or a directory may be unreadable. Symbolic links are left out. The Go parser, the search
  path and git are parameters. Paths are the texts relative to the root.
\<close>

datatype dnode =
    NFile "gerror option" string
  | NDir "gerror option" "(string \<times> dnode) list"

fun node_IsDir :: "dnode \<Rightarrow> bool" where
  "node_IsDir (NDir _ _) = True"
| "node_IsDir (NFile _ _) = False"

definition errIsDirectory :: gerror where
  "errIsDirectory = Sentinel ''is a directory''"

fun child :: "dnode \<Rightarrow> string \<Rightarrow> dnode option" where
  "child (NDir _ es) name = map_of es name"
| "child (NFile _ _) name = None"

fun ReadDir :: "dnode \<Rightarrow> (string \<times> dnode) list result" where
  "ReadDir (NDir None es) = Inr es"
| "ReadDir (NDir (Some e) es) = Inl e"
| "ReadDir (NFile _ _) = Inl (Sentinel ''not a directory'')"

text \<open>\<open>os.ReadFile\<close> of an entry: \<open>Inr None\<close> when it does not exist.\<close>

definition read_child :: "dnode \<Rightarrow> string \<Rightarrow> string option result" where
  "read_child n name = (case child n name of
     None \<Rightarrow> Inr None
   | Some (NFile None content) \<Rightarrow> Inr (Some content)
   | Some (NFile (Some e) _) \<Rightarrow> Inl e
   | Some (NDir _ _) \<Rightarrow> Inl errIsDirectory)"

definition path_join :: "string \<Rightarrow> string \<Rightarrow> string" where
  "path_join rel name = (if rel = ''.'' then name else rel @ ''/'' @ name)"

text \<open>\<open>filepath.Join\<close> of the absolute root and a relative path.\<close>

definition root_path :: "string \<Rightarrow> string \<Rightarrow> string" where
  "root_path root rel =
     (if rel = ''.'' then root else if root = ''/'' then ''/'' @ rel else root @ ''/'' @ rel)"


section \<open>Records\<close>

record GoModule =
  gm_Path :: string
  gm_ModulePath :: string

record CompositionRoot =
  cro_Path :: string
  cro_Reason :: string

record FoundInstructionFile =
  fi_Path :: string
  fi_Name :: string

record IndexStatus =
  is_Name :: string
  is_Present :: bool

record Repository =
  rp_Root :: string
  rp_IsGitRepo :: bool
  rp_Dirty :: bool
  rp_Modules :: "GoModule list"
  rp_CompositionRoots :: "CompositionRoot list"
  rp_InstructionFiles :: "FoundInstructionFile list"
  rp_MakeTargets :: "string list"
  rp_CIWorkflows :: "string list"
  rp_Indexes :: "IndexStatus list"
  rp_Tools :: "ToolStatus list"

definition defaultIndexNames :: "string list" where
  "defaultIndexNames = [''.codegraph'', ''.git'', ''.tokensave'']"

definition defaultToolNames :: "string list" where
  "defaultToolNames = [''go'', ''git'', ''golangci-lint'', ''gofmt'', ''docker'']"

definition wellKnownInstructionNames :: "string list" where
  "wellKnownInstructionNames = [''AGENTS.md'', ''CLAUDE.md'', ''.cursorrules'', ''copilot-instructions.md'']"

definition shouldSkipDir :: "string \<Rightarrow> bool" where
  "shouldSkipDir name =
     (if name = ''vendor'' \<or> name = ''node_modules'' then True
      else if name = ''.github'' then False
      else HasPrefix name ''.'')"


section \<open>Modules\<close>

text \<open>The group of \<open>^\s*module\s+(\S+)\<close>, and \<open>strings.Trim\<close> of the two quote characters.\<close>

definition module_directive :: "string \<Rightarrow> string option" where
  "module_directive line =
     (let s = dropWhile re_space line in
      if \<not> HasPrefix s ''module'' then None
      else let r = TrimPrefix s ''module''; v = takeWhile (\<lambda>c. \<not> re_space c) (dropWhile re_space r) in
        if r \<noteq> [] \<and> re_space (hd r) \<and> v \<noteq> [] then Some v else None)"

definition trim_quotes :: "string \<Rightarrow> string" where
  "trim_quotes s =
     (let q = (\<lambda>c. c = CHR 0x22 \<or> c = CHR 0x60) in rev (dropWhile q (rev (dropWhile q s))))"

definition readModulePath :: "string \<Rightarrow> dnode \<Rightarrow> string option result" where
  "readModulePath goModPath dir = (case read_child dir ''go.mod'' of
     Inl e \<Rightarrow> Inl (Errorf [Lit ''reading '', Lit goModPath, Lit '': '', Wrapped e])
   | Inr None \<Rightarrow> Inr None
   | Inr (Some data) \<Rightarrow>
     (case List.map_filter module_directive (strings_Split data (CHR 0x0A)) of
        [] \<Rightarrow> Inr (Some '''')
      | m # _ \<Rightarrow> Inr (Some (trim_quotes m))))"

fun walkForModules :: "string \<Rightarrow> string \<Rightarrow> dnode \<Rightarrow> GoModule list result"
and walk_module_entries :: "string \<Rightarrow> string \<Rightarrow> (string \<times> dnode) list \<Rightarrow> GoModule list result" where
  "walkForModules root rel (NFile e c) = Inr []"
| "walkForModules root rel (NDir e es) =
     (case readModulePath (root_path root (path_join rel ''go.mod'')) (NDir e es) of
        Inl err \<Rightarrow> Inl err
      | Inr (Some modulePath) \<Rightarrow> Inr [\<lparr>gm_Path = rel, gm_ModulePath = modulePath\<rparr>]
      | Inr None \<Rightarrow>
        (case e of
           Some err \<Rightarrow> Inl (Errorf [Lit ''reading '', Lit (root_path root rel), Lit '': '', Wrapped err])
         | None \<Rightarrow> walk_module_entries root rel es))"
| "walk_module_entries root rel [] = Inr []"
| "walk_module_entries root rel ((name, n) # es) =
     (case (if \<not> node_IsDir n \<or> shouldSkipDir name then Inr [] else walkForModules root (path_join rel name) n) of
        Inl err \<Rightarrow> Inl err
      | Inr ms \<Rightarrow> (case walk_module_entries root rel es of Inl err \<Rightarrow> Inl err | Inr ms' \<Rightarrow> Inr (ms @ ms')))"

definition discoverModules :: "string \<Rightarrow> dnode \<Rightarrow> GoModule list result" where
  "discoverModules root n =
     (case readModulePath (root_path root ''go.mod'') n of
        Inl err \<Rightarrow> Inl err
      | Inr m \<Rightarrow>
        (let mods = (case m of None \<Rightarrow> [] | Some p \<Rightarrow> [\<lparr>gm_Path = ''.'', gm_ModulePath = p\<rparr>]) in
         case ReadDir n of
           Inl err \<Rightarrow> Inl (Errorf [Lit ''reading '', Lit root, Lit '': '', Wrapped err])
         | Inr es \<Rightarrow>
           (case walk_module_entries root ''.'' es of
              Inl err \<Rightarrow> Inl err
            | Inr ms \<Rightarrow> Inr (sort_key gm_Path (mods @ ms)))))"


section \<open>Composition roots\<close>

text \<open>What the Go parser finds in a file: the package name and, of its functions, whether they have
  a receiver and their name; \<open>None\<close> when the file does not parse.\<close>

type_synonym go_parser = "string \<Rightarrow> (string \<times> (bool \<times> string) list) option"

definition file_has_main :: "go_parser \<Rightarrow> string \<times> dnode \<Rightarrow> bool" where
  "file_has_main parse e =
     (case e of (name, n) \<Rightarrow>
      if node_IsDir n \<or> \<not> HasSuffix name ''.go'' \<or> HasSuffix name ''_test.go'' then False
      else case n of
        NFile None content \<Rightarrow>
          (case parse content of
             None \<Rightarrow> False
           | Some (pkg, fns) \<Rightarrow> pkg = ''main'' \<and> list_ex (\<lambda>(recv, fn). \<not> recv \<and> fn = ''main'') fns)
      | _ \<Rightarrow> False)"

definition dirHasMainFunc :: "go_parser \<Rightarrow> dnode \<Rightarrow> bool result" where
  "dirHasMainFunc parse dir = (case ReadDir dir of
     Inl e \<Rightarrow> Inl e | Inr es \<Rightarrow> Inr (list_ex (file_has_main parse) es))"

definition mainCompositionRoot ::
    "go_parser \<Rightarrow> string \<Rightarrow> dnode \<Rightarrow> string list \<Rightarrow> CompositionRoot list \<times> string list" where
  "mainCompositionRoot parse rel dir seen =
     (if dirHasMainFunc parse dir \<noteq> Inr True \<or> rel \<in> set seen then ([], seen)
      else ([\<lparr>cro_Path = rel, cro_Reason = ''contains a func main() declaration''\<rparr>], rel # seen))"

definition examplesCompositionRoots :: "string \<Rightarrow> dnode \<Rightarrow> (CompositionRoot list \<times> string list) result" where
  "examplesCompositionRoots root n =
     (case child n ''examples'' of
        None \<Rightarrow> Inr ([], [])
      | Some ex \<Rightarrow>
        if \<not> node_IsDir ex then Inr ([], [])
        else case ReadDir ex of
          Inl e \<Rightarrow> Inl (Errorf [Lit ''reading '', Lit (root_path root ''examples''), Lit '': '', Wrapped e])
        | Inr es \<Rightarrow>
          (let rels = map (\<lambda>(name, _). ''examples/'' @ name) (filter (\<lambda>(_, c). node_IsDir c) es)
           in Inr (map (\<lambda>rel. \<lparr>cro_Path = rel, cro_Reason = ''direct child directory of examples/''\<rparr>) rels, rels)))"

text \<open>\<open>filepath.WalkDir\<close> visits a directory before it reads its entries.\<close>

fun walk_roots :: "go_parser \<Rightarrow> string \<Rightarrow> dnode \<Rightarrow> string list \<Rightarrow> (CompositionRoot list \<times> string list) result"
and walk_root_entries :: "go_parser \<Rightarrow> string \<Rightarrow> (string \<times> dnode) list \<Rightarrow> string list \<Rightarrow> (CompositionRoot list \<times> string list) result" where
  "walk_roots parse rel (NFile e c) seen = Inr ([], seen)"
| "walk_roots parse rel (NDir e es) seen =
     (case mainCompositionRoot parse rel (NDir e es) seen of (crs, seen1) \<Rightarrow>
      case e of
        Some err \<Rightarrow> Inl err
      | None \<Rightarrow>
        (case walk_root_entries parse rel es seen1 of
           Inl err \<Rightarrow> Inl err
         | Inr (crs', seen2) \<Rightarrow> Inr (crs @ crs', seen2)))"
| "walk_root_entries parse rel [] seen = Inr ([], seen)"
| "walk_root_entries parse rel ((name, n) # es) seen =
     (case (if \<not> node_IsDir n \<or> shouldSkipDir name then Inr ([], seen) else walk_roots parse (path_join rel name) n seen) of
        Inl err \<Rightarrow> Inl err
      | Inr (crs, seen1) \<Rightarrow>
        (case walk_root_entries parse rel es seen1 of
           Inl err \<Rightarrow> Inl err
         | Inr (crs', seen2) \<Rightarrow> Inr (crs @ crs', seen2)))"

definition discoverCompositionRoots :: "go_parser \<Rightarrow> string \<Rightarrow> dnode \<Rightarrow> CompositionRoot list result" where
  "discoverCompositionRoots parse root n =
     (case examplesCompositionRoots root n of
        Inl e \<Rightarrow> Inl e
      | Inr (out, seen) \<Rightarrow>
        (case walk_roots parse ''.'' n seen of
           Inl e \<Rightarrow> Inl (Errorf [Lit ''walking for composition roots: '', Wrapped e])
         | Inr (crs, _) \<Rightarrow> Inr (sort_key cro_Path (out @ crs))))"


section \<open>Instruction files, make targets, workflows\<close>

fun walk_instructions :: "string \<Rightarrow> dnode \<Rightarrow> FoundInstructionFile list result"
and walk_instruction_entries :: "string \<Rightarrow> (string \<times> dnode) list \<Rightarrow> FoundInstructionFile list result" where
  "walk_instructions rel (NFile e c) = Inr []"
| "walk_instructions rel (NDir e es) =
     (case e of Some err \<Rightarrow> Inl err | None \<Rightarrow> walk_instruction_entries rel es)"
| "walk_instruction_entries rel [] = Inr []"
| "walk_instruction_entries rel ((name, n) # es) =
     (case (if node_IsDir n then (if shouldSkipDir name then Inr [] else walk_instructions (path_join rel name) n)
            else if name \<in> set wellKnownInstructionNames
            then Inr [\<lparr>fi_Path = path_join rel name, fi_Name = name\<rparr>] else Inr []) of
        Inl err \<Rightarrow> Inl err
      | Inr fs \<Rightarrow> (case walk_instruction_entries rel es of Inl err \<Rightarrow> Inl err | Inr fs' \<Rightarrow> Inr (fs @ fs')))"

definition discoverInstructionFiles :: "dnode \<Rightarrow> FoundInstructionFile list result" where
  "discoverInstructionFiles root =
     (case walk_instructions ''.'' root of
        Inl e \<Rightarrow> Inl (Errorf [Lit ''walking for instruction files: '', Wrapped e])
      | Inr fs \<Rightarrow> Inr (sort_key fi_Path fs))"

definition TrimRight_cr :: "string \<Rightarrow> string" where
  "TrimRight_cr s = rev (dropWhile (\<lambda>c. c = CHR 0x0D) (rev s))"

definition is_target_byte :: "char \<Rightarrow> bool" where
  "is_target_byte c \<longleftrightarrow> is_word c \<or> c = CHR ''-''"

text \<open>The group of \<open>^([A-Za-z0-9_-]+):\<close>.\<close>

definition make_target :: "string \<Rightarrow> string list" where
  "make_target line =
     (let t = takeWhile is_target_byte line in
      if t \<noteq> [] \<and> HasPrefix (drop (length t) line) '':'' then [t] else [])"

definition line_targets :: "string \<Rightarrow> string list" where
  "line_targets line0 =
     (let line = TrimRight_cr line0 in
      if HasPrefix line [CHR 0x09] then []
      else if HasPrefix line ''#'' then []
      else if strings_Contains line '':='' then []
      else if HasPrefix line ''.PHONY:'' then strings_Fields (TrimPrefix line ''.PHONY:'')
      else make_target line)"

definition discoverMakeTargets :: "dnode \<Rightarrow> string list result" where
  "discoverMakeTargets root = (case read_child root ''Makefile'' of
     Inl e \<Rightarrow> Inl (Errorf [Lit ''reading Makefile: '', Wrapped e])
   | Inr None \<Rightarrow> Inr []
   | Inr (Some data) \<Rightarrow> Inr (sort (remdups (concat (map line_targets (strings_Split data (CHR 0x0A)))))))"

text \<open>\<open>os.ReadDir\<close> of \<open>.github/workflows\<close>: \<open>Inr None\<close> when it does not exist.\<close>

definition read_workflows_dir :: "dnode \<Rightarrow> (string \<times> dnode) list option result" where
  "read_workflows_dir n = (case child n ''.github'' of
     None \<Rightarrow> Inr None
   | Some g \<Rightarrow>
     if \<not> node_IsDir g then Inl (Sentinel ''not a directory'')
     else case child g ''workflows'' of
       None \<Rightarrow> Inr None
     | Some d \<Rightarrow> (case ReadDir d of Inl e \<Rightarrow> Inl e | Inr es \<Rightarrow> Inr (Some es)))"

definition discoverCIWorkflows :: "string \<Rightarrow> dnode \<Rightarrow> string list result" where
  "discoverCIWorkflows root n =
     (case read_workflows_dir n of
        Inl e \<Rightarrow> Inl (Errorf [Lit ''reading '', Lit (root_path root ''.github/workflows''), Lit '': '', Wrapped e])
      | Inr None \<Rightarrow> Inr []
      | Inr (Some es) \<Rightarrow> Inr (sort (map fst (filter (\<lambda>(name, c). \<not> node_IsDir c \<and>
          (HasSuffix name ''.yml'' \<or> HasSuffix name ''.yaml'')) es))))"

definition discoverIndexes :: "dnode \<Rightarrow> string list \<Rightarrow> IndexStatus list" where
  "discoverIndexes root names = sort_key is_Name (map (\<lambda>name.
     \<lparr>is_Name = name, is_Present = (case child root name of None \<Rightarrow> False | Some n \<Rightarrow> node_IsDir n)\<rparr>) names)"

definition discoverTools :: "(string \<Rightarrow> string \<times> gerror option) \<Rightarrow> string list \<Rightarrow> ToolStatus list" where
  "discoverTools lookPath names = sort_key ts_Name (map (\<lambda>name. case lookPath name of
     (path, err) \<Rightarrow> \<lparr>ts_Name = name, ts_Present = (err = None), ts_Path = path\<rparr>) names)"

definition discoverGitStatus :: "git_exec \<Rightarrow> string \<Rightarrow> dnode \<Rightarrow> bool \<times> bool" where
  "discoverGitStatus git rootPath root =
     (if child root ''.git'' = None then (False, False)
      else case git_LookPath git of
        Inl _ \<Rightarrow> (True, False)
      | Inr gitPath \<Rightarrow>
        (case git_run git gitPath [''-C'', rootPath, ''status'', ''--porcelain''] of
           (Some _, _, _) \<Rightarrow> (True, False)
         | (None, out, _) \<Rightarrow> (True, TrimSpace out \<noteq> '''')))"


section \<open>Discover\<close>

text \<open>The surroundings of a scan: the absolute path of a root, what \<open>os.Stat\<close> finds there, the
  search path, git and the Go parser.\<close>

record discover_env =
  de_Abs :: "string \<Rightarrow> string result"
  de_Stat :: "string \<Rightarrow> dnode result"
  de_LookPath :: "string \<Rightarrow> string \<times> gerror option"
  de_git :: git_exec
  de_parser :: go_parser

definition scan_error :: "string \<Rightarrow> gerror \<Rightarrow> gerror" where
  "scan_error what e = Errorf [Lit ''discovery: '', Lit what, Lit '': '', Wrapped e]"

definition Discover :: "discover_env \<Rightarrow> string \<Rightarrow> Repository result" where
  "Discover env root =
     (case de_Abs env root of
        Inl e \<Rightarrow> Inl (Errorf [Lit ''discovery: resolving root '', Quoted root, Lit '': '', Wrapped e])
      | Inr absRoot \<Rightarrow>
      case de_Stat env absRoot of
        Inl e \<Rightarrow> Inl (Errorf [Lit ''discovery: root '', Quoted root, Lit '': '', Wrapped e])
      | Inr n \<Rightarrow>
      if \<not> node_IsDir n then Inl (Errorf [Lit ''discovery: root '', Quoted root, Lit '' is not a directory''])
      else case discoverModules absRoot n of
        Inl e \<Rightarrow> Inl (scan_error ''scanning for go modules'' e)
      | Inr modules \<Rightarrow>
      case discoverCompositionRoots (de_parser env) absRoot n of
        Inl e \<Rightarrow> Inl (scan_error ''scanning for composition roots'' e)
      | Inr compositionRoots \<Rightarrow>
      case discoverInstructionFiles n of
        Inl e \<Rightarrow> Inl (scan_error ''scanning for instruction files'' e)
      | Inr instructionFiles \<Rightarrow>
      case discoverMakeTargets n of
        Inl e \<Rightarrow> Inl (scan_error ''parsing Makefile'' e)
      | Inr makeTargets \<Rightarrow>
      case discoverCIWorkflows absRoot n of
        Inl e \<Rightarrow> Inl (scan_error ''scanning for CI workflows'' e)
      | Inr ciWorkflows \<Rightarrow>
      (case discoverGitStatus (de_git env) absRoot n of (isGitRepo, dirty) \<Rightarrow>
       Inr \<lparr>rp_Root = absRoot, rp_IsGitRepo = isGitRepo, rp_Dirty = dirty, rp_Modules = modules,
            rp_CompositionRoots = compositionRoots, rp_InstructionFiles = instructionFiles,
            rp_MakeTargets = makeTargets, rp_CIWorkflows = ciWorkflows,
            rp_Indexes = discoverIndexes n defaultIndexNames,
            rp_Tools = discoverTools (de_LookPath env) defaultToolNames\<rparr>))"



section \<open>The module scan finds the outermost modules\<close>

text \<open>A well-formed tree: the names of a directory are distinct. A readable one: every directory and
  file can be read, and no directory is named \<open>go.mod\<close>.\<close>

fun tree_ok :: "dnode \<Rightarrow> bool"
and entries_ok :: "(string \<times> dnode) list \<Rightarrow> bool" where
  "tree_ok (NFile e c) = True"
| "tree_ok (NDir e es) = (distinct (map fst es) \<and> entries_ok es)"
| "entries_ok [] = True"
| "entries_ok ((name, n) # es) = (tree_ok n \<and> entries_ok es)"

fun readable :: "dnode \<Rightarrow> bool"
and entries_readable :: "(string \<times> dnode) list \<Rightarrow> bool" where
  "readable (NFile e c) = (e = None)"
| "readable (NDir e es) = (e = None \<and> entries_readable es)"
| "entries_readable [] = True"
| "entries_readable ((name, n) # es) =
     (readable n \<and> (name = ''go.mod'' \<longrightarrow> \<not> node_IsDir n) \<and> entries_readable es)"

fun node_at :: "dnode \<Rightarrow> string list \<Rightarrow> dnode option" where
  "node_at n [] = Some n"
| "node_at n (x # p) = (case child n x of None \<Rightarrow> None | Some c \<Rightarrow> node_at c p)"

definition go_mod :: "dnode \<Rightarrow> string option" where
  "go_mod d = (case readModulePath '''' d of Inr m \<Rightarrow> m | Inl _ \<Rightarrow> None)"

definition walked_dir :: "dnode \<Rightarrow> string list \<Rightarrow> bool" where
  "walked_dir n p \<longleftrightarrow>
     list_all (\<lambda>x. \<not> shouldSkipDir x) p \<and> (\<exists>d. node_at n p = Some d \<and> node_IsDir d)"

definition module_in :: "dnode \<Rightarrow> string list \<Rightarrow> string \<Rightarrow> bool" where
  "module_in n p mp \<longleftrightarrow>
     walked_dir n p \<and> Option.bind (node_at n p) go_mod = Some mp \<and>
     (\<forall>q. strict_prefix q p \<longrightarrow> Option.bind (node_at n q) go_mod = None)"

lemma readModulePath_go_mod: "readModulePath g d = Inr m \<Longrightarrow> go_mod d = m"
  by (auto simp: readModulePath_def go_mod_def split: sum.splits option.splits list.splits)

lemma readModulePath_readable:
  "entries_readable es \<Longrightarrow> readModulePath g (NDir e es) = Inr (go_mod (NDir e es))"
proof (induction es)
  case Nil
  then show ?case by (simp add: readModulePath_def go_mod_def read_child_def)
next
  case (Cons a es)
  obtain name n where [simp]: "a = (name, n)" by force
  show ?case
    using Cons by (cases n) (auto simp: readModulePath_def go_mod_def read_child_def
        split: sum.splits option.splits list.splits dnode.splits if_splits)
qed

lemma module_in_Nil: "module_in n [] mp \<longleftrightarrow> node_IsDir n \<and> go_mod n = Some mp"
  by (simp add: module_in_def walked_dir_def)

lemma module_in_Cons:
  "module_in n (x # p) mp \<longleftrightarrow>
     \<not> shouldSkipDir x \<and> go_mod n = None \<and> (\<exists>c. child n x = Some c \<and> module_in c p mp)"
proof -
  have "(\<forall>q. strict_prefix q (x # p) \<longrightarrow> P q) \<longleftrightarrow> P [] \<and> (\<forall>q. strict_prefix q p \<longrightarrow> P (x # q))" for P
  proof
    show "P [] \<and> (\<forall>q. strict_prefix q p \<longrightarrow> P (x # q))" if "\<forall>q. strict_prefix q (x # p) \<longrightarrow> P q"
      using that by simp
    show "\<forall>q. strict_prefix q (x # p) \<longrightarrow> P q" if "P [] \<and> (\<forall>q. strict_prefix q p \<longrightarrow> P (x # q))"
    proof (intro allI impI)
      fix q assume "strict_prefix q (x # p)"
      then show "P q" using that by (cases q) auto
    qed
  qed
  then show ?thesis
    by (cases "child n x") (auto simp: module_in_def walked_dir_def)
qed

definition found :: "string \<Rightarrow> dnode \<Rightarrow> GoModule set" where
  "found rel n = {m. \<exists>p. module_in n p (gm_ModulePath m) \<and> gm_Path m = foldl path_join rel p}"

definition found_entries :: "string \<Rightarrow> (string \<times> dnode) list \<Rightarrow> GoModule set" where
  "found_entries rel es = (\<Union>(name, n) \<in> set es.
     if node_IsDir n \<and> \<not> shouldSkipDir name then found (path_join rel name) n else {})"

lemma node_IsDir_of_module: "module_in n p mp \<Longrightarrow> node_IsDir n"
  by (cases p; cases n) (auto simp: module_in_Nil module_in_Cons)

lemma found_module: "go_mod (NDir e es) = Some mp \<Longrightarrow> found rel (NDir e es) = {\<lparr>gm_Path = rel, gm_ModulePath = mp\<rparr>}"
proof -
  assume g: "go_mod (NDir e es) = Some mp"
  have "module_in (NDir e es) p mp' \<longleftrightarrow> p = [] \<and> mp' = mp" for p mp'
    using g by (cases p) (auto simp: module_in_Nil module_in_Cons)
  then show ?thesis by (auto simp: found_def)
qed

lemma found_below:
  assumes "go_mod (NDir e es) = None" "distinct (map fst es)"
  shows "found rel (NDir e es) = found_entries rel es"
proof -
  have "m \<in> found rel (NDir e es) \<longleftrightarrow>
      (\<exists>x c. map_of es x = Some c \<and> \<not> shouldSkipDir x \<and> m \<in> found (path_join rel x) c)" for m
  proof -
    have "m \<in> found rel (NDir e es) \<longleftrightarrow>
        (\<exists>x p. module_in (NDir e es) (x # p) (gm_ModulePath m) \<and> gm_Path m = foldl path_join rel (x # p))"
      unfolding found_def mem_Collect_eq using assms(1) module_in_Nil by (metis neq_Nil_conv option.distinct(1))
    then show ?thesis by (auto simp: found_def module_in_Cons assms(1))
  qed
  then show ?thesis
    using assms(2) node_IsDir_of_module
    by (fastforce simp: found_entries_def found_def map_of_eq_Some_iff split: if_splits)
qed

lemma walkForModules_found:
  "tree_ok n \<Longrightarrow> readable n \<Longrightarrow> \<exists>ms. walkForModules root rel n = Inr ms \<and> set ms = found rel n"
  "entries_ok es \<Longrightarrow> entries_readable es \<Longrightarrow>
     \<exists>ms. walk_module_entries root rel es = Inr ms \<and> set ms = found_entries rel es"
proof (induction root rel n and root rel es rule: walkForModules_walk_module_entries.induct)
  case (1 root rel e c)
  then show ?case by (auto simp: found_def dest: node_IsDir_of_module)
next
  case (2 root rel e es)
  show ?case
  proof (cases "go_mod (NDir e es)")
    case None
    then show ?thesis
      using 2 readModulePath_readable [of es _ e] by (auto simp: found_below)
  next
    case (Some mp)
    then show ?thesis
      using 2 readModulePath_readable [of es _ e] by (auto simp: found_module)
  qed
next
  case (3 root rel)
  then show ?case by (simp add: found_entries_def)
next
  case (4 root rel name n es)
  then show ?case by (auto simp: found_entries_def)
qed

text \<open>The directories whose \<open>go.mod\<close> the scan reports: the root, and below it every directory
  reached without entering a skipped one, unless a directory on the way, the root apart, is itself a
  module.\<close>

definition reported_module :: "dnode \<Rightarrow> string list \<Rightarrow> string \<Rightarrow> bool" where
  "reported_module n p mp \<longleftrightarrow>
     walked_dir n p \<and> Option.bind (node_at n p) go_mod = Some mp \<and>
     (\<forall>q. strict_prefix q p \<and> q \<noteq> [] \<longrightarrow> Option.bind (node_at n q) go_mod = None)"


lemma reported_module_Nil: "reported_module n [] mp \<longleftrightarrow> node_IsDir n \<and> go_mod n = Some mp"
  by (simp add: reported_module_def walked_dir_def)

lemma reported_module_Cons:
  "reported_module n (x # p) mp \<longleftrightarrow> \<not> shouldSkipDir x \<and> (\<exists>c. child n x = Some c \<and> module_in c p mp)"
proof -
  have "(\<forall>q. strict_prefix q (x # p) \<and> q \<noteq> [] \<longrightarrow> P q) \<longleftrightarrow> (\<forall>q. strict_prefix q p \<longrightarrow> P (x # q))" for P
    by (metis Cons_prefix_Cons list.distinct(1) list.exhaust list.inject prefix_Cons strict_prefix_def)
  then show ?thesis
    by (cases "child n x") (auto simp: reported_module_def walked_dir_def module_in_def)
qed

lemma ex_list: "(\<exists>p. P p) \<longleftrightarrow> P [] \<or> (\<exists>x p. P (x # p))"
  by (metis list.exhaust)

lemma found_entries_reported:
  assumes "distinct (map fst es)"
  shows "m \<in> found_entries ''.'' es \<longleftrightarrow>
    (\<exists>x p. reported_module (NDir e es) (x # p) (gm_ModulePath m) \<and> gm_Path m = foldl path_join ''.'' (x # p))"
  using assms node_IsDir_of_module
  by (fastforce simp: found_entries_def found_def reported_module_Cons map_of_eq_Some_iff split: if_splits)

text \<open>C33. On a readable tree the scan for Go modules succeeds, and its result, sorted by path, lists
  exactly the outermost modules: the root when it has a \<open>go.mod\<close>, and every directory below that has
  one, that is reached without entering a skipped directory, and on whose way no other directory but
  the root has one.\<close>

theorem discoverModules_outermost:
  assumes "tree_ok (NDir None es)" "readable (NDir None es)"
  shows "\<exists>ms. discoverModules root (NDir None es) = Inr ms \<and> sorted (map gm_Path ms) \<and>
    (\<forall>m. m \<in> set ms \<longleftrightarrow>
      (\<exists>p. reported_module (NDir None es) p (gm_ModulePath m) \<and> gm_Path m = foldl path_join ''.'' p))"
proof -
  obtain ms where ms: "walk_module_entries root ''.'' es = Inr ms" "set ms = found_entries ''.'' es"
    using walkForModules_found(2) [of es root "''.''"] assms by auto
  let ?own = "case go_mod (NDir None es) of None \<Rightarrow> [] | Some p \<Rightarrow> [\<lparr>gm_Path = ''.'', gm_ModulePath = p\<rparr>]"
  have d: "discoverModules root (NDir None es) = Inr (sort_key gm_Path (?own @ ms))"
    using assms(2) ms(1) readModulePath_readable [of es _ None] by (simp add: discoverModules_def Let_def)
  have "m \<in> set ?own \<longleftrightarrow> reported_module (NDir None es) [] (gm_ModulePath m) \<and> gm_Path m = ''.''" for m
    by (cases "go_mod (NDir None es)") (auto simp: reported_module_Nil)
  then have "m \<in> set (?own @ ms) \<longleftrightarrow>
      (\<exists>p. reported_module (NDir None es) p (gm_ModulePath m) \<and> gm_Path m = foldl path_join ''.'' p)" for m
    using found_entries_reported [of es m None] assms(1) ms(2)
    by (subst ex_list) simp
  then show ?thesis by (intro exI [of _ "sort_key gm_Path (?own @ ms)"]) (simp add: d)
qed

definition sample_tree :: "(string \<times> dnode) list" where
  "sample_tree =
    [(''.git'', NDir None [(''go.mod'', NFile None ''module hidden'')]),
     (''go.mod'', NFile None ''module m''),
     (''nats'', NDir None [(''go.mod'', NFile None ''module m/nats''),
                           (''sub'', NDir None [(''go.mod'', NFile None ''module inner'')])]),
     (''tools'', NDir None [(''cli'', NDir None [(''go.mod'', NFile None ''module m/cli'')])])]"

lemma sample_tree_walk:
  "walk_module_entries ''/r'' ''.'' sample_tree =
     Inr [\<lparr>gm_Path = ''nats'', gm_ModulePath = ''m/nats''\<rparr>, \<lparr>gm_Path = ''tools/cli'', gm_ModulePath = ''m/cli''\<rparr>]"
  "readModulePath (root_path ''/r'' ''go.mod'') (NDir None sample_tree) = Inr (Some ''m'')"
  "tree_ok (NDir None sample_tree)" "readable (NDir None sample_tree)"
  by code_simp+

theorem discoverModules_outermost_witness:
  "tree_ok (NDir None sample_tree) \<and> readable (NDir None sample_tree) \<and>
   discoverModules ''/r'' (NDir None sample_tree) =
     Inr [\<lparr>gm_Path = ''.'', gm_ModulePath = ''m''\<rparr>, \<lparr>gm_Path = ''nats'', gm_ModulePath = ''m/nats''\<rparr>,
          \<lparr>gm_Path = ''tools/cli'', gm_ModulePath = ''m/cli''\<rparr>] \<and>
   (\<exists>p. reported_module (NDir None sample_tree) p ''m/cli'' \<and> ''tools/cli'' = foldl path_join ''.'' p)"
proof -
  let ?ms = "[\<lparr>gm_Path = ''.'', gm_ModulePath = ''m''\<rparr>, \<lparr>gm_Path = ''nats'', gm_ModulePath = ''m/nats''\<rparr>,
          \<lparr>gm_Path = ''tools/cli'', gm_ModulePath = ''m/cli''\<rparr>]"
  have r: "discoverModules ''/r'' (NDir None sample_tree) = Inr ?ms"
    by (simp add: discoverModules_def sample_tree_walk)
  have "m \<in> set ?ms \<longleftrightarrow>
      (\<exists>p. reported_module (NDir None sample_tree) p (gm_ModulePath m) \<and> gm_Path m = foldl path_join ''.'' p)" for m
    using discoverModules_outermost [OF sample_tree_walk(3,4), of "''/r''"] unfolding r by blast
  from this [of "\<lparr>gm_Path = ''tools/cli'', gm_ModulePath = ''m/cli''\<rparr>"] show ?thesis
    using r sample_tree_walk(3,4) by simp
qed


section \<open>Composition roots and make targets\<close>

definition fresh_roots :: "CompositionRoot list \<Rightarrow> string list \<Rightarrow> string list \<Rightarrow> bool" where
  "fresh_roots crs seen seen' \<longleftrightarrow>
     distinct (map cro_Path crs) \<and> set (map cro_Path crs) \<inter> set seen = {} \<and>
     set seen' = set seen \<union> set (map cro_Path crs)"

lemma fresh_roots_Nil: "fresh_roots [] seen seen"
  by (simp add: fresh_roots_def)

lemma fresh_roots_append:
  "fresh_roots crs seen seen1 \<Longrightarrow> fresh_roots crs' seen1 seen2 \<Longrightarrow> fresh_roots (crs @ crs') seen seen2"
  unfolding fresh_roots_def by (simp add: Int_Un_distrib) blast

lemma mainCompositionRoot_fresh:
  "mainCompositionRoot parse rel n seen = (crs, seen') \<Longrightarrow> fresh_roots crs seen seen'"
  by (auto simp: mainCompositionRoot_def fresh_roots_def split: if_splits)

lemma walk_roots_fresh:
  "walk_roots parse rel n seen = Inr (crs, seen') \<Longrightarrow> fresh_roots crs seen seen'"
  "walk_root_entries parse rel es seen = Inr (crs, seen') \<Longrightarrow> fresh_roots crs seen seen'"
proof (induction parse rel n seen and parse rel es seen arbitrary: crs seen' and crs seen'
    rule: walk_roots_walk_root_entries.induct)
  case (2 parse rel e es seen)
  obtain own seen1 where own: "mainCompositionRoot parse rel (NDir e es) seen = (own, seen1)" by force
  with 2(2) obtain below where e: "e = None" and below: "walk_root_entries parse rel es seen1 = Inr (below, seen')"
    and crs: "crs = own @ below"
    by (auto split: option.splits sum.splits)
  have "fresh_roots below seen1 seen'" using 2(1) own e below by simp
  then show ?case using fresh_roots_append [OF mainCompositionRoot_fresh [OF own]] crs by simp
next
  case (4 parse rel name n es seen)
  let ?r = "if \<not> node_IsDir n \<or> shouldSkipDir name then Inr ([], seen) else walk_roots parse (path_join rel name) n seen"
  obtain own seen1 below where own: "?r = Inr (own, seen1)"
    and below: "walk_root_entries parse rel es seen1 = Inr (below, seen')" and crs: "crs = own @ below"
    using 4(3) by (auto simp del: if_split split: sum.splits)
  have "fresh_roots own seen seen1"
    using own 4(1) [of own seen1] fresh_roots_Nil [of seen] by (auto split: if_splits)
  moreover have "fresh_roots below seen1 seen'" using 4(2) own below by blast
  ultimately show ?case using fresh_roots_append crs by simp
qed (auto simp: fresh_roots_Nil)

lemma tree_ok_child: "tree_ok n \<Longrightarrow> child n x = Some c \<Longrightarrow> tree_ok c"
proof (cases n)
  case (NDir e es)
  have "entries_ok es \<Longrightarrow> map_of es x = Some c \<Longrightarrow> tree_ok c"
    by (induction es) (auto split: if_splits)
  then show "tree_ok n \<Longrightarrow> child n x = Some c \<Longrightarrow> tree_ok c" using NDir by simp
qed simp

lemma distinct_dir_names:
  "distinct (map fst es) \<Longrightarrow> distinct (map (\<lambda>(name, _). ''examples/'' @ name) (filter (\<lambda>(_, c). node_IsDir c) es))"
  by (induction es) (fastforce simp: image_iff)+

lemma os_ReadDir_ok: "ReadDir n = Inr es \<longleftrightarrow> n = NDir None es"
  by (cases n rule: ReadDir.cases) auto

lemma examplesCompositionRoots_distinct:
  assumes "tree_ok n" "examplesCompositionRoots root n = Inr (out, seen)"
  shows "distinct seen"
proof (cases "seen = []")
  case False
  then obtain ex es where ex: "child n ''examples'' = Some ex" "ReadDir ex = Inr es"
    and seen: "seen = map (\<lambda>(name, _). ''examples/'' @ name) (filter (\<lambda>(_, c). node_IsDir c) es)"
    using assms(2) by (auto simp: examplesCompositionRoots_def Let_def simp del: node_IsDir.simps
        split: option.splits sum.splits if_splits)
  have "tree_ok (NDir None es)" using tree_ok_child [OF assms(1) ex(1)] ex(2) by (simp add: os_ReadDir_ok)
  then show ?thesis using seen distinct_dir_names by simp
qed simp

text \<open>No composition root is reported twice, and every direct child directory of \<open>examples/\<close> is
  reported.\<close>

theorem discoverCompositionRoots_distinct:
  assumes "tree_ok n" "discoverCompositionRoots parse root n = Inr out"
  shows "sorted (map cro_Path out) \<and> distinct (map cro_Path out) \<and>
    (\<forall>e es name c e'. child n ''examples'' = Some (NDir e es) \<and> (name, NDir e' c) \<in> set es \<longrightarrow>
       ''examples/'' @ name \<in> set (map cro_Path out))"
proof -
  obtain ex seen crs seen' where ex: "examplesCompositionRoots root n = Inr (ex, seen)"
    and crs: "walk_roots parse ''.'' n seen = Inr (crs, seen')" and out: "out = sort_key cro_Path (ex @ crs)"
    using assms(2) by (auto simp: discoverCompositionRoots_def split: sum.splits prod.splits)
  have seen: "map cro_Path ex = seen"
    using ex by (auto simp: examplesCompositionRoots_def Let_def comp_def split: option.splits sum.splits if_splits)
  have "distinct seen" using assms(1) ex seen by (auto dest: examplesCompositionRoots_distinct)
  then have "distinct (map cro_Path (ex @ crs))"
    using walk_roots_fresh(1) [OF crs] seen by (auto simp: fresh_roots_def)
  then have "distinct (map cro_Path out)"
    by (simp only: out distinct_map distinct_sort set_sort)
  moreover have "''examples/'' @ name \<in> set (map cro_Path out)"
    if "child n ''examples'' = Some (NDir e es)" "(name, NDir e' c) \<in> set es" for e es name c e'
    using that ex by (cases e) (force simp: out examplesCompositionRoots_def Let_def)+
  ultimately show ?thesis by (auto simp: out)
qed

end
