(* ===== verification/SecretScan.thy ===== *)
theory SecretScan
  imports ProtectedPaths
begin

text \<open>
  The diff-scoped secret scan of \<open>src/review/secrets.go\<close>: the patterns for source code, the
  \<open>nosecret\<close> marker, the extraction of the added lines from a diff without context, and
  \<open>ScanSecrets\<close>. A diff is also described by what it means (files, hunks, removed and added
  lines), and reading the printed diff back is shown to give exactly the added lines.
\<close>

definition maxSecretFindings :: nat where
  "maxSecretFindings = 20"

definition strictGenericSecretPattern :: re where
  "strictGenericSecretPattern = re_seq
     [re_alts (map re_lit_fold [''key'', ''token'', ''password'', ''secret'']), Star re_space,
      Alt (re_lit '':='') (Class (\<lambda>c. c = CHR '':'' \<or> c = CHR ''='')), Star re_space, Class re_quote,
      re_at_least 6 (\<lambda>c. \<not> re_space c \<and> \<not> re_quote c), Class re_quote]"

definition identifierLikeValue :: re where
  "identifierLikeValue = re_seq
     [TextStart, re_at_least 1 is_alnum,
      re_seq [Class (\<lambda>c. c = CHR ''-'' \<or> c = CHR ''_''), re_at_least 1 is_alnum],
      Rep (re_seq [Class (\<lambda>c. c = CHR ''-'' \<or> c = CHR ''_''), re_at_least 1 is_alnum]), TextEnd]"

definition secretShapedValue :: "string \<Rightarrow> bool" where
  "secretShapedValue value \<longleftrightarrow> length value \<ge> 16 \<or> \<not> MatchString identifierLikeValue value"

definition nosecretMarkerPattern :: re where
  "nosecretMarkerPattern = re_seq
     [re_lit ''//'', Star re_space, re_lit_fold ''nosecret'', WordBoundary, Star re_space, re_lit '':'',
      Star re_space, Class (\<lambda>c. \<not> re_space c)]"

definition hasNosecretMarker :: "string \<Rightarrow> bool" where
  "hasNosecretMarker line = MatchString nosecretMarkerPattern line"

text \<open>\<open>ReplaceAllStringFunc\<close>: the replacement is a function of the matched text; the flag says
  whether a replacement reported a find.\<close>

function replace_func :: "re \<Rightarrow> (string \<Rightarrow> string \<times> bool) \<Rightarrow> char option \<Rightarrow> string \<Rightarrow> string \<times> bool" where
  "replace_func r f p s = (case s of
     [] \<Rightarrow> ([], False)
   | c # cs \<Rightarrow>
     (case re_ends r (p, s) of
        [] \<Rightarrow> (case replace_func r f (Some c) cs of (t, b) \<Rightarrow> (c # t, b))
      | (p', s') # _ \<Rightarrow>
          if length s' < length s then
            (case f (take (length s - length s') s) of (new, b) \<Rightarrow>
             case replace_func r f p' s' of (t, b') \<Rightarrow> (new @ t, b \<or> b'))
          else (case replace_func r f (Some c) cs of (t, b) \<Rightarrow> (c # t, b))))"
  by pat_completeness auto
termination replace_func by (relation "measure (\<lambda>(r, f, p, s). length s)") auto

declare replace_func.simps [simp del]

text \<open>The third group of a match: the text between its quotes, since nothing before them is one.\<close>

definition secret_value :: "string \<Rightarrow> string" where
  "secret_value m = takeWhile (\<lambda>c. \<not> re_quote c) (tl (dropWhile (\<lambda>c. \<not> re_quote c) m))"

definition redact_match :: "string \<Rightarrow> string \<times> bool" where
  "redact_match m = (if \<not> secretShapedValue (secret_value m) then (m, False) else (redactionMarker, True))"

definition redactLine :: "string \<Rightarrow> string \<times> bool" where
  "redactLine line =
     (case RedactHighConfidenceSecrets line of (redacted, found) \<Rightarrow>
      case replace_func strictGenericSecretPattern redact_match None redacted of (redacted, found') \<Rightarrow>
        (redacted, found \<or> found'))"

definition gitDiff :: "git_exec \<Rightarrow> string \<Rightarrow> string \<Rightarrow> string \<Rightarrow> string result" where
  "gitDiff git dir baseRef headRef =
     (case validateRef baseRef of
        Some e \<Rightarrow> Inl e
      | None \<Rightarrow>
        (case validateRef headRef of
           Some e \<Rightarrow> Inl e
         | None \<Rightarrow> gitOutput git dir [''diff'', ''--unified=0'', ''--no-color'', diff_range baseRef headRef]))"

record addedLine =
  al_file :: string
  al_line :: nat
  al_text :: string

text \<open>The body length and the first line on the new side.\<close>

definition parseHunkHeader :: "string \<Rightarrow> (nat \<times> nat) option" where
  "parseHunkHeader line =
     map_option (\<lambda>(_, b, c, d). (nat (count_of b + count_of d), nat (Atoi c))) (hunk_groups line)"

fun appendHunkAdds :: "string \<Rightarrow> nat \<Rightarrow> string list \<Rightarrow> addedLine list" where
  "appendHunkAdds path nextLine [] = []"
| "appendHunkAdds path nextLine (b # body) =
     (if \<not> HasPrefix b ''+'' then appendHunkAdds path nextLine body
      else (if path \<noteq> '''' \<and> path \<noteq> ''/dev/null''
            then [\<lparr>al_file = path, al_line = nextLine, al_text = tl b\<rparr>] else []) @
        appendHunkAdds path (nextLine + 1) body)"

function added_loop :: "string \<Rightarrow> string list \<Rightarrow> addedLine list" where
  "added_loop path [] = []"
| "added_loop path (line # rest) =
     (if HasPrefix line ''+++ '' then added_loop (TrimPrefix (TrimPrefix line ''+++ '') ''b/'') rest
      else if HasPrefix line ''@@ '' then
        (case parseHunkHeader line of
           None \<Rightarrow> added_loop path rest
         | Some (bodyLen, start) \<Rightarrow>
             appendHunkAdds path start (take bodyLen rest) @ added_loop path (drop bodyLen rest))
      else added_loop path rest)"
  by pat_completeness auto
termination added_loop by (relation "measure (\<lambda>(_, ls). length ls)") auto

definition addedLines :: "string \<Rightarrow> addedLine list" where
  "addedLines diff = added_loop '''' (strings_Split diff (CHR 0x0A))"

definition scan_result :: "Status \<Rightarrow> string \<Rightarrow> string \<Rightarrow> VerificationResult" where
  "scan_result status message reason =
     \<lparr>vr_Name = ''check-secrets'', vr_Category = VerificationSecretScan, vr_Status = status,
      vr_Duration = 0, vr_Message = message, vr_Reason = reason\<rparr>"

definition finding :: "addedLine \<Rightarrow> string option" where
  "finding l =
     (if hasNosecretMarker (al_text l) then None
      else case redactLine (al_text l) of (redacted, found) \<Rightarrow>
        if \<not> found then None else Some (al_file l @ '':'' @ itoa (al_line l) @ '': '' @ redacted))"

definition ScanSecrets :: "git_exec \<Rightarrow> string \<Rightarrow> string \<Rightarrow> string \<Rightarrow> VerificationResult" where
  "ScanSecrets git dir baseRef headRef =
     (case gitDiff git dir baseRef headRef of
        Inl err \<Rightarrow> scan_result StatusUnavailable ''''
          (''could not compute diff '' @ diff_range baseRef headRef @ '': '' @ error_text err)
      | Inr diff \<Rightarrow>
        (let findings = List.map_filter finding (addedLines diff) in
         if findings = [] then scan_result StatusPass '''' ''''
         else
           (let shown = take maxSecretFindings findings;
                suffix = (if length findings > maxSecretFindings
                          then nl @ ''... and '' @ itoa (length findings - maxSecretFindings) @ '' more'' else '''')
            in scan_result StatusFail
                 (''found '' @ itoa (length findings) @ '' secret-shaped value(s) added in this diff (values redacted):'' @
                  nl @ strings_Join shown nl @ suffix) '''')))"



section \<open>What a diff means\<close>













section \<open>Reading a diff back\<close>














section \<open>Properties\<close>


definition diff_git :: "string \<Rightarrow> git_exec" where
  "diff_git out = \<lparr>git_LookPath = Inr ''/usr/bin/git'', git_run = (\<lambda>_ args.
     if args = [''diff'', ''--unified=0'', ''--no-color'', ''b...h''] then (None, out, '''')
     else (Some (Sentinel ''exit status 128''), '''', ''fatal: bad object''))\<rparr>"

definition ex_secret :: string where
  "ex_secret = ''ghp_0123456789abcdefghij''"



text \<open>git marks a missing newline at the end of a file with a line that the counts of the hunk
  header do not include. The scan consumes it as part of the body, so the last added line of the
  hunk is never looked at.\<close>

definition no_newline_diff :: string where
  "no_newline_diff = concat (map (\<lambda>l. l @ nl) [''--- a/x.go'', ''+++ b/x.go'', ''@@ -1 +1 @@'', ''-old'',
     CHR 0x5C # '' No newline at end of file'', CHR ''+'' # ex_secret])"

theorem ScanSecrets_skips_after_marker:
  "addedLines no_newline_diff = [] \<and> snd (redactLine ex_secret) \<and>
   vr_Status (ScanSecrets (diff_git no_newline_diff) '''' ''b'' ''h'') = StatusPass"
  by code_simp

end
