(* ===== verification/AgentTools.thy ===== *)
theory AgentTools
  imports Discovery SecretScan Approval
begin

text \<open>
  The agent operations that compose the leaf packages: \<open>src/review/review.go\<close>, the shared
  \<open>src/agentreview/agentreview.go\<close>, the command line of \<open>src/tools/agentcli/agentcli.go\<close> (its
  generated files apart) and the tools of \<open>src/tools/mcpserver\<close>. Operations that start programs
  return, beside their result, the programs started, as \<open>verify_Run\<close> does.
\<close>

definition VerificationBoundary :: string where "VerificationBoundary = ''boundary''"
definition VerificationCompatibility :: string where "VerificationCompatibility = ''compatibility''"
definition VerificationChangelog :: string where "VerificationChangelog = ''changelog''"

text \<open>The surroundings of a call: discovery with its file tree and git, running commands, reading a
  file by its path, the YAML parser, the disk of the approvals file with its codec, and the clock,
  read once per check.\<close>

record agent_env =
  ae_discover :: discover_env
  ae_run :: run_env
  ae_readFile :: "string \<Rightarrow> string result"
  ae_yaml :: "string \<Rightarrow> Contract result"
  ae_sha256 :: "string \<Rightarrow> string"
  ae_unmarshal :: "string \<Rightarrow> storedGrant list result"
  ae_marshal :: "storedGrant list \<Rightarrow> string result"
  ae_read_err :: "gerror option"
  ae_disk :: disk
  ae_now :: "nat \<Rightarrow> int"

abbreviation ae_git :: "agent_env \<Rightarrow> git_exec" where
  "ae_git env \<equiv> de_git (ae_discover env)"


section \<open>review and agentreview\<close>

definition review_check :: "string \<Rightarrow> string \<Rightarrow> string \<Rightarrow> string \<Rightarrow> string \<Rightarrow> CheckSpec" where
  "review_check name command category reason tool =
     \<lparr>cs_Name = name, cs_Command = command, cs_Category = category, cs_Reason = reason,
      cs_RequiredTool = tool, cs_Networked = False, cs_Dir = ''''\<rparr>"

definition review_Checks :: "CheckSpec list" where
  "review_Checks =
    [review_check ''check-consumer-boundary'' ''make check-consumer-boundary'' VerificationBoundary
       ''verifies a consumer importing only the core package does not compile in an integration adapter as a build dependency'' ''go'',
     review_check ''check-module-boundary'' ''make check-module-boundary'' VerificationBoundary
       ''runs the modboundary analyzer against examples/deployment to enforce feature-module boundaries'' ''go'',
     review_check ''check-api-compat'' ''make check-api-compat'' VerificationCompatibility
       ''reports public API changes since the latest git tag'' ''go'',
     review_check ''check-changelog'' ''make check-changelog'' VerificationChangelog
       ''verifies CHANGELOG.md is updated when required (working tree vs origin/main)'' ''git'']"

definition review_Review ::
    "agent_env \<Rightarrow> string \<Rightarrow> string \<Rightarrow> string \<Rightarrow> ToolStatus list \<Rightarrow> bool \<Rightarrow> string list
     \<Rightarrow> VerificationResult list \<times> started list" where
  "review_Review env dir baseRef headRef tools allowNetwork protectedPaths =
     (case verify_Run (ae_run env) (map (\<lambda>c. c\<lparr>cs_Dir := dir\<rparr>) review_Checks) tools allowNetwork of (results, tr) \<Rightarrow>
      ((results @ [ScanSecrets (ae_git env) dir baseRef headRef]) @
         [CheckProtectedPaths (ae_git env) dir baseRef headRef protectedPaths], tr))"

definition agentreview_Review ::
    "agent_env \<Rightarrow> Repository \<Rightarrow> string \<Rightarrow> string \<Rightarrow> bool \<Rightarrow> string list
     \<Rightarrow> VerificationResult list \<times> started list" where
  "agentreview_Review env repo baseRef headRef allowNetwork protectedPaths =
     review_Review env (rp_Root repo) baseRef headRef (rp_Tools repo) allowNetwork protectedPaths"

definition gitRevParse :: "git_exec \<Rightarrow> string \<Rightarrow> string list \<Rightarrow> string result" where
  "gitRevParse git root args = (case git_LookPath git of
     Inl e \<Rightarrow> Inl e
   | Inr gitPath \<Rightarrow>
     (case git_run git gitPath ([''-C'', root, ''rev-parse''] @ args) of
        (Some e, _, _) \<Rightarrow> Inl e
      | (None, out, _) \<Rightarrow> Inr (TrimSpace out)))"

text \<open>What \<open>Unwrap() []error\<close> returns: the errors of a join, or those of a format with more than
  one \<open>%w\<close>.\<close>

fun wrapped_part :: "msg_part \<Rightarrow> gerror list" where
  "wrapped_part (Wrapped e) = [e]"
| "wrapped_part _ = []"

fun unwrap_many :: "gerror \<Rightarrow> gerror list option" where
  "unwrap_many (Joined es) = Some es"
| "unwrap_many (Errorf ps) =
     (let es = concat (map wrapped_part ps) in if length es \<ge> 2 then Some es else None)"
| "unwrap_many (Sentinel s) = None"

definition flattenErrors :: "gerror \<Rightarrow> string list" where
  "flattenErrors err = (case unwrap_many err of Some es \<Rightarrow> map error_text es | None \<Rightarrow> [error_text err])"

definition agentreview_Envelope ::
    "git_exec \<Rightarrow> int \<Rightarrow> Repository \<Rightarrow> string \<Rightarrow> string \<Rightarrow> VerificationResult list \<Rightarrow> Envelope result" where
  "agentreview_Envelope git now repo agentName tool verification =
     (case gitRevParse git (rp_Root repo) [''HEAD''] of
        Inl err \<Rightarrow> Inl (Errorf [Lit ''resolving commit: '', Wrapped err])
      | Inr commit \<Rightarrow>
      case gitRevParse git (rp_Root repo) [''--abbrev-ref'', ''HEAD''] of
        Inl err \<Rightarrow> Inl (Errorf [Lit ''resolving branch: '', Wrapped err])
      | Inr branch0 \<Rightarrow>
        (let branch = (if branch0 = ''HEAD'' then '''' else branch0);
             env = Redact \<lparr>e_SchemaVersion = SchemaVersion,
               e_Repository = \<lparr>rs_Path = rp_Root repo, rs_Branch = branch, rs_Commit = commit, rs_Dirty = rp_Dirty repo\<rparr>,
               e_Agent = \<lparr>ai_Name = agentName, ai_Version = '''', ai_Tool = tool, ai_ToolVersion = '''', ai_CLIVersion = ''''\<rparr>,
               e_Changes = [], e_Commands = [], e_Verification = verification, e_Approvals = [],
               e_Rollback = None, e_CreatedAt = now\<rparr>
         in case envelope_Validate env of
              Some err \<Rightarrow> Inl (Errorf [Lit ''assembled handoff failed validation: '', Lit (strings_Join (flattenErrors err) ''; '')])
            | None \<Rightarrow> Inr env))"


section \<open>The gate before a command runs\<close>

definition blocked :: "CommandClass \<Rightarrow> bool" where
  "blocked class \<longleftrightarrow> class = ClassMutating \<or> class = ClassDestructive \<or> class = ClassApprovalRequired"

definition blocked_result :: "string \<Rightarrow> string \<Rightarrow> string \<Rightarrow> VerificationResult" where
  "blocked_result name category reason =
     \<lparr>vr_Name = name, vr_Category = category, vr_Status = StatusApprovalRequired,
      vr_Duration = 0, vr_Message = '''', vr_Reason = reason\<rparr>"

definition zero_result :: VerificationResult where
  "zero_result = \<lparr>vr_Name = '''', vr_Category = '''', vr_Status = '''', vr_Duration = 0, vr_Message = '''', vr_Reason = ''''\<rparr>"

text \<open>The result array after both loops: a blocked check has its result, and the results of the run
  fill the remaining places in order.\<close>

fun fill :: "VerificationResult option list \<Rightarrow> VerificationResult list \<Rightarrow> VerificationResult list" where
  "fill [] rs = []"
| "fill (Some r # slots) rs = r # fill slots rs"
| "fill (None # slots) [] = zero_result # fill slots []"
| "fill (None # slots) (r # rs) = r # fill slots rs"

definition action_scope :: "string \<Rightarrow> Scope" where
  "action_scope name = \<lparr>sc_Action = name, sc_Resource = ''''\<rparr>"

definition loaded_broker :: "agent_env \<Rightarrow> string \<Rightarrow> Broker" where
  "loaded_broker env root =
     (case Load (ae_sha256 env) (ae_unmarshal env) (ae_read_err env) (DefaultStorePath root) (ae_disk env) of
        Inl _ \<Rightarrow> NewBroker | Inr b \<Rightarrow> b)"


section \<open>agentcli\<close>

definition LoadContract :: "agent_env \<Rightarrow> string \<Rightarrow> Contract result" where
  "LoadContract env root =
     (let path = filepath_Join [root, contract_FileName] in
      case contract_Load (ae_yaml env) (ae_readFile env path) of
        (_, _, Some err) \<Rightarrow> Inl err
      | (_, False, None) \<Rightarrow> Inl (Errorf [Lit ''reading '', Lit path, Lit '': '', Wrapped ErrNotExist])
      | (None, True, None) \<Rightarrow> Inl (Sentinel ''nil contract'')
      | (Some c, True, None) \<Rightarrow>
        (case contract_Validate c of
           Some err \<Rightarrow> Inl (Errorf [Lit path, Lit '' failed validation: '', Wrapped err])
         | None \<Rightarrow> Inr c))"

text \<open>\<open>Approve\<close> returns the disks seen while the store is saved, the last one being the disk
  afterwards.\<close>

definition Approve ::
    "agent_env \<Rightarrow> string result \<Rightarrow> save_env \<Rightarrow> string \<Rightarrow> string \<Rightarrow> string \<Rightarrow> string \<Rightarrow> int
     \<Rightarrow> Grant result \<times> disk list" where
  "Approve env rand senv root action resource approvedBy ttl =
     (let path = DefaultStorePath root in
      case Load (ae_sha256 env) (ae_unmarshal env) (ae_read_err env) path (ae_disk env) of
        Inl err \<Rightarrow> (Inl (Errorf [Lit ''loading approvals: '', Wrapped err]), [ae_disk env])
      | Inr b \<Rightarrow>
        (case broker_Grant (ae_sha256 env) rand (ae_now env 0) \<lparr>sc_Action = action, sc_Resource = resource\<rparr> approvedBy ttl b of
           (Inl err, _) \<Rightarrow> (Inl err, [ae_disk env])
         | (Inr grant, b') \<Rightarrow>
           (case Save (ae_marshal env) senv path b' (ae_disk env) of
              (Some err, ds) \<Rightarrow> (Inl (Errorf [Lit ''saving approvals: '', Wrapped err]), ds)
            | (None, ds) \<Rightarrow> (Inr grant, ds))))"

definition loadProtectedPaths :: "agent_env \<Rightarrow> string \<Rightarrow> string \<Rightarrow> string list result" where
  "loadProtectedPaths env root baseRef = LoadProtectedPathsAtRef (ae_git env) (ae_yaml env) root baseRef"

definition reviewRepo ::
    "agent_env \<Rightarrow> string \<Rightarrow> string \<Rightarrow> string \<Rightarrow> bool
     \<Rightarrow> (Repository \<times> VerificationResult list) result \<times> started list" where
  "reviewRepo env root baseRef headRef allowNetwork =
     (case Discover (ae_discover env) root of
        Inl err \<Rightarrow> (Inl (Errorf [Lit ''discovering '', Quoted root, Lit '': '', Wrapped err]), [])
      | Inr repo \<Rightarrow>
        (case loadProtectedPaths env root baseRef of
           Inl err \<Rightarrow> (Inl err, [])
         | Inr protectedPaths \<Rightarrow>
           (case agentreview_Review env repo baseRef headRef allowNetwork protectedPaths of (results, tr) \<Rightarrow>
            (Inr (repo, results), tr))))"

definition agentcli_Review ::
    "agent_env \<Rightarrow> string \<Rightarrow> string \<Rightarrow> string \<Rightarrow> bool \<Rightarrow> VerificationResult list result \<times> started list" where
  "agentcli_Review env root baseRef headRef allowNetwork =
     (case reviewRepo env root baseRef headRef allowNetwork of
        (Inl err, tr) \<Rightarrow> (Inl err, tr) | (Inr (_, results), tr) \<Rightarrow> (Inr results, tr))"

definition Handoff ::
    "agent_env \<Rightarrow> string \<Rightarrow> string \<Rightarrow> string \<Rightarrow> string \<Rightarrow> bool \<Rightarrow> Envelope result \<times> started list" where
  "Handoff env root agentName baseRef headRef allowNetwork =
     (case reviewRepo env root baseRef headRef allowNetwork of
        (Inl err, tr) \<Rightarrow> (Inl err, tr)
      | (Inr (repo, results), tr) \<Rightarrow>
        (agentreview_Envelope (ae_git env) (ae_now env 0) repo agentName ''modulex-cli'' results, tr))"

text \<open>The loop of \<open>Verify\<close> over the specs: the results of the blocked ones, and the specs to run.
  The probe of the approvals prunes the broker.\<close>

fun verify_gate_loop ::
    "agent_env \<Rightarrow> string \<Rightarrow> nat \<Rightarrow> Broker \<Rightarrow> CheckSpec list \<Rightarrow> VerificationResult option list \<times> CheckSpec list" where
  "verify_gate_loop env root i broker [] = ([], [])"
| "verify_gate_loop env root i broker (s # ss) =
     (case ClassifyCommand (cs_Command s) of (class, reason) \<Rightarrow>
      if blocked class then
        (case DryRunCheck (ae_now env i) (action_scope (cs_Name s)) broker of (st, broker') \<Rightarrow>
         case verify_gate_loop env root (Suc i) broker' ss of (slots, runnable) \<Rightarrow>
         (Some (blocked_result (cs_Name s) (cs_Category s)
             (if st = StatusPass then reason @ ''; an approval grant exists for this check'' else reason)) # slots,
          runnable))
      else
        (case verify_gate_loop env root (Suc i) broker ss of (slots, runnable) \<Rightarrow>
         (None # slots, (if cs_Dir s = '''' then s\<lparr>cs_Dir := root\<rparr> else s) # runnable)))"

definition verify_specs :: "Plan \<Rightarrow> bool \<Rightarrow> CheckSpec list" where
  "verify_specs plan full =
     (let specs = pl_FocusedChecks plan; seen = map cs_Name specs in
      if full then specs @ filter (\<lambda>s. cs_Name s \<notin> set seen) (pl_FullGates plan) else specs)"

definition agentcli_Verify ::
    "agent_env \<Rightarrow> string \<Rightarrow> string \<Rightarrow> string \<Rightarrow> bool \<Rightarrow> bool \<Rightarrow> VerificationResult list result \<times> started list" where
  "agentcli_Verify env root baseRef headRef allowNetwork full =
     (case Discover (ae_discover env) root of
        Inl err \<Rightarrow> (Inl (Errorf [Lit ''discovering '', Quoted root, Lit '': '', Wrapped err]), [])
      | Inr repo \<Rightarrow>
        (case ChangedFiles (ae_git env) (rp_Root repo) baseRef headRef of
           Inl err \<Rightarrow> (Inl (Errorf [Lit ''listing changed files '', Lit (diff_range baseRef headRef), Lit '': '', Wrapped err]), [])
         | Inr changed \<Rightarrow>
           (let specs = verify_specs (PlanFor changed) full;
                broker = loaded_broker env (rp_Root repo)
            in case verify_gate_loop env (rp_Root repo) 0 broker specs of (slots, runnable) \<Rightarrow>
               case verify_Run (ae_run env) runnable (rp_Tools repo) allowNetwork of (rs, tr) \<Rightarrow>
               (Inr (fill slots rs), tr))))"

record DoctorReport =
  dr_Root :: string
  dr_IsGitRepo :: bool
  dr_Dirty :: bool
  dr_Tools :: "ToolStatus list"
  dr_ContractPresent :: bool
  dr_ContractError :: string
  dr_Projects :: nat
  dr_Commands :: nat
  dr_ProtectedPaths :: nat

definition Doctor :: "agent_env \<Rightarrow> string \<Rightarrow> DoctorReport result" where
  "Doctor env root =
     (case Discover (ae_discover env) root of
        Inl err \<Rightarrow> Inl (Errorf [Lit ''discovering '', Quoted root, Lit '': '', Wrapped err])
      | Inr repo \<Rightarrow>
        (let rep = \<lparr>dr_Root = rp_Root repo, dr_IsGitRepo = rp_IsGitRepo repo, dr_Dirty = rp_Dirty repo,
                    dr_Tools = rp_Tools repo, dr_ContractPresent = False, dr_ContractError = '''',
                    dr_Projects = 0, dr_Commands = 0, dr_ProtectedPaths = 0\<rparr>
         in case contract_Load (ae_yaml env) (ae_readFile env (filepath_Join [root, contract_FileName])) of
              (_, False, Some err) \<Rightarrow> Inl err
            | (_, False, None) \<Rightarrow> Inr rep
            | (_, True, Some err) \<Rightarrow>
                Inr (rep\<lparr>dr_ContractPresent := True, dr_ContractError := ''parse: '' @ error_text err\<rparr>)
            | (None, True, None) \<Rightarrow> Inr (rep\<lparr>dr_ContractPresent := True\<rparr>)
            | (Some c, True, None) \<Rightarrow>
                Inr (rep\<lparr>dr_ContractPresent := True,
                     dr_Projects := length (c_Projects c), dr_Commands := length (c_Commands c),
                     dr_ProtectedPaths := length (c_ProtectedPaths c),
                     dr_ContractError := (case contract_Validate c of
                       Some err \<Rightarrow> ''validation: '' @ error_text err | None \<Rightarrow> '''')\<rparr>)))"


section \<open>mcpserver\<close>

definition resolveRoot :: "string \<Rightarrow> string" where
  "resolveRoot root = (if root = '''' then ''.'' else root)"

definition discover_failed :: "string \<Rightarrow> gerror \<Rightarrow> gerror" where
  "discover_failed root err = Errorf [Lit ''mcpserver: discover '', Quoted root, Lit '': '', Wrapped err]"

definition resolveTools :: "agent_env \<Rightarrow> string \<Rightarrow> ToolStatus list result" where
  "resolveTools env root =
     (case Discover (ae_discover env) (resolveRoot root) of
        Inl err \<Rightarrow> Inl (discover_failed (resolveRoot root) err)
      | Inr repo \<Rightarrow> Inr (rp_Tools repo))"

definition unwrapErrors :: "gerror \<Rightarrow> string list" where
  "unwrapErrors err = (case unwrap_many err of Some es \<Rightarrow> map error_text es | None \<Rightarrow> [error_text err])"

definition discoverRepository :: "agent_env \<Rightarrow> string \<Rightarrow> Repository result" where
  "discoverRepository env root =
     (case Discover (ae_discover env) (resolveRoot root) of
        Inl err \<Rightarrow> Inl (Errorf [Lit ''discover_repository: '', Wrapped err])
      | Inr repo \<Rightarrow> Inr repo)"

record ReadContractOut =
  rc_Present :: bool
  rc_Contract :: "Contract option"
  rc_ValidationErrors :: "string list"

definition readContract :: "agent_env \<Rightarrow> string \<Rightarrow> ReadContractOut result" where
  "readContract env root =
     (let resolvedRoot = resolveRoot root in
      case de_Stat (ae_discover env) resolvedRoot of
        Inl err \<Rightarrow> Inl (Errorf [Lit ''read_contract: '', Wrapped err])
      | Inr info \<Rightarrow>
        if \<not> node_IsDir info then
          Inl (Errorf [Lit ''read_contract: root '', Quoted root, Lit '' is not a directory''])
        else case contract_Load (ae_yaml env) (ae_readFile env (filepath_Join [resolvedRoot, contract_FileName])) of
          (_, False, Some err) \<Rightarrow> Inl err
        | (_, False, None) \<Rightarrow> Inr \<lparr>rc_Present = False, rc_Contract = None, rc_ValidationErrors = []\<rparr>
        | (_, True, Some err) \<Rightarrow> Inr \<lparr>rc_Present = True, rc_Contract = None, rc_ValidationErrors = [error_text err]\<rparr>
        | (c, True, None) \<Rightarrow>
          (case Option.bind c contract_Validate of
             Some err \<Rightarrow> Inr \<lparr>rc_Present = True, rc_Contract = c, rc_ValidationErrors = unwrapErrors err\<rparr>
           | None \<Rightarrow> Inr \<lparr>rc_Present = True, rc_Contract = c, rc_ValidationErrors = []\<rparr>))"

definition recommendVerification :: "string list \<Rightarrow> Plan" where
  "recommendVerification changedFiles = PlanFor changedFiles"

record CheckSpecIn =
  ci_Name :: string
  ci_Command :: string
  ci_Category :: string
  ci_Reason :: string
  ci_RequiredTool :: string
  ci_Networked :: bool

definition toCheckSpec :: "CheckSpecIn \<Rightarrow> string \<Rightarrow> CheckSpec" where
  "toCheckSpec c dir =
     \<lparr>cs_Name = ci_Name c, cs_Command = ci_Command c, cs_Category = ci_Category c, cs_Reason = ci_Reason c,
      cs_RequiredTool = ci_RequiredTool c, cs_Networked = ci_Networked c, cs_Dir = dir\<rparr>"

record RunVerificationOut =
  rv_Results :: "VerificationResult list"
  rv_ApprovalStatus :: "Status gomap"

fun run_verification_loop ::
    "agent_env \<Rightarrow> string \<Rightarrow> nat \<Rightarrow> Broker \<Rightarrow> Status gomap \<Rightarrow> CheckSpecIn list
     \<Rightarrow> VerificationResult option list \<times> CheckSpec list \<times> Status gomap" where
  "run_verification_loop env root i broker ap [] = ([], [], ap)"
| "run_verification_loop env root i broker ap (c # cs) =
     (case ClassifyCommand (ci_Command c) of (class, reason) \<Rightarrow>
      if blocked class then
        (case DryRunCheck (ae_now env i) (action_scope (ci_Name c)) broker of (st, broker') \<Rightarrow>
         case run_verification_loop env root (Suc i) broker' (AList.update (ci_Name c) st ap) cs of (slots, runnable, ap') \<Rightarrow>
         (Some (blocked_result (ci_Name c) (ci_Category c) reason) # slots, runnable, ap'))
      else
        (case run_verification_loop env root (Suc i) broker ap cs of (slots, runnable, ap') \<Rightarrow>
         (None # slots, toCheckSpec c root # runnable, ap')))"

definition runVerification ::
    "agent_env \<Rightarrow> string \<Rightarrow> CheckSpecIn list \<Rightarrow> bool \<Rightarrow> RunVerificationOut result \<times> started list" where
  "runVerification env root checksIn allowNetwork =
     (case resolveTools env root of
        Inl err \<Rightarrow> (Inl err, [])
      | Inr tools \<Rightarrow>
        (let resolvedRoot = resolveRoot root; broker = loaded_broker env resolvedRoot in
         case run_verification_loop env resolvedRoot 0 broker [] checksIn of (slots, runnable, ap) \<Rightarrow>
         case verify_Run (ae_run env) runnable tools allowNetwork of (rs, tr) \<Rightarrow>
         (Inr \<lparr>rv_Results = fill slots rs, rv_ApprovalStatus = ap\<rparr>, tr)))"

definition reviewDiff ::
    "agent_env \<Rightarrow> string \<Rightarrow> string \<Rightarrow> string \<Rightarrow> bool \<Rightarrow> VerificationResult list result \<times> started list" where
  "reviewDiff env root baseRef headRef allowNetwork =
     (let resolvedRoot = resolveRoot root in
      case Discover (ae_discover env) resolvedRoot of
        Inl err \<Rightarrow> (Inl (discover_failed resolvedRoot err), [])
      | Inr repo \<Rightarrow>
        (let go = (\<lambda>protectedPaths. case agentreview_Review env repo baseRef headRef allowNetwork protectedPaths of
                     (results, tr) \<Rightarrow> (Inr results, tr))
         in case LoadProtectedPathsAtRef (ae_git env) (ae_yaml env) resolvedRoot baseRef of
              Inl err \<Rightarrow>
                if errors_is err ErrContractUnparseable then (Inl (Errorf [Lit ''mcpserver: '', Wrapped err]), [])
                else go []
            | Inr protectedPaths \<Rightarrow> go protectedPaths))"

definition buildHandoffEnvelope ::
    "agent_env \<Rightarrow> string \<Rightarrow> string \<Rightarrow> VerificationResult list \<Rightarrow> Envelope result" where
  "buildHandoffEnvelope env root agentName verification =
     (let resolvedRoot = resolveRoot root in
      case Discover (ae_discover env) resolvedRoot of
        Inl err \<Rightarrow> Inl (Errorf [Lit ''create_handoff: discover '', Quoted resolvedRoot, Lit '': '', Wrapped err])
      | Inr repo \<Rightarrow>
        (case agentreview_Envelope (ae_git env) (ae_now env 0) repo agentName ''mcp'' verification of
           Inl err \<Rightarrow> Inl (Errorf [Lit ''create_handoff: '', Wrapped err])
         | Inr e \<Rightarrow> Inr e))"



section \<open>Only cleared commands run\<close>

definition cleared :: "string \<Rightarrow> bool" where
  "cleared cmd \<longleftrightarrow> fst (ClassifyCommand cmd) \<in> {ClassSafe, ClassNetworked}"

lemma classify_loop_range:
  "fst (classify_loop t rules) = ClassApprovalRequired \<or> fst (classify_loop t rules) \<in> set (map rule_Class rules)"
  by (induction rules) auto

lemma classes_of_rules:
  "map rule_Class ClassificationRules =
     [ClassSafe, ClassDestructive, ClassApprovalRequired, ClassMutating, ClassSafe, ClassSafe, ClassNetworked,
      ClassSafe, ClassMutating, ClassNetworked, ClassNetworked, ClassApprovalRequired, ClassApprovalRequired, ClassSafe]"
  by (simp add: ClassificationRules_def)

lemma blocked_iff: "blocked (fst (ClassifyCommand cmd)) \<longleftrightarrow> \<not> cleared cmd"
proof -
  have "fst (classify_loop t ClassificationRules) = ClassApprovalRequired \<or>
     fst (classify_loop t ClassificationRules) \<in>
      {ClassSafe, ClassNetworked, ClassMutating, ClassDestructive, ClassApprovalRequired}" for t
    using classify_loop_range [of t ClassificationRules] unfolding classes_of_rules by auto
  from this [of "TrimSpace cmd"] have "fst (ClassifyCommand cmd) \<in>
      {ClassSafe, ClassNetworked, ClassMutating, ClassDestructive, ClassApprovalRequired}"
    by (auto simp: ClassifyCommand_def Let_def)
  then show ?thesis by (auto simp: cleared_def blocked_def class_defs)
qed

lemma cleared_inert: "cleared cmd \<Longrightarrow> list_all (\<lambda>c. \<not> is_shell_meta c) (TrimSpace cmd)"
  by (auto simp: cleared_def ClassifyCommand_def Let_def shellMetacharacters_iff list_ex_iff list_all_iff
      class_defs split: if_splits)

text \<open>What a check's own run can report, and the commands given to a shell.\<close>

lemma verify_Run_names:
  "map (\<lambda>r. (vr_Name r, vr_Category r)) (fst (verify_Run env checks tools net)) =
     map (\<lambda>c. (cs_Name c, cs_Category c)) checks"
  by (simp add: verify_Run_def Let_def comp_def runOne_result(1,2) [OF prod.collapse [symmetric]])

lemma verify_Run_not_approval:
  "r \<in> set (fst (verify_Run env checks tools net)) \<Longrightarrow> vr_Status r \<noteq> StatusApprovalRequired"
  by (auto simp: verify_Run_def Let_def runOne_def check_result_def status_defs split: prod.splits if_splits)

lemma verify_Run_commands:
  "set (shell_commands (snd (verify_Run env checks tools net))) \<subseteq> cs_Command ` set checks"
  by (auto simp: verify_Run_def Let_def shell_commands_concat
      runOne_result(5) [OF prod.collapse [symmetric]] split: if_splits)

definition entry :: "string \<Rightarrow> string \<Rightarrow> string \<Rightarrow> string \<times> string \<times> bool" where
  "entry name category cmd = (name, category, \<not> cleared cmd)"

definition reported :: "VerificationResult \<Rightarrow> string \<times> string \<times> bool" where
  "reported r = (vr_Name r, vr_Category r, vr_Status r = StatusApprovalRequired)"

text \<open>Both loops over the checks leave slots and runnable checks that fit together.\<close>

fun gated :: "(string \<times> string \<times> bool) list \<Rightarrow> VerificationResult option list \<Rightarrow> CheckSpec list \<Rightarrow> bool" where
  "gated [] [] [] = True"
| "gated (e # es) (Some r # slots) runnable = (reported r = e \<and> snd (snd e) \<and> gated es slots runnable)"
| "gated (e # es) (None # slots) (c # runnable) =
     (e = entry (cs_Name c) (cs_Category c) (cs_Command c) \<and> cleared (cs_Command c) \<and> gated es slots runnable)"
| "gated _ _ _ = False"

lemma gated_cleared: "gated es slots runnable \<Longrightarrow> c \<in> set runnable \<Longrightarrow> cleared (cs_Command c)"
  by (induction es slots runnable rule: gated.induct) auto

lemma fill_gated:
  "gated es slots runnable \<Longrightarrow>
   map (\<lambda>r. (vr_Name r, vr_Category r)) rs = map (\<lambda>c. (cs_Name c, cs_Category c)) runnable \<Longrightarrow>
   (\<And>r. r \<in> set rs \<Longrightarrow> vr_Status r \<noteq> StatusApprovalRequired) \<Longrightarrow>
   map reported (fill slots rs) = es"
proof (induction es slots runnable arbitrary: rs rule: gated.induct)
  case (3 e es slots c runnable)
  then show ?case by (cases rs) (auto simp: entry_def reported_def)
qed auto

lemma gate_run:
  assumes "gated es slots runnable" "verify_Run env runnable tools net = (rs, tr)"
  shows "map reported (fill slots rs) = es" "list_all cleared (shell_commands tr)"
proof -
  have rs: "rs = fst (verify_Run env runnable tools net)" and tr: "tr = snd (verify_Run env runnable tools net)"
    using assms(2) by simp_all
  show "map reported (fill slots rs) = es"
    using fill_gated [OF assms(1), of rs] verify_Run_names verify_Run_not_approval by (metis rs)
  show "list_all cleared (shell_commands tr)"
    using verify_Run_commands [of env runnable tools net] gated_cleared [OF assms(1)]
    by (auto simp: list_all_iff tr)
qed

lemma blocked_result_reported:
  "\<not> cleared cmd \<Longrightarrow> reported (blocked_result name category reason) = entry name category cmd"
  by (simp add: reported_def blocked_result_def entry_def)

lemma verify_gate_loop_gated:
  "verify_gate_loop env root i b specs = (slots, runnable) \<Longrightarrow>
   gated (map (\<lambda>s. entry (cs_Name s) (cs_Category s) (cs_Command s)) specs) slots runnable"
proof (induction env root i b specs arbitrary: slots runnable rule: verify_gate_loop.induct)
  case (2 env root i b s ss)
  obtain k reason where c: "ClassifyCommand (cs_Command s) = (k, reason)" by force
  show ?case
    using 2 c blocked_iff [of "cs_Command s"]
    by (cases "blocked k") (auto simp: blocked_result_reported entry_def split: prod.splits)
qed simp

lemma run_verification_loop_gated:
  "run_verification_loop env root i b ap cs = (slots, runnable, ap') \<Longrightarrow>
   gated (map (\<lambda>c. entry (ci_Name c) (ci_Category c) (ci_Command c)) cs) slots runnable"
proof (induction env root i b ap cs arbitrary: slots runnable rule: run_verification_loop.induct)
  case (2 env root i b ap c cs)
  obtain k reason where c: "ClassifyCommand (ci_Command c) = (k, reason)" by force
  show ?case
    using 2 c blocked_iff [of "ci_Command c"]
    by (cases "blocked k") (auto simp: blocked_result_reported entry_def toCheckSpec_def split: prod.splits)
qed simp

definition harmless :: "string \<Rightarrow> bool" where
  "harmless cmd \<longleftrightarrow> cleared cmd \<and> list_all (\<lambda>c. \<not> is_shell_meta c) (TrimSpace cmd)"

lemma cleared_commands_inert: "list_all cleared cmds \<Longrightarrow> list_all harmless cmds"
  using cleared_inert by (auto simp: list_all_iff harmless_def)

lemma shell_commands_Nil [simp]: "shell_commands [] = []"
  by (simp add: shell_commands_def)

text \<open>C34. Both entry points that run verification commands, the tool \<open>run_verification\<close> with the
  caller's commands and \<open>modulex agent verify\<close> with the planned ones, give a shell only commands that
  the classifier puts in the safe or the networked class, which contain no shell metacharacter; and
  the report of \<open>run_verification\<close> has one entry per check, in order, which says
  \<open>approval_required\<close> exactly for the commands held back.\<close>

theorem only_cleared_commands_run:
  "list_all harmless (shell_commands (snd (runVerification env root checks net))) \<and>
   list_all harmless (shell_commands (snd (agentcli_Verify env root baseRef headRef net full))) \<and>
   (case fst (runVerification env root checks net) of
      Inl err \<Rightarrow> isl (resolveTools env root)
    | Inr out \<Rightarrow> map reported (rv_Results out) = map (\<lambda>c. entry (ci_Name c) (ci_Category c) (ci_Command c)) checks)"
proof -
  have run: "list_all harmless (shell_commands (snd (runVerification env root checks net))) \<and>
   (case fst (runVerification env root checks net) of
      Inl err \<Rightarrow> isl (resolveTools env root)
    | Inr out \<Rightarrow> map reported (rv_Results out) = map (\<lambda>c. entry (ci_Name c) (ci_Category c) (ci_Command c)) checks)"
    using gate_run [OF run_verification_loop_gated] cleared_commands_inert
    by (auto simp: runVerification_def Let_def split: sum.splits prod.splits)
  moreover have "list_all harmless (shell_commands (snd (agentcli_Verify env root baseRef headRef net full)))"
    using gate_run(2) [OF verify_gate_loop_gated] cleared_commands_inert
    by (auto simp: agentcli_Verify_def Let_def split: sum.splits prod.splits)
  ultimately show ?thesis by simp
qed

text \<open>The class of a command decides only whether it is held back; whether it may use the network is
  decided by the flag of the caller. A command of the networked class whose check is not flagged runs
  although the network is not allowed.\<close>

theorem networked_runs_without_permission:
  assumes "resolveTools env root = Inr tools" "env_LookPath (ae_run env) ''sh'' = Inr sh"
  shows "fst (ClassifyCommand ''go mod download'') = ClassNetworked \<and>
    shell_commands (snd (runVerification env root
      [\<lparr>ci_Name = ''deps'', ci_Command = ''go mod download'', ci_Category = ''focused'', ci_Reason = '''',
        ci_RequiredTool = '''', ci_Networked = False\<rparr>] False)) = [''go mod download'']"
proof -
  have c: "fst (ClassifyCommand ''go mod download'') = ClassNetworked" by code_simp
  then obtain reason where k: "ClassifyCommand ''go mod download'' = (ClassNetworked, reason)"
    by (cases "ClassifyCommand ''go mod download''") simp
  have m: "missingMakeTarget (ae_run env) (toCheckSpec \<lparr>ci_Name = ''deps'', ci_Command = ''go mod download'',
      ci_Category = ''focused'', ci_Reason = '''', ci_RequiredTool = '''', ci_Networked = False\<rparr> dir) = ('''', [])" for dir
    unfolding missingMakeTarget_def toCheckSpec_def by code_simp
  show ?thesis
    using assms c m
    by (simp add: runVerification_def k blocked_def class_defs verify_Run_def runOne_def toCheckSpec_def
        runCommand_def Let_def shell_commands_def split: prod.splits)
qed

text \<open>When the patterns cannot be loaded at the base revision for any reason but an unparseable
  contract, \<open>review_diff\<close> goes on with no patterns, and the protected-paths check passes without
  looking at the diff; the command line returns the error.\<close>

theorem reviewDiff_fails_open:
  assumes "Discover (ae_discover env) root = Inr repo" "root \<noteq> ''''"
    and "LoadProtectedPathsAtRef (ae_git env) (ae_yaml env) root baseRef = Inl err"
    and "\<not> errors_is err ErrContractUnparseable"
  shows "(\<exists>results. fst (reviewDiff env root baseRef headRef net) = Inr results \<and>
      vr_Name (last results) = ''check-protected-paths'' \<and> vr_Status (last results) = StatusPass) \<and>
    fst (agentcli_Review env root baseRef headRef net) = Inl err"
  using assms
  by (simp add: reviewDiff_def resolveRoot_def agentreview_Review_def review_Review_def CheckProtectedPaths_def
      protected_result_def agentcli_Review_def reviewRepo_def loadProtectedPaths_def Let_def split: prod.splits)

text \<open>The full gates are left out by name only: a package directory called \<open>arch\<close> has a focused check
  with the name of the gate \<open>test-arch\<close>, and the gate is not run.\<close>

theorem full_gate_dropped:
  "list_ex (\<lambda>g. cs_Command g = ''make test-arch'') FullGates \<and>
   \<not> list_ex (\<lambda>s. cs_Command s = ''make test-arch'') (verify_specs (PlanFor [''arch/a.go'']) True)"
  by code_simp



section \<open>Handoff envelopes\<close>

lemma agentreview_Envelope_valid:
  assumes "agentreview_Envelope git now repo agent tool verification = Inr e"
  shows "envelope_Validate e = None" "Redact e = e"
    and "map (\<lambda>r. (vr_Name r, vr_Status r)) (e_Verification e) = map (\<lambda>r. (vr_Name r, vr_Status r)) verification"
    and "gitRevParse git (rp_Root repo) [''HEAD''] = Inr (rs_Commit (e_Repository e))"
    and "rs_Path (e_Repository e) = rp_Root repo"
proof -
  show v: "envelope_Validate e = None"
    using assms by (auto simp: agentreview_Envelope_def Let_def split: sum.splits option.splits)
  then show "Redact e = e" by (rule Redact_valid)
  show "map (\<lambda>r. (vr_Name r, vr_Status r)) (e_Verification e) = map (\<lambda>r. (vr_Name r, vr_Status r)) verification"
    and "gitRevParse git (rp_Root repo) [''HEAD''] = Inr (rs_Commit (e_Repository e))"
    and "rs_Path (e_Repository e) = rp_Root repo"
    using assms by (auto simp: agentreview_Envelope_def Redact_def redact_verification_def Let_def
        split: sum.splits option.splits)
qed

text \<open>A handoff, whether of the command line or of the server, is valid and holds no value shaped like
  a secret, since redacting it again changes nothing; and it keeps the name and the status of every
  result it was given.\<close>

theorem handoff_valid:
  assumes "buildHandoffEnvelope env root agent verification = Inr e"
  shows "envelope_Validate e = None \<and> Redact e = e \<and>
    map (\<lambda>r. (vr_Name r, vr_Status r)) (e_Verification e) = map (\<lambda>r. (vr_Name r, vr_Status r)) verification"
  using assms agentreview_Envelope_valid(1-3)
  by (simp add: buildHandoffEnvelope_def Let_def split: sum.splits)


section \<open>Approvals cross the process boundary\<close>

lemma wf_update [simp]: "wf_broker b \<Longrightarrow> wf_broker (b\<lparr>grants := AList.update k g (grants b)\<rparr>)"
  by (simp add: wf_broker_def distinct_update)

lemma set_update: "e \<in> set (AList.update k g m) \<Longrightarrow> e = (k, g) \<or> e \<in> set m"
  by (induction m) (auto split: if_splits)

lemma filed_update:
  "filed sha b \<Longrightarrow> g_TokenHash g = sha (g_Token g) \<Longrightarrow>
   filed sha (b\<lparr>grants := AList.update (g_Token g) g (grants b)\<rparr>)"
  by (auto simp: filed_def list_all_iff dest: set_update)

lemma filed_Load_grants: "filed sha (Load_grants sha ss)"
proof (induction ss rule: rev_induct)
  case Nil
  then show ?case by (simp add: Load_grants_def NewBroker_def filed_def wf_broker_def)
next
  case (snoc s ss)
  then show ?case
    using filed_update [of sha "Load_grants sha ss" "restored sha s"]
    by (simp add: Load_grants_snoc restored_def)
qed

lemma filed_Load: "Load sha unmarshal err path d = Inr b \<Longrightarrow> filed sha b"
  using filed_Load_grants [of sha "[]"] filed_Load_grants
  by (auto simp: Load_def Load_grants_def split: option.splits sum.splits)

lemma filed_prune: "filed sha b \<Longrightarrow> filed sha (pruneLocked now b)"
  by (simp add: filed_def list_all_iff) (simp add: pruneLocked_def)

lemma broker_Grant_filed:
  assumes "broker_Grant sha rand now scope who ttl b = (Inr g, b')" "filed sha b"
  shows "filed sha b'" "map_of (grants b') (g_Token g) = Some g" "g_Scope g = scope" "\<not> g_Used g"
proof -
  have b': "b' = (pruneLocked now b)\<lparr>grants := AList.update (g_Token g) g (grants (pruneLocked now b))\<rparr>"
    and g: "g_TokenHash g = sha (g_Token g)" "g_Scope g = scope" "\<not> g_Used g"
    using assms(1) by (auto simp: broker_Grant_def generateToken_def Let_def split: if_splits sum.splits)
  show "filed sha b'" unfolding b' by (rule filed_update [OF filed_prune [OF assms(2)] g(1)])
  show "map_of (grants b') (g_Token g) = Some g" by (simp add: b' update_conv)
  show "g_Scope g = scope" "\<not> g_Used g" using g by auto
qed

lemma Save_then_Load:
  assumes "\<And>gs data. marshal gs = Inr data \<Longrightarrow> unmarshal data = Inr gs"
    and "filed sha b" "Save marshal senv path b d = (None, ds)"
  shows "Load sha unmarshal None path (last ds) = Inr b"
proof -
  have "Load_grants sha (map (stored \<circ> snd) (grants b)) = b"
    using assms(2) Load_stored [of "grants b" sha] by (cases b) (simp add: filed_def wf_broker_def)
  then show ?thesis
    using assms(3) by (auto simp: Save_def Load_def Let_def dest: assms(1) split: sum.splits option.splits prod.splits)
qed

lemma DryRunCheck_live:
  assumes "wf_broker b" "live now b k = Some g" "g_Scope g = scope"
  shows "fst (DryRunCheck now scope b) = StatusPass"
proof -
  have "covers (live now b) k scope" using assms(2,3) by (auto simp: Approval.covers_def)
  then have "snd (findMatch now '''' scope b) \<noteq> None"
    using findMatch_scope [OF assms(1), of now scope] by (auto split: prod.splits option.splits)
  then show ?thesis by (auto simp: DryRunCheck_def split: prod.splits)
qed

text \<open>C35. A grant made by \<open>modulex agent approve\<close> is visible to a later \<open>run_verification\<close> of another
  process on the same root, through the approvals file alone: as long as it has not expired, the
  approval status of a held-back check of that name is pass. The check itself still does not run.
  The JSON encoding is assumed to decode its own output.\<close>

theorem approval_visible:
  assumes json: "\<And>gs data. ae_marshal env gs = Inr data \<Longrightarrow> ae_unmarshal env data = Inr gs"
    and ok: "Approve env rand senv root (ci_Name c) '''' who ttl = (Inr g, ds)" and root: "root \<noteq> ''''"
    and later: "env' = env\<lparr>ae_disk := last ds, ae_read_err := None, ae_now := clock\<rparr>"
    and alive: "\<not> expired g (clock 0)" and tools: "resolveTools env root = Inr tools"
    and held: "\<not> cleared (ci_Command c)"
  shows "\<exists>out r. runVerification env' root [c] net = (Inr out, []) \<and> rv_Results out = [r] \<and>
    vr_Status r = StatusApprovalRequired \<and> map_of (rv_ApprovalStatus out) (ci_Name c) = Some StatusPass"
proof -
  obtain b b' where b: "Load (ae_sha256 env) (ae_unmarshal env) (ae_read_err env) (DefaultStorePath root) (ae_disk env) = Inr b"
    and b': "broker_Grant (ae_sha256 env) rand (ae_now env 0) (action_scope (ci_Name c)) who ttl b = (Inr g, b')"
    and save: "Save (ae_marshal env) senv (DefaultStorePath root) b' (ae_disk env) = (None, ds)"
    using ok by (auto simp: Approve_def action_scope_def Let_def split: sum.splits prod.splits option.splits)
  note g = broker_Grant_filed [OF b' filed_Load [OF b]]
  have broker: "loaded_broker env' root = b'"
    using Save_then_Load [OF json g(1) save] by (simp add: loaded_broker_def later)
  have "live (clock 0) b' (g_Token g) = Some g" using g alive by (simp add: live_def)
  then have dry: "fst (DryRunCheck (clock 0) (action_scope (ci_Name c)) b') = StatusPass"
    using DryRunCheck_live g(1,3) by (auto simp: filed_def)
  have t: "resolveTools env' root = Inr tools" using tools by (simp add: resolveTools_def later)
  have bl: "blocked (fst (ClassifyCommand (ci_Command c)))" using held blocked_iff by simp
  show ?thesis
    using t broker dry bl root
    by (auto simp: runVerification_def Let_def resolveRoot_def later verify_Run_def blocked_result_def
        split: prod.splits)
qed

definition ex_pushed :: Grant where
  "ex_pushed = \<lparr>g_Token = ''tok'', g_TokenHash = ''tok'', g_Scope = action_scope ''push'', g_ApprovedBy = ''ann'',
     g_ApprovedAt = 10, g_ExpiresAt = 15, g_Used = False\<rparr>"

definition ex_agent :: agent_env where
  "ex_agent = \<lparr>
     ae_discover = \<lparr>de_Abs = Inr, de_Stat = (\<lambda>_. Inr (NDir None [])), de_LookPath = (\<lambda>_. ('''', Some ErrNotExist)),
       de_git = \<lparr>git_LookPath = Inl ErrNotExist, git_run = (\<lambda>_ _. (None, '''', ''''))\<rparr>, de_parser = (\<lambda>_. None)\<rparr>,
     ae_run = \<lparr>env_exists = (\<lambda>_. False), env_LookPath = (\<lambda>_. Inl ErrNotExist),
       env_start = (\<lambda>_ _. ('''', None)), env_duration = (\<lambda>_. 0)\<rparr>,
     ae_readFile = (\<lambda>_. Inl ErrNotExist), ae_yaml = (\<lambda>_. Inl ErrNotExist), ae_sha256 = id,
     ae_unmarshal = (\<lambda>data. if data = ''json'' then Inr [stored ex_pushed] else Inl ErrNotExist),
     ae_marshal = (\<lambda>gs. if gs = [stored ex_pushed] then Inr ''json'' else Inl ErrNotExist),
     ae_read_err = None, ae_disk = (\<lambda>_. None), ae_now = (\<lambda>_. 10)\<rparr>"

definition ex_push :: CheckSpecIn where
  "ex_push = \<lparr>ci_Name = ''push'', ci_Command = ''git push'', ci_Category = ''full'', ci_Reason = '''',
     ci_RequiredTool = '''', ci_Networked = False\<rparr>"

lemma ex_agent_tools: "\<not> isl (resolveTools ex_agent ''r'')"
  by code_simp

lemma ex_approve:
  "Approve ex_agent (Inr ''tok'') no_faults ''r'' ''push'' '''' ''ann'' 5 =
     (Inr ex_pushed,
      let p = DefaultStorePath ''r''; d = (\<lambda>_. None); d1 = d(tmp_path p \<mapsto> ''json'') in
      [d, d1, d1(p \<mapsto> ''json'', tmp_path p := None)])"
  by (simp add: Approve_def ex_agent_def no_faults_def Load_def NewBroker_def broker_Grant_def generateToken_def
      pruneLocked_def Save_def ex_pushed_def action_scope_def stored_def Let_def)

theorem approval_visible_witness:
  "\<exists>env' out r. runVerification env' ''r'' [ex_push] False = (Inr out, []) \<and> rv_Results out = [r] \<and>
    vr_Status r = StatusApprovalRequired \<and> map_of (rv_ApprovalStatus out) ''push'' = Some StatusPass"
proof -
  have json: "ae_marshal ex_agent gs = Inr data \<Longrightarrow> ae_unmarshal ex_agent data = Inr gs" for gs data
    by (auto simp: ex_agent_def split: if_splits)
  obtain ds where ok: "Approve ex_agent (Inr ''tok'') no_faults ''r'' (ci_Name ex_push) '''' ''ann'' 5 = (Inr ex_pushed, ds)"
    using ex_approve by (simp add: ex_push_def)
  obtain tools where tools: "resolveTools ex_agent ''r'' = Inr tools"
    using ex_agent_tools by (cases "resolveTools ex_agent ''r''") auto
  have held: "\<not> cleared (ci_Command ex_push)" by code_simp
  have alive: "\<not> expired ex_pushed ((\<lambda>_. 12) 0)" by (simp add: ex_pushed_def expired_def)
  have "ci_Name ex_push = ''push''" by (simp add: ex_push_def)
  then show ?thesis
    using approval_visible [OF json ok _ refl alive tools held, of False] by auto
qed

end
