(* ===== verification/PRReceiver.thy ===== *)
theory PRReceiver
  imports Errors
begin

text \<open>
  The receiving side of the hosted pull-request review, \<open>src/services/prreview\<close>: signature check
  and parsing of a delivery (\<open>webhook\<close>), the in-memory store and queue (\<open>store/memory.go\<close>,
  \<open>queue/queue.go\<close>), the per-installation limiter (\<open>ratelimit\<close>) and the HTTP handler
  (\<open>receiver\<close>). HMAC, SHA-256 and the JSON decoder are parameters; a time is an integer, and the
  clock of each call is an argument.
\<close>

section \<open>Deliveries\<close>

record ReviewRequest =
  rq_InstallationID :: int
  rq_Owner :: string
  rq_Repo :: string
  rq_PRNumber :: int
  rq_HeadSHA :: string
  rq_BaseRef :: string
  rq_CloneURL :: string
  rq_DeliveryID :: string

definition ErrBadSignature :: gerror where
  "ErrBadSignature = Sentinel ''webhook signature mismatch''"

definition ErrIgnore :: gerror where
  "ErrIgnore = Sentinel ''delivery ignored''"

text \<open>\<open>hex.DecodeString\<close>.\<close>

definition hex_value :: "char \<Rightarrow> nat option" where
  "hex_value c = (let n = of_char c :: nat in
     if 48 \<le> n \<and> n \<le> 57 then Some (n - 48)
     else if 97 \<le> n \<and> n \<le> 102 then Some (n - 87)
     else if 65 \<le> n \<and> n \<le> 70 then Some (n - 55) else None)"

fun hex_decode :: "string \<Rightarrow> string option" where
  "hex_decode [] = Some []"
| "hex_decode [c] = None"
| "hex_decode (a # b # cs) = (case (hex_value a, hex_value b, hex_decode cs) of
     (Some x, Some y, Some s) \<Rightarrow> Some (char_of (16 * x + y) # s) | _ \<Rightarrow> None)"

definition VerifySignature :: "(string \<Rightarrow> string \<Rightarrow> string) \<Rightarrow> string \<Rightarrow> string \<Rightarrow> string \<Rightarrow> gerror option" where
  "VerifySignature hmac secret body signatureHeader =
     (if \<not> HasPrefix signatureHeader ''sha256='' then Some ErrBadSignature
      else case hex_decode (TrimPrefix signatureHeader ''sha256='') of
        None \<Rightarrow> Some ErrBadSignature
      | Some got \<Rightarrow> if hmac secret body \<noteq> got then Some ErrBadSignature else None)"

text \<open>What the decoder finds in a body, by the names of the JSON fields.\<close>

record payload =
  py_action :: string
  py_installation_id :: int
  py_repository_name :: string
  py_clone_url :: string
  py_owner_login :: string
  py_number :: int
  py_head_sha :: string
  py_base_ref :: string

definition reviewedActions :: "string list" where
  "reviewedActions = [''opened'', ''synchronize'', ''reopened'']"

definition ParsePullRequestEvent ::
    "(string \<Rightarrow> payload result) \<Rightarrow> string \<Rightarrow> string \<Rightarrow> string \<Rightarrow> ReviewRequest result" where
  "ParsePullRequestEvent json eventType deliveryID body =
     (if eventType \<noteq> ''pull_request'' then Inl (Errorf [Wrapped ErrIgnore, Lit '': event '', Quoted eventType])
      else case json body of
        Inl e \<Rightarrow> Inl (Errorf [Lit ''parsing pull_request payload: '', Wrapped e])
      | Inr p \<Rightarrow>
        if py_action p \<notin> set reviewedActions
        then Inl (Errorf [Wrapped ErrIgnore, Lit '': action '', Quoted (py_action p)])
        else let req = \<lparr>rq_InstallationID = py_installation_id p, rq_Owner = py_owner_login p,
                        rq_Repo = py_repository_name p, rq_PRNumber = py_number p, rq_HeadSHA = py_head_sha p,
                        rq_BaseRef = py_base_ref p, rq_CloneURL = py_clone_url p, rq_DeliveryID = deliveryID\<rparr>
          in if rq_InstallationID req = 0
             then Inl (Sentinel ''pull_request payload missing installation id'')
             else if rq_Owner req = '''' \<or> rq_Repo req = '''' \<or> rq_CloneURL req = ''''
             then Inl (Sentinel ''pull_request payload missing repository identity'')
             else if rq_PRNumber req = 0 \<or> rq_HeadSHA req = '''' \<or> rq_BaseRef req = ''''
             then Inl (Sentinel ''pull_request payload missing PR identity'')
             else Inr req)"


section \<open>Rate limit\<close>

record windowCount =
  windowStart :: int
  win_count :: nat

text \<open>The time of the last sweep is \<open>None\<close> as long as it is the zero time, which lies further back
  than any window.\<close>

record Limiter =
  lm_limit :: int
  lm_window :: int
  lm_counts :: "int \<rightharpoonup> windowCount"
  lm_lastSweep :: "int option"

definition NewLimiter :: "int \<Rightarrow> int \<Rightarrow> Limiter" where
  "NewLimiter limit window = \<lparr>lm_limit = limit, lm_window = window, lm_counts = Map.empty, lm_lastSweep = None\<rparr>"

definition sweepLocked :: "int \<Rightarrow> Limiter \<Rightarrow> Limiter" where
  "sweepLocked now l =
     (if (case lm_lastSweep l of None \<Rightarrow> False | Some t \<Rightarrow> now - t < lm_window l) then l
      else l\<lparr>lm_lastSweep := Some now,
             lm_counts := (\<lambda>i. case lm_counts l i of
                None \<Rightarrow> None | Some wc \<Rightarrow> if now - windowStart wc \<ge> lm_window l then None else Some wc)\<rparr>)"

definition Allow :: "int \<Rightarrow> int \<Rightarrow> Limiter \<Rightarrow> bool \<times> Limiter" where
  "Allow now installationID l0 =
     (if lm_limit l0 \<le> 0 then (True, l0)
      else
        (let l = sweepLocked now l0;
             wc = (case lm_counts l installationID of
                     None \<Rightarrow> \<lparr>windowStart = now, win_count = 0\<rparr>
                   | Some wc \<Rightarrow> if now - windowStart wc \<ge> lm_window l then \<lparr>windowStart = now, win_count = 0\<rparr> else wc)
         in if int (win_count wc) \<ge> lm_limit l
            then (False, l\<lparr>lm_counts := (lm_counts l)(installationID \<mapsto> wc)\<rparr>)
            else (True, l\<lparr>lm_counts := (lm_counts l)(installationID \<mapsto> wc\<lparr>win_count := win_count wc + 1\<rparr>)\<rparr>)))"


section \<open>The handler\<close>

type_synonym dedup = "string \<rightharpoonup> int"

definition Seen :: "int \<Rightarrow> string \<Rightarrow> int \<Rightarrow> dedup \<Rightarrow> bool \<times> dedup" where
  "Seen now deliveryID ttl d =
     (case d deliveryID of
        Some expiry \<Rightarrow> if now < expiry then (True, d) else (False, d(deliveryID \<mapsto> now + ttl))
      | None \<Rightarrow> (False, d(deliveryID \<mapsto> now + ttl)))"

definition Forget :: "string \<Rightarrow> dedup \<Rightarrow> dedup" where
  "Forget deliveryID d = d(deliveryID := None)"

definition maxBodyBytes :: nat where
  "maxBodyBytes = 1048576"

definition bodyDedupKey :: "(string \<Rightarrow> string) \<Rightarrow> string \<Rightarrow> string" where
  "bodyDedupKey sha256_hex body = sha256_hex body"

record http_request =
  hr_Method :: string
  hr_Body :: "string result"
  hr_Signature :: string
  hr_Delivery :: string
  hr_Event :: string

record receiver =
  rx_dedup :: dedup
  rx_limiter :: Limiter
  rx_tasks :: "ReviewRequest list"

record receiver_config =
  rx_Secret :: string
  rx_DedupTTL :: int
  rx_hmac :: "string \<Rightarrow> string \<Rightarrow> string"
  rx_sha256 :: "string \<Rightarrow> string"
  rx_json :: "string \<Rightarrow> payload result"

text \<open>The surroundings of one call: the clock, and the failures of the store and of the queue.\<close>

record call_env =
  ce_now :: int
  ce_seen :: "gerror option"
  ce_forget :: "gerror option"
  ce_enqueue :: "gerror option"

definition Enqueue :: "gerror option \<Rightarrow> ReviewRequest \<Rightarrow> ReviewRequest list \<Rightarrow> gerror option \<times> ReviewRequest list" where
  "Enqueue err req tasks = (case err of Some e \<Rightarrow> (Some e, tasks) | None \<Rightarrow> (None, tasks @ [req]))"

definition accept_delivery ::
    "receiver_config \<Rightarrow> call_env \<Rightarrow> string \<Rightarrow> ReviewRequest \<Rightarrow> receiver \<Rightarrow> nat \<times> receiver" where
  "accept_delivery cfg env dedupKey req s =
     (case ce_seen env of
        Some _ \<Rightarrow> (500, s)
      | None \<Rightarrow>
        (case Seen (ce_now env) dedupKey (rx_DedupTTL cfg) (rx_dedup s) of (seen, d) \<Rightarrow>
         let s1 = s\<lparr>rx_dedup := d\<rparr> in
         if seen then (200, s1)
         else
           (case Allow (ce_now env) (rq_InstallationID req) (rx_limiter s1) of (ok, l) \<Rightarrow>
            let s2 = s1\<lparr>rx_limiter := l\<rparr> in
            if \<not> ok then (200, s2)
            else case Enqueue (ce_enqueue env) req (rx_tasks s2) of
              (Some _, _) \<Rightarrow>
                (500, case ce_forget env of None \<Rightarrow> s2\<lparr>rx_dedup := Forget dedupKey (rx_dedup s2)\<rparr> | Some _ \<Rightarrow> s2)
            | (None, tasks) \<Rightarrow> (202, s2\<lparr>rx_tasks := tasks\<rparr>))))"

definition ServeHTTP :: "receiver_config \<Rightarrow> call_env \<Rightarrow> http_request \<Rightarrow> receiver \<Rightarrow> nat \<times> receiver" where
  "ServeHTTP cfg env r s =
     (if hr_Method r \<noteq> ''POST'' then (405, s)
      else case hr_Body r of
        Inl _ \<Rightarrow> (400, s)
      | Inr body \<Rightarrow>
        if length body > maxBodyBytes then (400, s)
        else if VerifySignature (rx_hmac cfg) (rx_Secret cfg) body (hr_Signature r) \<noteq> None then (401, s)
        else if hr_Delivery r = '''' then (400, s)
        else case ParsePullRequestEvent (rx_json cfg) (hr_Event r) (hr_Delivery r) body of
          Inl e \<Rightarrow> if errors_is e ErrIgnore then (200, s) else (400, s)
        | Inr req \<Rightarrow> accept_delivery cfg env (bodyDedupKey (rx_sha256 cfg) body) req s)"


section \<open>A delivery is enqueued once\<close>

fun serve_all :: "receiver_config \<Rightarrow> (call_env \<times> http_request) list \<Rightarrow> receiver \<Rightarrow> nat list \<times> receiver" where
  "serve_all cfg [] s = ([], s)"
| "serve_all cfg ((env, r) # rs) s =
     (case ServeHTTP cfg env r s of (code, s1) \<Rightarrow>
      case serve_all cfg rs s1 of (codes, s2) \<Rightarrow> (code # codes, s2))"







lemma serve_all_length: "serve_all cfg rs s = (codes, s') \<Longrightarrow> length codes = length rs"
  by (induction rs arbitrary: s codes s') (auto split: prod.splits)





text \<open>A delivery whose enqueue failed is not swallowed when it comes again: its record is gone.\<close>

lemma failed_enqueue_forgotten:
  assumes "ServeHTTP cfg env r s = (500, s')" "ce_seen env = None" "ce_forget env = None" "hr_Body r = Inr body"
  shows "rx_dedup s' (bodyDedupKey (rx_sha256 cfg) body) = None \<and> rx_tasks s' = rx_tasks s"
  using assms
  by (auto simp: ServeHTTP_def accept_delivery_def Enqueue_def Forget_def Let_def
      split: sum.splits if_splits option.splits prod.splits)








section \<open>The limiter\<close>

fun allow_all :: "(int \<times> int) list \<Rightarrow> Limiter \<Rightarrow> bool list" where
  "allow_all [] l = []"
| "allow_all ((now, i) # cs) l = (case Allow now i l of (ok, l') \<Rightarrow> ok # allow_all cs l')"

definition allowed_in :: "int \<Rightarrow> int \<Rightarrow> int \<Rightarrow> (int \<times> int) list \<Rightarrow> bool list \<Rightarrow> nat" where
  "allowed_in i t w cs oks =
     length (filter (\<lambda>((now, j), ok). ok \<and> j = i \<and> t \<le> now \<and> now < t + w) (zip cs oks))"

text \<open>What is left of the quota of the current window of an installation.\<close>

definition window_left :: "int \<Rightarrow> Limiter \<Rightarrow> int" where
  "window_left i l = (case lm_counts l i of None \<Rightarrow> 0 | Some wc \<Rightarrow> lm_limit l - int (win_count wc))"

definition quota_ok :: "Limiter \<Rightarrow> bool" where
  "quota_ok l \<longleftrightarrow> 0 < lm_limit l \<and> (\<forall>i wc. lm_counts l i = Some wc \<longrightarrow> 0 < win_count wc \<and> int (win_count wc) \<le> lm_limit l)"

lemma allowed_in_Cons:
  "allowed_in i t w ((now, j) # cs) (ok # oks) =
     (if ok \<and> j = i \<and> t \<le> now \<and> now < t + w then 1 else 0) + allowed_in i t w cs oks"
  by (simp add: allowed_in_def)

lemma Allow_config:
  "Allow now j l = (ok, l') \<Longrightarrow> lm_limit l' = lm_limit l \<and> lm_window l' = lm_window l"
  by (auto simp: Allow_def sweepLocked_def Let_def split: if_splits)

lemma Allow_quota: "Allow now j l = (ok, l') \<Longrightarrow> quota_ok l \<Longrightarrow> quota_ok l'"
  by (auto simp: Allow_def sweepLocked_def quota_ok_def Let_def split: if_splits option.splits)

text \<open>A call within the current window of its installation uses up the quota; the window of another
  installation stays, unless it has run out.\<close>

lemma Allow_in_window:
  assumes "Allow now j l = (ok, l')" "quota_ok l" "lm_counts l i = Some wc" "now - windowStart wc < lm_window l"
  shows "lm_counts l' i = Some (wc\<lparr>win_count := win_count wc + (if ok \<and> j = i then 1 else 0)\<rparr>)"
    and "j = i \<Longrightarrow> ok \<longleftrightarrow> int (win_count wc) < lm_limit l"
  using assms
  by (auto simp: Allow_def sweepLocked_def quota_ok_def Let_def split: if_splits option.splits)

lemma Allow_new_window:
  assumes "Allow now j l = (ok, l')" "quota_ok l"
    and "\<And>wc. lm_counts l i = Some wc \<Longrightarrow> now - windowStart wc \<ge> lm_window l"
  shows "j = i \<Longrightarrow> ok \<and> lm_counts l' i = Some \<lparr>windowStart = now, win_count = 1\<rparr>"
    and "j \<noteq> i \<Longrightarrow> lm_counts l' i = None \<or> lm_counts l' i = lm_counts l i"
  using assms
  by (auto simp: Allow_def sweepLocked_def quota_ok_def Let_def split: if_splits option.splits)

lemma allowed_late:
  "sorted (map fst cs) \<Longrightarrow> (\<And>c. c \<in> set cs \<Longrightarrow> t + w \<le> fst c) \<Longrightarrow> allowed_in i t w cs oks = 0"
  unfolding allowed_in_def by (fastforce simp: filter_empty_conv dest: set_zip_leftD)

text \<open>Once a window has started inside an interval of the window's length, the interval gets no more
  than what is left of that window.\<close>

lemma allowed_rest:
  assumes "quota_ok l" "sorted (map fst cs)" "lm_counts l i = Some wc" "t \<le> windowStart wc"
  shows "int (allowed_in i t (lm_window l) cs (allow_all cs l)) \<le> lm_limit l - int (win_count wc)"
  using assms
proof (induction cs arbitrary: l wc)
  case Nil
  then show ?case by (simp add: allowed_in_def quota_ok_def)
next
  case (Cons c cs)
  obtain now j where c: "c = (now, j)" by force
  obtain ok l' where a: "Allow now j l = (ok, l')" by force
  note cfg = Allow_config [OF a] and q = Allow_quota [OF a Cons.prems(1)]
  show ?case
  proof (cases "now - windowStart wc < lm_window l")
    case True
    note w = Allow_in_window [OF a Cons.prems(1,3) True]
    have "int (allowed_in i t (lm_window l) cs (allow_all cs l')) \<le>
        lm_limit l - int (win_count wc + (if ok \<and> j = i then 1 else 0))"
      using Cons.IH [OF q _ w(1)] Cons.prems(2,4) cfg by simp
    then show ?thesis by (auto simp: c a allowed_in_Cons)
  next
    case False
    have "allowed_in i t (lm_window l) (c # cs) (allow_all (c # cs) l) = 0"
      using False Cons.prems(2,4) by (intro allowed_late) (auto simp: c)
    then show ?thesis using Cons.prems(1,3) by (auto simp: quota_ok_def)
  qed
qed

lemma allowed_after:
  assumes "quota_ok l" "sorted (map fst cs)" "\<And>c. c \<in> set cs \<Longrightarrow> t \<le> fst c"
  shows "int (allowed_in i t (lm_window l) cs (allow_all cs l)) \<le> window_left i l + lm_limit l"
  using assms
proof (induction cs arbitrary: l)
  case Nil
  then show ?case by (auto simp: allowed_in_def quota_ok_def window_left_def split: option.splits)
next
  case (Cons c cs)
  obtain now j where c: "c = (now, j)" by force
  obtain ok l' where a: "Allow now j l = (ok, l')" by force
  note cfg = Allow_config [OF a] and q = Allow_quota [OF a Cons.prems(1)]
  let ?rest = "int (allowed_in i t (lm_window l) cs (allow_all cs l'))"
  have rest: "?rest \<le> window_left i l' + lm_limit l" using Cons.IH [OF q] Cons.prems(2,3) cfg by simp
  have left: "window_left i l \<ge> 0" using Cons.prems(1) by (auto simp: window_left_def quota_ok_def split: option.splits)
  have total: "int (allowed_in i t (lm_window l) (c # cs) (allow_all (c # cs) l)) \<le> (if ok \<and> j = i then 1 else 0) + ?rest"
    by (simp add: c a allowed_in_Cons)
  have total1: "(if ok \<and> j = i then 1 else 0) + ?rest \<le> 1 + ?rest" by simp
  consider (current) wc where "lm_counts l i = Some wc" "now - windowStart wc < lm_window l"
    | (other) "\<And>wc. lm_counts l i = Some wc \<Longrightarrow> now - windowStart wc \<ge> lm_window l"
    by (cases "lm_counts l i") force+
  then show ?case
  proof cases
    case current
    have "window_left i l' = window_left i l - (if ok \<and> j = i then 1 else 0)"
      using Allow_in_window(1) [OF a Cons.prems(1) current] cfg current(1) by (simp add: window_left_def)
    then show ?thesis using total rest by linarith
  next
    case other
    note n = Allow_new_window [where i = i, OF a Cons.prems(1) other]
    show ?thesis
    proof (cases "j = i")
      case True
      then have "?rest \<le> lm_limit l - 1"
        using n(1) allowed_rest [OF q, of cs i _ t] Cons.prems(2) Cons.prems(3) [of c] cfg by (simp add: c)
      then show ?thesis using left total total1 by linarith
    next
      case False
      then have "window_left i l' \<le> window_left i l"
        using n(2) left cfg by (auto simp: window_left_def split: option.splits)
      then show ?thesis using total rest False by simp
    qed
  qed
qed

lemma allowed_twice:
  assumes "quota_ok l" "sorted (map fst cs)"
  shows "int (allowed_in i t (lm_window l) cs (allow_all cs l)) \<le> 2 * lm_limit l - 1"
  using assms
proof (induction cs arbitrary: l)
  case Nil
  then show ?case by (simp add: allowed_in_def quota_ok_def)
next
  case (Cons c cs)
  obtain now j where c: "c = (now, j)" by force
  obtain ok l' where a: "Allow now j l = (ok, l')" by force
  show ?case
  proof (cases "t \<le> now")
    case True
    have "window_left i l \<le> lm_limit l - 1"
      using Cons.prems(1) by (auto simp: window_left_def quota_ok_def split: option.splits)
    moreover have "int (allowed_in i t (lm_window l) (c # cs) (allow_all (c # cs) l)) \<le> window_left i l + lm_limit l"
      using Cons.prems True by (intro allowed_after) (auto simp: c)
    ultimately show ?thesis by linarith
  next
    case False
    then show ?thesis
      using Cons.IH [OF Allow_quota [OF a Cons.prems(1)]] Cons.prems(2) Allow_config [OF a]
      by (simp add: c a allowed_in_Cons)
  qed
qed

text \<open>C37. With a positive limit, no interval as long as the window, wherever it starts and whatever
  the other installations do, sees twice the limit of accepted deliveries of one
  installation.\<close>

theorem limiter_bound:
  assumes "0 < limit" "sorted (map fst calls)"
  shows "int (allowed_in i t window calls (allow_all calls (NewLimiter limit window))) < 2 * limit"
  using allowed_twice [of "NewLimiter limit window" calls i t] assms
  by (simp add: quota_ok_def NewLimiter_def)

definition ex_limiter_calls :: "(int \<times> int) list" where
  "ex_limiter_calls = [(0, 7), (59, 7), (59, 7), (60, 7), (61, 7), (61, 7), (70, 8)]"

text \<open>The bound is reached: with a limit of two, three deliveries are accepted within two time units.\<close>

theorem limiter_bound_witness:
  "allow_all ex_limiter_calls (NewLimiter 2 60) = [True, True, False, True, True, False, True] \<and>
   allowed_in 7 59 60 ex_limiter_calls (allow_all ex_limiter_calls (NewLimiter 2 60)) = 3 \<and>
   int (allowed_in 7 59 60 ex_limiter_calls (allow_all ex_limiter_calls (NewLimiter 2 60))) < 2 * 2"
proof -
  have "allow_all ex_limiter_calls (NewLimiter 2 60) = [True, True, False, True, True, False, True]"
    by (simp add: ex_limiter_calls_def NewLimiter_def Allow_def sweepLocked_def Let_def)
  moreover from this have "allowed_in 7 59 60 ex_limiter_calls (allow_all ex_limiter_calls (NewLimiter 2 60)) = 3"
    by (simp add: allowed_in_def ex_limiter_calls_def)
  moreover have "sorted (map fst ex_limiter_calls)" by (simp add: ex_limiter_calls_def)
  ultimately show ?thesis using limiter_bound [of 2 ex_limiter_calls 7 59 60] by simp
qed

end
