(* ===== verification/PRWorker.thy ===== *)
theory PRWorker
  imports PRReceiver SecretScan
begin

text \<open>
  The review worker of \<open>src/services/prreview\<close>: the lease rules of \<open>store/store.go\<close>, the engine of
  \<open>engine/engine.go\<close>, and the job pipeline of \<open>worker/worker.go\<close>. A handler runs as a sequence of
  phases; each step makes one call of the store, of GitHub, of the engine or of the queue, whose
  outcome the surroundings of the step determine. Several handlers, of the same or of different
  pull requests, interleave step by step over one store. Logging is left out, and counters and
  times are unbounded integers.
\<close>

section \<open>Jobs and leases\<close>

record JobKey =
  jk_InstallationID :: int
  jk_Owner :: string
  jk_Repo :: string
  jk_PRNumber :: int

definition JobKey_String :: "JobKey \<Rightarrow> string" where
  "JobKey_String k = int_text (jk_InstallationID k) @ ''/'' @ jk_Owner k @ ''/'' @ jk_Repo k @ ''/'' @ int_text (jk_PRNumber k)"

record Job =
  jb_Status :: string
  jb_TargetSHA :: string
  jb_LeaseExpiry :: int
  jb_LeaseOwner :: string
  jb_LastReviewedSHA :: string
  jb_CommentID :: int
  jb_ReviewCount :: int
  jb_TokensUsed :: int

definition zero_job :: Job where
  "zero_job = \<lparr>jb_Status = '''', jb_TargetSHA = '''', jb_LeaseExpiry = 0, jb_LeaseOwner = '''',
     jb_LastReviewedSHA = '''', jb_CommentID = 0, jb_ReviewCount = 0, jb_TokensUsed = 0\<rparr>"

definition StatusIdle :: string where "StatusIdle = ''idle''"
definition StatusRunning :: string where "StatusRunning = ''running''"

datatype AcquireAction = ActionRun | ActionSkip

definition AcquireDecision :: "Job \<Rightarrow> int \<Rightarrow> string \<Rightarrow> int \<Rightarrow> string \<Rightarrow> Job \<times> AcquireAction" where
  "AcquireDecision job0 now headSHA leaseTTL owner =
     (let job = (if headSHA \<noteq> jb_LastReviewedSHA job0 \<or> jb_TargetSHA job0 = ''''
                 then job0\<lparr>jb_TargetSHA := headSHA\<rparr> else job0)
      in if jb_Status job = StatusRunning \<and> now < jb_LeaseExpiry job then (job, ActionSkip)
         else (job\<lparr>jb_Status := StatusRunning, jb_LeaseExpiry := now + leaseTTL, jb_LeaseOwner := owner\<rparr>, ActionRun))"

record CompleteOutcome =
  co_Post :: bool
  co_FollowUp :: bool
  co_FollowUpSHA :: string

definition released :: "Job \<Rightarrow> Job" where
  "released job = job\<lparr>jb_Status := StatusIdle, jb_LeaseExpiry := 0, jb_LeaseOwner := ''''\<rparr>"

definition CompleteDecision :: "Job \<Rightarrow> string \<Rightarrow> int \<Rightarrow> string \<Rightarrow> Job \<times> CompleteOutcome" where
  "CompleteDecision job reviewedSHA tokensUsed owner =
     (if jb_LeaseOwner job \<noteq> owner then (job, \<lparr>co_Post = False, co_FollowUp = False, co_FollowUpSHA = ''''\<rparr>)
      else if jb_TargetSHA job = reviewedSHA then
        (released (job\<lparr>jb_LastReviewedSHA := reviewedSHA, jb_ReviewCount := jb_ReviewCount job + 1,
                       jb_TokensUsed := jb_TokensUsed job + tokensUsed\<rparr>),
         \<lparr>co_Post = True, co_FollowUp = False, co_FollowUpSHA = ''''\<rparr>)
      else (released job, \<lparr>co_Post = False, co_FollowUp = True, co_FollowUpSHA = jb_TargetSHA job\<rparr>))"

definition ReleaseDecision :: "Job \<Rightarrow> string \<Rightarrow> Job" where
  "ReleaseDecision job owner = (if jb_LeaseOwner job \<noteq> owner then job else released job)"

record Usage =
  us_Reviews :: int
  us_Tokens :: int


section \<open>Shared state\<close>

text \<open>The job documents and the ledger of the store, the comments on the pull requests, and the task
  queue.\<close>

record review_world =
  wd_jobs :: "JobKey \<rightharpoonup> Job"
  wd_ledger :: "int \<rightharpoonup> Usage"
  wd_comments :: "JobKey \<Rightarrow> (int \<times> string) list"
  wd_tasks :: "ReviewRequest list"

definition memory_Get :: "JobKey \<Rightarrow> review_world \<Rightarrow> Job" where
  "memory_Get key w = (case wd_jobs w key of None \<Rightarrow> zero_job | Some j \<Rightarrow> j)"

definition memory_Mutate :: "JobKey \<Rightarrow> (Job \<Rightarrow> Job) \<Rightarrow> review_world \<Rightarrow> Job \<times> review_world" where
  "memory_Mutate key mutate w =
     (let job = mutate (memory_Get key w) in (job, w\<lparr>wd_jobs := (wd_jobs w)(key \<mapsto> job)\<rparr>))"

definition memory_Total :: "int \<Rightarrow> review_world \<Rightarrow> Usage" where
  "memory_Total i w = (case wd_ledger w i of None \<Rightarrow> \<lparr>us_Reviews = 0, us_Tokens = 0\<rparr> | Some u \<Rightarrow> u)"

definition memory_Add :: "int \<Rightarrow> int \<Rightarrow> int \<Rightarrow> review_world \<Rightarrow> review_world" where
  "memory_Add i reviews tokens w =
     (let u = memory_Total i w in
      w\<lparr>wd_ledger := (wd_ledger w)(i \<mapsto> \<lparr>us_Reviews = us_Reviews u + reviews, us_Tokens = us_Tokens u + tokens\<rparr>)\<rparr>)"


section \<open>The engine and the comment\<close>

definition engine_Review ::
    "git_exec \<Rightarrow> (string \<Rightarrow> Contract result) \<Rightarrow> string \<Rightarrow> string \<Rightarrow> string \<Rightarrow> VerificationResult list result" where
  "engine_Review git yaml dir baseRef headRef =
     (case LoadProtectedPathsAtRef git yaml dir baseRef of
        Inl err \<Rightarrow> Inl err
      | Inr protectedPaths \<Rightarrow>
        Inr [ScanSecrets git dir baseRef headRef, CheckProtectedPaths git dir baseRef headRef protectedPaths])"

definition shortSHA :: "string \<Rightarrow> string" where
  "shortSHA sha = (if length sha > 10 then take 10 sha else sha)"

text \<open>The zero-width space in UTF-8.\<close>

definition zwsp :: string where
  "zwsp = [CHR 0xE2, CHR 0x80, CHR 0x8B]"

definition escapeUntrusted :: "string \<Rightarrow> string" where
  "escapeUntrusted s = ReplaceAll_char s (CHR 0x60) (CHR 0x60 # zwsp)"

definition rawLinkPattern :: re where
  "rawLinkPattern = re_seq [re_lit ''http'', Opt (\<lambda>c. c = CHR ''s''), re_lit ''://'', re_at_least 1 (\<lambda>c. \<not> re_space c)]"

text \<open>\<open>ReplaceAllStringFunc\<close> with a function that puts a match in backticks.\<close>

function quote_links :: "char option \<Rightarrow> string \<Rightarrow> string" where
  "quote_links p s = (case s of
     [] \<Rightarrow> []
   | c # cs \<Rightarrow>
     (case re_ends rawLinkPattern (p, s) of
        [] \<Rightarrow> c # quote_links (Some c) cs
      | (p', s') # _ \<Rightarrow>
          if length s' < length s
          then CHR 0x60 # take (length s - length s') s @ CHR 0x60 # quote_links p' s'
          else c # quote_links (Some c) cs))"
  by pat_completeness auto
termination quote_links by (relation "measure (\<lambda>(p, s). length s)") auto

declare quote_links.simps [simp del]

definition sanitizeCommentary :: "string \<Rightarrow> string" where
  "sanitizeCommentary s = quote_links None (ReplaceAll_char s (CHR ''@'') (CHR ''@'' # zwsp))"

definition fence :: string where
  "fence = replicate 3 (CHR 0x60)"

definition failed_detail :: "VerificationResult \<Rightarrow> string" where
  "failed_detail r =
     (let detail = (if vr_Message r = '''' then vr_Reason r else vr_Message r) in
      ''<details><summary>'' @ escapeUntrusted (vr_Name r) @ ''</summary>'' @ nl @ nl @ fence @ nl @
      escapeUntrusted detail @ nl @ fence @ nl @ ''</details>'' @ nl @ nl)"

definition ComposeComment :: "string \<Rightarrow> VerificationResult list \<Rightarrow> string \<Rightarrow> string" where
  "ComposeComment sha results commentary =
     ''## Modulex PR review '' @ [CHR 0xE2, CHR 0x80, CHR 0x94] @ '' '' @ [CHR 0x60] @ shortSHA sha @ [CHR 0x60] @ nl @ nl @
     ''| Check | Category | Status |'' @ nl @ ''|---|---|---|'' @ nl @
     concat (map (\<lambda>r. ''| '' @ vr_Name r @ '' | '' @ vr_Category r @ '' | '' @ vr_Status r @ '' |'' @ nl) results) @ nl @
     (if list_ex (\<lambda>r. vr_Status r = StatusFail) results
      then ''**Some checks failed.** Details:'' @ nl @ nl @
           concat (map failed_detail (filter (\<lambda>r. vr_Status r = StatusFail) results)) else '''') @
     (if commentary \<noteq> ''''
      then ''### AI commentary'' @ nl @ nl @ sanitizeCommentary commentary @ nl @ nl else '''') @
     ''<sub>modulex hosted PR review (ADR-0035); this comment is updated in place on new pushes.</sub>'' @ nl"


section \<open>The handler\<close>

datatype phase =
    Acquiring
  | Minting string
  | Resolving string string
  | Reanchoring string string
  | Fetching string string
  | Reviewing string string
  | Commenting string string "VerificationResult list"
  | Checking string string "VerificationResult list" string int
  | Updating string int string int
  | Creating string string int
  | Persisting string int int
  | Completing string int
  | Metering CompleteOutcome int
  | Following CompleteOutcome
  | Releasing gerror
  | Finished "gerror option"

record attempt =
  at_req :: ReviewRequest
  at_owner :: string
  at_phase :: phase

text \<open>The outcome of the one call a step makes. \<open>x_head\<close> is \<open>None\<close> when the worker has no reader of
  pull requests; \<open>x_config\<close> tells whether the tenant has commentary enabled.\<close>

record ext =
  x_now :: int
  x_ttl :: int
  x_store :: "gerror option"
  x_token :: "string result"
  x_head :: "string result option"
  x_fetch :: "gerror option"
  x_review :: "VerificationResult list result"
  x_config :: "bool result"
  x_commentary :: "string \<times> int \<times> gerror option"
  x_comment :: "int result"
  x_ledger :: "gerror option"
  x_queue :: "gerror option"

definition job_key :: "ReviewRequest \<Rightarrow> JobKey" where
  "job_key req = \<lparr>jk_InstallationID = rq_InstallationID req, jk_Owner = rq_Owner req, jk_Repo = rq_Repo req,
                  jk_PRNumber = rq_PRNumber req\<rparr>"

abbreviation at_key :: "attempt \<Rightarrow> JobKey" where
  "at_key a \<equiv> job_key (at_req a)"

definition store_error :: "string \<Rightarrow> attempt \<Rightarrow> gerror \<Rightarrow> gerror" where
  "store_error what a e = Errorf [Lit what, Lit (JobKey_String (at_key a)), Lit '': '', Wrapped e]"

definition acquire :: "ext \<Rightarrow> attempt \<Rightarrow> review_world \<Rightarrow> phase \<times> review_world" where
  "acquire x a w =
     (case x_store x of
        Some e \<Rightarrow> (Finished (Some (store_error ''acquiring lease for '' a e)), w)
      | None \<Rightarrow>
        (let decide = (\<lambda>j. AcquireDecision j (x_now x) (rq_HeadSHA (at_req a)) (x_ttl x) (at_owner a));
             action = snd (decide (memory_Get (at_key a) w))
         in case memory_Mutate (at_key a) (\<lambda>j. fst (decide j)) w of (job, w') \<Rightarrow>
            (case action of ActionSkip \<Rightarrow> Finished None | ActionRun \<Rightarrow> Minting (jb_TargetSHA job), w')))"

definition mint :: "ext \<Rightarrow> string \<Rightarrow> phase" where
  "mint x sha = (case x_token x of
     Inl e \<Rightarrow> Releasing (Errorf [Lit ''minting installation token: '', Wrapped e])
   | Inr token \<Rightarrow> Resolving sha token)"

definition resolve_head :: "ext \<Rightarrow> string \<Rightarrow> string \<Rightarrow> phase" where
  "resolve_head x sha token = (case x_head x of
     None \<Rightarrow> Fetching sha token
   | Some (Inl _) \<Rightarrow> Fetching sha token
   | Some (Inr head) \<Rightarrow> if head = sha then Fetching sha token else Reanchoring head token)"

definition reanchor :: "ext \<Rightarrow> attempt \<Rightarrow> string \<Rightarrow> string \<Rightarrow> review_world \<Rightarrow> phase \<times> review_world" where
  "reanchor x a head token w =
     (case x_store x of
        Some e \<Rightarrow> (Releasing (store_error ''re-anchoring target for '' a e), w)
      | None \<Rightarrow>
        (Fetching head token,
         snd (memory_Mutate (at_key a)
           (\<lambda>j. if jb_LeaseOwner j = at_owner a then j\<lparr>jb_TargetSHA := head\<rparr> else j) w)))"

definition aiCommentary :: "ext \<Rightarrow> string \<times> int" where
  "aiCommentary x = (case x_config x of
     Inl _ \<Rightarrow> ('''', 0)
   | Inr enabled \<Rightarrow>
     if \<not> enabled then ('''', 0)
     else case x_commentary x of
       (commentary, tokensUsed, None) \<Rightarrow> (commentary, tokensUsed)
     | (_, tokensUsed, Some _) \<Rightarrow> ('''', tokensUsed))"

definition check_before_post ::
    "ext \<Rightarrow> attempt \<Rightarrow> string \<Rightarrow> VerificationResult list \<Rightarrow> string \<Rightarrow> int \<Rightarrow> review_world \<Rightarrow> phase" where
  "check_before_post x a sha results commentary tokensUsed w =
     (case x_store x of
        Some e \<Rightarrow> Releasing (Errorf [Lit ''re-reading job before post: '', Wrapped e])
      | None \<Rightarrow>
        (let current = memory_Get (at_key a) w; body = ComposeComment sha results commentary in
         if jb_TargetSHA current \<noteq> sha \<or> jb_LeaseOwner current \<noteq> at_owner a then Completing sha tokensUsed
         else if jb_CommentID current \<noteq> 0 then Updating sha (jb_CommentID current) body tokensUsed
         else Creating sha body tokensUsed))"

definition update_comment :: "ext \<Rightarrow> attempt \<Rightarrow> string \<Rightarrow> int \<Rightarrow> string \<Rightarrow> int \<Rightarrow> review_world \<Rightarrow> phase \<times> review_world" where
  "update_comment x a sha i body tokensUsed w =
     (case x_comment x of
        Inl e \<Rightarrow> (Releasing (Errorf [Lit ''updating comment: '', Wrapped e]), w)
      | Inr _ \<Rightarrow>
        (Completing sha tokensUsed,
         w\<lparr>wd_comments := (wd_comments w)(at_key a := AList.update i body (wd_comments w (at_key a)))\<rparr>))"

definition create_comment :: "ext \<Rightarrow> attempt \<Rightarrow> string \<Rightarrow> string \<Rightarrow> int \<Rightarrow> review_world \<Rightarrow> phase \<times> review_world" where
  "create_comment x a sha body tokensUsed w =
     (case x_comment x of
        Inl e \<Rightarrow> (Releasing (Errorf [Lit ''creating comment: '', Wrapped e]), w)
      | Inr i \<Rightarrow>
        (Persisting sha i tokensUsed,
         w\<lparr>wd_comments := (wd_comments w)(at_key a := wd_comments w (at_key a) @ [(i, body)])\<rparr>))"

definition persist_comment :: "ext \<Rightarrow> attempt \<Rightarrow> string \<Rightarrow> int \<Rightarrow> int \<Rightarrow> review_world \<Rightarrow> phase \<times> review_world" where
  "persist_comment x a sha i tokensUsed w =
     (case x_store x of
        Some e \<Rightarrow> (Releasing (store_error ''persisting comment id for '' a e), w)
      | None \<Rightarrow>
        (Completing sha tokensUsed,
         snd (memory_Mutate (at_key a) (\<lambda>j. if jb_CommentID j = 0 then j\<lparr>jb_CommentID := i\<rparr> else j) w)))"

definition complete_job :: "ext \<Rightarrow> attempt \<Rightarrow> string \<Rightarrow> int \<Rightarrow> review_world \<Rightarrow> phase \<times> review_world" where
  "complete_job x a sha tokensUsed w =
     (case x_store x of
        Some e \<Rightarrow> (Releasing (store_error ''completing job '' a e), w)
      | None \<Rightarrow>
        (let decide = (\<lambda>j. CompleteDecision j sha tokensUsed (at_owner a));
             outcome = snd (decide (memory_Get (at_key a) w))
         in (Metering outcome tokensUsed, snd (memory_Mutate (at_key a) (\<lambda>j. fst (decide j)) w))))"

definition meter :: "ext \<Rightarrow> attempt \<Rightarrow> CompleteOutcome \<Rightarrow> int \<Rightarrow> review_world \<Rightarrow> phase \<times> review_world" where
  "meter x a outcome tokensUsed w =
     (if co_FollowUp outcome then Following outcome else Finished None,
      if co_Post outcome \<and> x_ledger x = None
      then memory_Add (rq_InstallationID (at_req a)) 1 tokensUsed w else w)"

definition follow_up :: "ext \<Rightarrow> attempt \<Rightarrow> CompleteOutcome \<Rightarrow> review_world \<Rightarrow> phase \<times> review_world" where
  "follow_up x a outcome w =
     (let follow = (at_req a)\<lparr>rq_HeadSHA := co_FollowUpSHA outcome,
                              rq_DeliveryID := rq_DeliveryID (at_req a) @ ''+followup''\<rparr>
      in case Enqueue (x_queue x) follow (wd_tasks w) of
           (Some e, _) \<Rightarrow> (Releasing (store_error ''enqueueing follow-up for '' a e), w)
         | (None, tasks) \<Rightarrow> (Finished None, w\<lparr>wd_tasks := tasks\<rparr>))"

definition releaseLease :: "ext \<Rightarrow> attempt \<Rightarrow> review_world \<Rightarrow> review_world" where
  "releaseLease x a w = (case x_store x of
     Some _ \<Rightarrow> w
   | None \<Rightarrow> snd (memory_Mutate (at_key a) (\<lambda>j. ReleaseDecision j (at_owner a)) w))"

text \<open>\<open>Handle\<close> with \<open>reviewOnce\<close>, one call at a time: an error of the review releases the lease and
  is returned.\<close>

definition handle_step :: "ext \<Rightarrow> attempt \<Rightarrow> review_world \<Rightarrow> phase \<times> review_world" where
  "handle_step x a w = (case at_phase a of
     Acquiring \<Rightarrow> acquire x a w
   | Minting sha \<Rightarrow> (mint x sha, w)
   | Resolving sha token \<Rightarrow> (resolve_head x sha token, w)
   | Reanchoring head token \<Rightarrow> reanchor x a head token w
   | Fetching sha token \<Rightarrow>
       (case x_fetch x of
          Some e \<Rightarrow> Releasing (Errorf [Lit ''fetching checkout: '', Wrapped e])
        | None \<Rightarrow> Reviewing sha token, w)
   | Reviewing sha token \<Rightarrow>
       (case x_review x of
          Inl e \<Rightarrow> Releasing (Errorf [Lit ''running engine: '', Wrapped e])
        | Inr results \<Rightarrow> Commenting sha token results, w)
   | Commenting sha token results \<Rightarrow>
       (case aiCommentary x of (commentary, tokensUsed) \<Rightarrow> Checking sha token results commentary tokensUsed, w)
   | Checking sha token results commentary tokensUsed \<Rightarrow>
       (check_before_post x a sha results commentary tokensUsed w, w)
   | Updating sha i body tokensUsed \<Rightarrow> update_comment x a sha i body tokensUsed w
   | Creating sha body tokensUsed \<Rightarrow> create_comment x a sha body tokensUsed w
   | Persisting sha i tokensUsed \<Rightarrow> persist_comment x a sha i tokensUsed w
   | Completing sha tokensUsed \<Rightarrow> complete_job x a sha tokensUsed w
   | Metering outcome tokensUsed \<Rightarrow> meter x a outcome tokensUsed w
   | Following outcome \<Rightarrow> follow_up x a outcome w
   | Releasing e \<Rightarrow> (Finished (Some e), releaseLease x a w)
   | Finished r \<Rightarrow> (Finished r, w))"

text \<open>A handler alone: the steps numbered from a start, each with its surroundings.\<close>

fun Handle :: "nat \<Rightarrow> (nat \<Rightarrow> ext) \<Rightarrow> attempt \<Rightarrow> review_world \<Rightarrow> attempt \<times> review_world" where
  "Handle 0 xs a w = (a, w)"
| "Handle (Suc n) xs a w =
     (case at_phase a of
        Finished _ \<Rightarrow> (a, w)
      | _ \<Rightarrow> (case handle_step (xs n) a w of (ph, w') \<Rightarrow> Handle n xs (a\<lparr>at_phase := ph\<rparr>) w'))"



section \<open>A handler ends\<close>

fun phase_rank :: "phase \<Rightarrow> nat" where
  "phase_rank Acquiring = 15"
| "phase_rank (Minting _) = 14"
| "phase_rank (Resolving _ _) = 13"
| "phase_rank (Reanchoring _ _) = 12"
| "phase_rank (Fetching _ _) = 11"
| "phase_rank (Reviewing _ _) = 10"
| "phase_rank (Commenting _ _ _) = 9"
| "phase_rank (Checking _ _ _ _ _) = 8"
| "phase_rank (Updating _ _ _ _) = 7"
| "phase_rank (Creating _ _ _) = 7"
| "phase_rank (Persisting _ _ _) = 6"
| "phase_rank (Completing _ _) = 5"
| "phase_rank (Metering _ _) = 4"
| "phase_rank (Following _) = 3"
| "phase_rank (Releasing _) = 1"
| "phase_rank (Finished _) = 0"

lemmas handler_defs = handle_step_def acquire_def mint_def resolve_head_def reanchor_def check_before_post_def
  update_comment_def create_comment_def persist_comment_def complete_job_def meter_def follow_up_def
  releaseLease_def memory_Mutate_def Let_def

lemma handle_step_rank:
  "handle_step x a w = (ph, w') \<Longrightarrow> 0 < phase_rank (at_phase a) \<Longrightarrow> phase_rank ph < phase_rank (at_phase a)"
  by (cases "at_phase a")
    (auto simp: handler_defs split: option.splits sum.splits prod.splits AcquireAction.splits if_splits,
      metis less_irrefl phase_rank.simps(16))

lemma Handle_ends:
  "phase_rank (at_phase a) \<le> n \<Longrightarrow> \<exists>r. at_phase (fst (Handle n xs a w)) = Finished r"
proof (induction n arbitrary: a w)
  case 0
  then show ?case by (cases "at_phase a") auto
next
  case (Suc n)
  obtain ph w' where s: "handle_step (xs n) a w = (ph, w')" by force
  show ?case
  proof (cases "\<exists>r. at_phase a = Finished r")
    case True
    then show ?thesis by auto
  next
    case False
    then have "0 < phase_rank (at_phase a)" by (cases "at_phase a") auto
    then have "phase_rank ph \<le> n" using handle_step_rank [OF s] Suc.prems by auto
    then have "\<exists>r. at_phase (fst (Handle n xs (a\<lparr>at_phase := ph\<rparr>) w')) = Finished r" using Suc.IH by simp
    then show ?thesis using False s by (cases "at_phase a") auto
  qed
qed


section \<open>Interleaved handlers\<close>

text \<open>The system: the shared state, the attempts, and the fencing tokens used so far. A delivery puts
  a task in the queue; the queue hands a task to a new attempt, and an attempt that ended in an error
  is run again under a new token; a worker may crash, which the queue sees as an error.\<close>

record sys =
  sy_world :: review_world
  sy_attempts :: "attempt list"
  sy_used :: "string list"

datatype action =
    Deliver ReviewRequest
  | Dispatch nat string
  | Work nat ext
  | Crash nat
  | Retry nat string

definition ErrCrashed :: gerror where
  "ErrCrashed = Sentinel ''worker crashed''"

definition new_attempt :: "ReviewRequest \<Rightarrow> string \<Rightarrow> attempt" where
  "new_attempt req owner = \<lparr>at_req = req, at_owner = owner, at_phase = Acquiring\<rparr>"

definition fresh :: "string \<Rightarrow> sys \<Rightarrow> bool" where
  "fresh owner s \<longleftrightarrow> owner \<noteq> '''' \<and> owner \<notin> set (sy_used s)"

fun ended_in_error :: "phase \<Rightarrow> bool" where
  "ended_in_error (Finished (Some _)) = True"
| "ended_in_error _ = False"

fun exec :: "action \<Rightarrow> sys \<Rightarrow> sys" where
  "exec (Deliver req) s = s\<lparr>sy_world := (sy_world s)\<lparr>wd_tasks := wd_tasks (sy_world s) @ [req]\<rparr>\<rparr>"
| "exec (Dispatch i owner) s =
     (let ts = wd_tasks (sy_world s) in
      if i < length ts \<and> fresh owner s
      then \<lparr>sy_world = (sy_world s)\<lparr>wd_tasks := take i ts @ drop (Suc i) ts\<rparr>,
            sy_attempts = sy_attempts s @ [new_attempt (ts ! i) owner], sy_used = owner # sy_used s\<rparr>
      else s)"
| "exec (Work i x) s =
     (if i < length (sy_attempts s)
      then (case handle_step x (sy_attempts s ! i) (sy_world s) of (ph, w') \<Rightarrow>
            s\<lparr>sy_world := w', sy_attempts := (sy_attempts s)[i := (sy_attempts s ! i)\<lparr>at_phase := ph\<rparr>]\<rparr>)
      else s)"
| "exec (Crash i) s =
     (if i < length (sy_attempts s) \<and> (case at_phase (sy_attempts s ! i) of Finished _ \<Rightarrow> False | _ \<Rightarrow> True)
      then s\<lparr>sy_attempts := (sy_attempts s)[i := (sy_attempts s ! i)\<lparr>at_phase := Finished (Some ErrCrashed)\<rparr>]\<rparr>
      else s)"
| "exec (Retry i owner) s =
     (if i < length (sy_attempts s) \<and> fresh owner s \<and> ended_in_error (at_phase (sy_attempts s ! i))
      then s\<lparr>sy_attempts := (sy_attempts s)[i := new_attempt (at_req (sy_attempts s ! i)) owner],
             sy_used := owner # sy_used s\<rparr>
      else s)"

definition start :: sys where
  "start = \<lparr>sy_world = \<lparr>wd_jobs = Map.empty, wd_ledger = Map.empty, wd_comments = (\<lambda>_. []), wd_tasks = []\<rparr>,
            sy_attempts = [], sy_used = []\<rparr>"

definition run_system :: "action list \<Rightarrow> sys" where
  "run_system acts = fold exec acts start"

text \<open>A run is reliable when no worker crashes and no release of a lease fails in the store. Every
  other call may fail.\<close>

fun reliable_step :: "action \<Rightarrow> sys \<Rightarrow> bool" where
  "reliable_step (Crash i) s = False"
| "reliable_step (Work i x) s =
     (i < length (sy_attempts s) \<longrightarrow> (case at_phase (sy_attempts s ! i) of Releasing _ \<Rightarrow> x_store x = None | _ \<Rightarrow> True))"
| "reliable_step _ s = True"

fun reliable :: "action list \<Rightarrow> sys \<Rightarrow> bool" where
  "reliable [] s = True"
| "reliable (act # acts) s = (reliable_step act s \<and> reliable acts (exec act s))"



definition unreviewed :: "Job \<Rightarrow> bool" where
  "unreviewed j \<longleftrightarrow> jb_TargetSHA j \<noteq> '''' \<and> jb_TargetSHA j \<noteq> jb_LastReviewedSHA j"









lemma memory_Get_update [simp]:
  "memory_Get k (w\<lparr>wd_jobs := (wd_jobs w)(k' \<mapsto> j)\<rparr>) = (if k = k' then j else memory_Get k w)"
  "memory_Get k (w\<lparr>wd_comments := c\<rparr>) = memory_Get k w"
  "memory_Get k (w\<lparr>wd_tasks := ts\<rparr>) = memory_Get k w"
  "memory_Get k (memory_Add i r t w) = memory_Get k w"
  by (simp_all add: memory_Get_def memory_Add_def Let_def)

lemma handle_step_frame:
  "handle_step x a w = (ph, w') \<Longrightarrow> k \<noteq> at_key a \<Longrightarrow> memory_Get k w' = memory_Get k w"
  by (cases "at_phase a")
    (auto simp: handler_defs Enqueue_def split: option.splits sum.splits prod.splits AcquireAction.splits if_splits)

lemma job_key_follow [simp]: "job_key (req\<lparr>rq_HeadSHA := h, rq_DeliveryID := d\<rparr>) = job_key req"
  by (simp add: job_key_def)

lemma wd_tasks_Add [simp]: "wd_tasks (memory_Add i r t w) = wd_tasks w"
  by (simp add: memory_Add_def Let_def)




lemma idle_not_running [simp]: "StatusIdle \<noteq> StatusRunning"
  by (simp add: StatusIdle_def StatusRunning_def)




















section \<open>Properties\<close>

definition quiescent :: "sys \<Rightarrow> bool" where
  "quiescent s \<longleftrightarrow> wd_tasks (sy_world s) = [] \<and>
     list_all (\<lambda>a. case at_phase a of Finished None \<Rightarrow> True | _ \<Rightarrow> False) (sy_attempts s)"



text \<open>Only the owner of the lease records a review, for the target at that moment, and gives the lease
  back with it.\<close>

theorem review_recorded_by_owner:
  assumes "handle_step x a w = (ph, w')" "j = memory_Get k w" "j' = memory_Get k w'"
    and "jb_ReviewCount j' \<noteq> jb_ReviewCount j \<or> jb_LastReviewedSHA j' \<noteq> jb_LastReviewedSHA j"
  shows "k = at_key a \<and> jb_LeaseOwner j = at_owner a \<and> jb_LastReviewedSHA j' = jb_TargetSHA j \<and>
    jb_ReviewCount j' = jb_ReviewCount j + 1 \<and> jb_LeaseOwner j' = ''''"
proof -
  have k: "k = at_key a" using handle_step_frame [OF assms(1), of k] assms(2-4) by metis
  have keep: "jb_ReviewCount (fst (AcquireDecision j now h ttl owner)) = jb_ReviewCount j"
    "jb_LastReviewedSHA (fst (AcquireDecision j now h ttl owner)) = jb_LastReviewedSHA j"
    "jb_ReviewCount (ReleaseDecision j owner) = jb_ReviewCount j"
    "jb_LastReviewedSHA (ReleaseDecision j owner) = jb_LastReviewedSHA j" for j now h ttl owner
    by (simp_all add: AcquireDecision_def ReleaseDecision_def released_def Let_def)
  have "\<exists>sha n. at_phase a = Completing sha n \<and> j' = fst (CompleteDecision j sha n (at_owner a))"
    using assms k keep
    by (cases "at_phase a")
      (auto simp: handler_defs Enqueue_def split: option.splits sum.splits prod.splits if_splits)
  then show ?thesis using assms(4) k by (auto simp: CompleteDecision_def released_def split: if_splits)
qed



section \<open>Runs\<close>

definition ex_request :: "string \<Rightarrow> ReviewRequest" where
  "ex_request sha = \<lparr>rq_InstallationID = 1, rq_Owner = ''o'', rq_Repo = ''r'', rq_PRNumber = 2, rq_HeadSHA = sha,
     rq_BaseRef = ''main'', rq_CloneURL = ''u'', rq_DeliveryID = ''d''\<rparr>"

definition ex_ext :: "int \<Rightarrow> string result option \<Rightarrow> int \<Rightarrow> ext" where
  "ex_ext now head i = \<lparr>x_now = now, x_ttl = 20, x_store = None, x_token = Inr ''t'', x_head = head, x_fetch = None,
     x_review = Inr [], x_config = Inr False, x_commentary = ('''', 0, None), x_comment = Inr i,
     x_ledger = None, x_queue = None\<rparr>"

definition works :: "nat \<Rightarrow> ext \<Rightarrow> nat \<Rightarrow> action list" where
  "works i x n = replicate n (Work i x)"





text \<open>A worker that crashes leaves its lease behind. The retry of the queue comes before the lease
  has expired, takes the crashed attempt for a running one and returns without an error: everything
  is quiet, and the push is never reviewed.\<close>

definition ex_crashed :: "action list" where
  "ex_crashed =
     [Deliver (ex_request ''a''), Dispatch 0 ''w1''] @ works 0 (ex_ext 0 None 5) 2 @ [Crash 0, Retry 0 ''w2''] @
     works 0 (ex_ext 10 None 5) 1"

theorem crash_loses_review:
  "quiescent (run_system ex_crashed) \<and> unreviewed (memory_Get (job_key (ex_request ''a'')) (sy_world (run_system ex_crashed)))"
  by code_simp

text \<open>The head that GitHub reported is written into the job later, over a newer push that has arrived
  in between and was acknowledged as one the running review would follow up: everything is quiet, no
  crash and no failure happened, and the newest push is neither reviewed nor the target.\<close>

definition ex_overtaken :: "action list" where
  "ex_overtaken =
     [Deliver (ex_request ''a''), Dispatch 0 ''w1''] @ works 0 (ex_ext 0 (Some (Inr ''b'')) 5) 3 @
     [Deliver (ex_request ''c''), Dispatch 0 ''w2''] @ works 1 (ex_ext 1 None 5) 1 @
     works 0 (ex_ext 2 None 5) 9"

theorem reanchor_loses_push:
  "reliable ex_overtaken start \<and> quiescent (run_system ex_overtaken) \<and>
   jb_TargetSHA (memory_Get (job_key (ex_request ''c'')) (sy_world (run_system ex_overtaken))) = ''b'' \<and>
   jb_LastReviewedSHA (memory_Get (job_key (ex_request ''c'')) (sy_world (run_system ex_overtaken))) = ''b''"
  by code_simp

text \<open>The lease is checked before the comment is created, not with it: when it expires in between, the
  attempt that takes over creates a comment too, and the pull request has two.\<close>

definition ex_expired :: "action list" where
  "ex_expired =
     [Deliver (ex_request ''a''), Dispatch 0 ''w1''] @ works 0 (ex_ext 0 None 5) 7 @
     [Deliver (ex_request ''a''), Dispatch 0 ''w2''] @ works 1 (ex_ext 30 None 6) 11 @ works 0 (ex_ext 31 None 5) 4"

theorem takeover_posts_twice:
  "reliable ex_expired start \<and> quiescent (run_system ex_expired) \<and>
   map fst (wd_comments (sy_world (run_system ex_expired)) (job_key (ex_request ''a''))) = [6, 5]"
  by code_simp


section \<open>Untrusted text\<close>

lemma escapeUntrusted_Cons:
  "escapeUntrusted (c # cs) = (if c = CHR 0x60 then CHR 0x60 # zwsp else [c]) @ escapeUntrusted cs"
  by (simp add: escapeUntrusted_def ReplaceAll_char_def)

text \<open>Escaped text has no two backticks in a row, so it cannot close the code fence it stands in.\<close>

lemma escapeUntrusted_no_fence: "\<not> strings_Contains (escapeUntrusted s) [CHR 0x60, CHR 0x60]"
proof (induction s)
  case Nil
  then show ?case by (simp add: escapeUntrusted_def ReplaceAll_char_def)
next
  case (Cons c cs)
  then show ?case by (auto simp: escapeUntrusted_Cons zwsp_def HasPrefix_def)
qed

end
