(* ===== verification/JetStream.thy ===== *)
theory JetStream
  imports Errors "HOL-Library.Word"
begin

text \<open>
  The durable event bus of \<open>src/nats/jetstream.go\<close>: construction with its options, reconciling the
  durable consumer on the server, the pull loop with its backoff, the disposition of a message with
  retries and dead letters, and subscribing and closing. A duration is a 64-bit word of nanoseconds,
  as \<open>time.Duration\<close> is; the broker and the handler are parameters. Logging and trace propagation
  are left out.
\<close>

unbundle bit_operations_syntax

type_synonym duration = "64 word"

datatype AckDecision = Ack | Nack | DeadLetter | UnknownDecision int

datatype ReplayPolicy = ReplayAll | ReplayNew | UnknownReplay int

text \<open>The errors of the client library the code tells apart.\<close>

record nats_errors =
  ErrTimeout :: gerror
  ErrNoResponders :: gerror
  ErrConnectionClosed :: gerror
  ErrConsumerNotFound :: gerror
  ErrConsumerDeleted :: gerror
  ErrBadSubscription :: gerror
  ErrSubscriptionClosed :: gerror
  ErrStreamNotFound :: gerror


section \<open>Construction\<close>

text \<open>Of the client handle only whether it is set is kept; its calls are arguments of the operations.\<close>

record JetStreamEventBus =
  js_set :: bool
  durableMaxDeliver :: int
  durableAckWait :: duration
  durableBatchSize :: int
  durableFetchWait :: duration
  deadLetterSuffix :: string

datatype JetStreamOption =
    WithDurableMaxDeliver int
  | WithDurableAckWait duration
  | WithDurableBatchSize int
  | WithDurableFetchWait duration
  | WithDurableDeadLetterSuffix string

fun jetstream_option :: "JetStreamOption \<Rightarrow> JetStreamEventBus \<Rightarrow> JetStreamEventBus" where
  "jetstream_option (WithDurableMaxDeliver n) j = (if n > 0 then j\<lparr>durableMaxDeliver := n\<rparr> else j)"
| "jetstream_option (WithDurableAckWait d) j = (if 0 <s d then j\<lparr>durableAckWait := d\<rparr> else j)"
| "jetstream_option (WithDurableBatchSize n) j = (if n > 0 then j\<lparr>durableBatchSize := n\<rparr> else j)"
| "jetstream_option (WithDurableFetchWait d) j = (if 0 <s d then j\<lparr>durableFetchWait := d\<rparr> else j)"
| "jetstream_option (WithDurableDeadLetterSuffix s) j = j\<lparr>deadLetterSuffix := s\<rparr>"

definition NewJetStreamEventBus :: "bool \<Rightarrow> JetStreamOption list \<Rightarrow> JetStreamEventBus" where
  "NewJetStreamEventBus js opts =
     fold jetstream_option opts
       \<lparr>js_set = js, durableMaxDeliver = 5, durableAckWait = 30000000000, durableBatchSize = 10,
        durableFetchWait = 5000000000, deadLetterSuffix = ''.DEAD''\<rparr>"


section \<open>The durable consumer on the server\<close>

datatype DeliverPolicy = DeliverAllPolicy | DeliverNewPolicy | OtherPolicy int

datatype AckPolicy = AckExplicitPolicy | OtherAckPolicy int

record ConsumerConfig =
  cc_Durable :: string
  cc_FilterSubject :: string
  cc_AckPolicy :: AckPolicy
  cc_DeliverPolicy :: DeliverPolicy
  cc_MaxDeliver :: int
  cc_AckWait :: duration
  cc_OptStartSeq :: int
  cc_OptStartTime :: "int option"

definition durableConsumerConfigMatches :: "ConsumerConfig \<Rightarrow> ConsumerConfig \<Rightarrow> bool" where
  "durableConsumerConfigMatches existing desired \<longleftrightarrow>
     cc_FilterSubject existing = cc_FilterSubject desired \<and> cc_AckPolicy existing = cc_AckPolicy desired \<and>
     cc_DeliverPolicy existing = cc_DeliverPolicy desired \<and> cc_MaxDeliver existing = cc_MaxDeliver desired \<and>
     cc_AckWait existing = cc_AckWait desired"

text \<open>The answers of the server to the calls of one subscription: the stream of the subject, the
  configuration of the consumer, the errors of creating and of updating it, and the subscription
  attached for a delivery policy. The calls that change the consumer are part of the result.\<close>

record server =
  sv_StreamNameBySubject :: "string result"
  sv_ConsumerInfo :: "ConsumerConfig result"
  sv_AddConsumer :: "gerror option"
  sv_UpdateConsumer :: "gerror option"
  sv_PullSubscribe :: "DeliverPolicy \<Rightarrow> nat result"

datatype consumer_call = AddConsumer ConsumerConfig | UpdateConsumer ConsumerConfig

definition on_stream :: "string \<Rightarrow> string \<Rightarrow> string \<Rightarrow> gerror \<Rightarrow> gerror" where
  "on_stream what consumerName stream e =
     Errorf [Lit what, Quoted consumerName, Lit '' on stream '', Quoted stream, Lit '': '', Wrapped e]"

definition ensureDurableConsumer ::
    "JetStreamEventBus \<Rightarrow> nats_errors \<Rightarrow> server \<Rightarrow> string \<Rightarrow> string \<Rightarrow> DeliverPolicy
     \<Rightarrow> (DeliverPolicy \<times> string) result \<times> consumer_call list" where
  "ensureDurableConsumer j ne sv topic consumerName deliverPolicy =
     (let cfg = \<lparr>cc_Durable = consumerName, cc_FilterSubject = topic, cc_AckPolicy = AckExplicitPolicy,
                 cc_DeliverPolicy = deliverPolicy, cc_MaxDeliver = durableMaxDeliver j,
                 cc_AckWait = durableAckWait j, cc_OptStartSeq = 0, cc_OptStartTime = None\<rparr>
      in case sv_StreamNameBySubject sv of
        Inl err \<Rightarrow>
          (Inl (Errorf [Lit ''failed to resolve stream for subject '', Quoted topic, Lit '': '', Wrapped err]), [])
      | Inr stream \<Rightarrow>
        (case sv_ConsumerInfo sv of
           Inl err \<Rightarrow>
             if \<not> errors_is err (ErrConsumerNotFound ne)
             then (Inl (on_stream ''failed to look up durable consumer '' consumerName stream err), [])
             else (case sv_AddConsumer sv of
                     Some e \<Rightarrow> (Inl (on_stream ''failed to create durable consumer '' consumerName stream e), [AddConsumer cfg])
                   | None \<Rightarrow> (Inr (deliverPolicy, stream), [AddConsumer cfg]))
         | Inr existing \<Rightarrow>
             (let cfg = (if cc_DeliverPolicy existing \<noteq> cc_DeliverPolicy cfg
                         then cfg\<lparr>cc_DeliverPolicy := cc_DeliverPolicy existing,
                                  cc_OptStartSeq := cc_OptStartSeq existing,
                                  cc_OptStartTime := cc_OptStartTime existing\<rparr>
                         else cfg)
              in if durableConsumerConfigMatches existing cfg then (Inr (cc_DeliverPolicy cfg, stream), [])
                 else case sv_UpdateConsumer sv of
                   Some e \<Rightarrow> (Inl (on_stream ''failed to update durable consumer '' consumerName stream e), [UpdateConsumer cfg])
                 | None \<Rightarrow> (Inr (cc_DeliverPolicy cfg, stream), [UpdateConsumer cfg]))))"


section \<open>Backoff\<close>

definition initialDurableFetchBackoff :: duration where
  "initialDurableFetchBackoff = 100000000"

definition maxDurableFetchBackoff :: duration where
  "maxDurableFetchBackoff = 30000000000"

definition maxDurableNakDelay :: duration where
  "maxDurableNakDelay = 300000000000"

definition nextDurableFetchBackoff :: "duration \<Rightarrow> duration" where
  "nextDurableFetchBackoff d0 =
     (let d = d0 * 2 in
      if d \<le>s 0 \<or> maxDurableFetchBackoff <s d then maxDurableFetchBackoff else d)"

fun double_below :: "nat \<Rightarrow> duration \<Rightarrow> duration" where
  "double_below 0 delay = delay"
| "double_below (Suc n) delay =
     (if delay <s maxDurableNakDelay then double_below n (delay * 2) else delay)"

definition nakDelay :: "JetStreamEventBus \<Rightarrow> int \<Rightarrow> duration" where
  "nakDelay j deliveryCount0 =
     (let deliveryCount = (if deliveryCount0 < 1 then 1 else deliveryCount0);
          shifts = (if deliveryCount - 1 > 20 then 20 else deliveryCount - 1);
          delay = double_below (nat shifts) (durableAckWait j)
      in if maxDurableNakDelay <s delay then maxDurableNakDelay else delay)"


section \<open>One message\<close>

text \<open>A delivered message: its headers, its body, and the unsigned delivery count of its metadata
  when that can be read; the message the handler sees; and the calls the adapter makes on the broker,
  whose errors are only logged.\<close>

record message =
  ms_Header :: "(string \<times> string list) list"
  ms_Data :: string
  ms_NumDelivered :: "64 word option"

record DurableMessage =
  Payload :: string
  Redelivered :: bool
  DeliveryCount :: int

datatype broker_call =
    CallAck
  | CallNak duration
  | CallPublish string "(string \<times> string list) list" string
  | CallTerm

text \<open>What the handler does: it returns a decision or panics.\<close>

datatype handler_result = Returned AckDecision | Panicked

type_synonym DurableHandler = "DurableMessage \<Rightarrow> handler_result"

definition invokeDurableHandler :: "DurableHandler \<Rightarrow> DurableMessage \<Rightarrow> AckDecision" where
  "invokeDurableHandler handler dm = (case handler dm of Returned d \<Rightarrow> d | Panicked \<Rightarrow> Nack)"

definition deadLetter :: "JetStreamEventBus \<Rightarrow> string \<Rightarrow> message \<Rightarrow> broker_call list" where
  "deadLetter j topic msg =
     (if deadLetterSuffix j \<noteq> '''' then [CallPublish (topic @ deadLetterSuffix j) (ms_Header msg) (ms_Data msg)] else [])
     @ [CallTerm]"

definition durable_message :: "message \<Rightarrow> DurableMessage" where
  "durable_message msg =
     (case ms_NumDelivered msg of
        None \<Rightarrow> \<lparr>Payload = ms_Data msg, Redelivered = False, DeliveryCount = 0\<rparr>
      | Some n \<Rightarrow> \<lparr>Payload = ms_Data msg, Redelivered = (n > 1), DeliveryCount = sint n\<rparr>)"

definition handleDurableMessage :: "JetStreamEventBus \<Rightarrow> string \<Rightarrow> message \<Rightarrow> DurableHandler \<Rightarrow> broker_call list" where
  "handleDurableMessage j topic msg handler =
     (let dm = durable_message msg;
          nack = (if DeliveryCount dm > 0 \<and> DeliveryCount dm \<ge> durableMaxDeliver j then deadLetter j topic msg
                  else [CallNak (nakDelay j (DeliveryCount dm))])
      in case invokeDurableHandler handler dm of
        Ack \<Rightarrow> [CallAck]
      | DeadLetter \<Rightarrow> deadLetter j topic msg
      | Nack \<Rightarrow> nack
      | UnknownDecision _ \<Rightarrow> nack)"


section \<open>The pull loop\<close>

definition isTerminalFetchErrorMatch :: "nats_errors \<Rightarrow> gerror \<Rightarrow> bool \<times> string" where
  "isTerminalFetchErrorMatch ne err =
     (if errors_is err (ErrConnectionClosed ne) \<or> errors_is err (ErrConsumerNotFound ne) \<or>
         errors_is err (ErrConsumerDeleted ne) \<or> errors_is err (ErrBadSubscription ne) \<or>
         errors_is err (ErrSubscriptionClosed ne) then (True, ''sentinel'')
      else if strings_Contains (error_text err) ''consumer not found'' \<or>
              strings_Contains (error_text err) ''consumer deleted'' then (True, ''substring'')
      else (False, ''''))"

text \<open>The lookup of the consumer after an ambiguous error; \<open>None\<close> when it succeeds.\<close>

definition isDurableConsumerGone :: "JetStreamEventBus \<Rightarrow> nats_errors \<Rightarrow> string \<Rightarrow> gerror option \<Rightarrow> bool" where
  "isDurableConsumerGone j ne stream probe =
     (if \<not> js_set j \<or> stream = '''' then False
      else case probe of None \<Rightarrow> False
        | Some e \<Rightarrow> errors_is e (ErrConsumerNotFound ne) \<or> errors_is e (ErrStreamNotFound ne))"

definition classifyTerminalFetchError ::
    "JetStreamEventBus \<Rightarrow> nats_errors \<Rightarrow> string \<Rightarrow> gerror option \<Rightarrow> gerror \<Rightarrow> bool \<times> string" where
  "classifyTerminalFetchError j ne stream probe err =
     (case isTerminalFetchErrorMatch ne err of (matched, matchedVia) \<Rightarrow>
      if \<not> matched \<and> errors_is err (ErrNoResponders ne) \<and> isDurableConsumerGone j ne stream probe
      then (True, ''consumer_info'') else (matched, matchedVia))"

text \<open>One round of the loop: whether the context is done at its start, what the fetch returned, the
  answer of the lookup, whether the context is done at the check after an error and during the wait,
  and after each message; and the handler as it behaves at each message.\<close>

record round =
  rd_done_top :: bool
  rd_fetch :: "(message \<times> DurableHandler \<times> bool) list result"
  rd_probe :: "gerror option"
  rd_done_err :: bool
  rd_done_wait :: bool

datatype loop_event =
    Handled message "broker_call list"
  | Waited duration

definition handleDurableFetchError ::
    "JetStreamEventBus \<Rightarrow> nats_errors \<Rightarrow> string \<Rightarrow> round \<Rightarrow> gerror \<Rightarrow> duration \<Rightarrow> duration \<times> bool \<times> loop_event list" where
  "handleDurableFetchError j ne stream rd err backoff =
     (if rd_done_err rd then (backoff, True, [])
      else if errors_is err (ErrTimeout ne) then (initialDurableFetchBackoff, False, [])
      else if fst (classifyTerminalFetchError j ne stream (rd_probe rd) err) then (backoff, True, [])
      else if rd_done_wait rd then (backoff, True, [])
      else (nextDurableFetchBackoff backoff, False, [Waited backoff]))"

fun handleDurableBatch ::
    "JetStreamEventBus \<Rightarrow> string \<Rightarrow> (message \<times> DurableHandler \<times> bool) list \<Rightarrow> bool \<times> loop_event list" where
  "handleDurableBatch j topic [] = (True, [])"
| "handleDurableBatch j topic ((msg, handler, is_done) # ms) =
     (let ev = Handled msg (handleDurableMessage j topic msg handler) in
      if is_done then (False, [ev])
      else case handleDurableBatch j topic ms of (go, evs) \<Rightarrow> (go, ev # evs))"

text \<open>The loop over a finite number of rounds; the first component tells whether it has ended.\<close>

fun durableConsumeLoop ::
    "JetStreamEventBus \<Rightarrow> nats_errors \<Rightarrow> string \<Rightarrow> string \<Rightarrow> duration \<Rightarrow> round list \<Rightarrow> bool \<times> loop_event list" where
  "durableConsumeLoop j ne stream topic backoff [] = (False, [])"
| "durableConsumeLoop j ne stream topic backoff (rd # rds) =
     (if rd_done_top rd then (True, [])
      else case rd_fetch rd of
        Inl err \<Rightarrow>
          (case handleDurableFetchError j ne stream rd err backoff of (next_backoff, stop, evs) \<Rightarrow>
           if stop then (True, evs)
           else case durableConsumeLoop j ne stream topic next_backoff rds of (ended, evs') \<Rightarrow> (ended, evs @ evs'))
      | Inr ms \<Rightarrow>
          (case handleDurableBatch j topic ms of (keepGoing, evs) \<Rightarrow>
           if \<not> keepGoing then (True, evs)
           else case durableConsumeLoop j ne stream topic initialDurableFetchBackoff rds of
             (ended, evs') \<Rightarrow> (ended, evs @ evs')))"


section \<open>Subscribing and closing\<close>

record DurableSubscribeOptions =
  ConsumerName :: string
  Replay :: ReplayPolicy

datatype DurableSubscribeOption = WithConsumerName string | WithReplayPolicy ReplayPolicy

fun apply_subscribe_option :: "DurableSubscribeOption \<Rightarrow> DurableSubscribeOptions \<Rightarrow> DurableSubscribeOptions" where
  "apply_subscribe_option (WithConsumerName name) opts = opts\<lparr>ConsumerName := name\<rparr>"
| "apply_subscribe_option (WithReplayPolicy p) opts = opts\<lparr>Replay := p\<rparr>"

text \<open>The state under the mutex and the history of the subscriptions: attached on the server, taken
  over by a \<open>Close\<close> that has not yet ended them, ended there, cancelled, and with a running loop.\<close>

record bus_state =
  bs_closed :: bool
  bs_durableSubs :: "nat list"
  bs_closing :: "nat list"
  bs_attached :: "nat list"
  bs_unsubscribed :: "nat list"
  bs_cancelled :: "nat list"
  bs_running :: "nat list"

definition durably :: "string \<Rightarrow> msg_part list \<Rightarrow> gerror" where
  "durably topic rest = Errorf ([Lit ''failed to subscribe durably to '', Quoted topic, Lit '': ''] @ rest)"

text \<open>\<open>SubscribeDurable\<close> holds the mutex twice, so it is two steps: up to the attached subscription
  with its stream, and from the second look at the flag on.\<close>

definition SubscribeDurable_attach ::
    "JetStreamEventBus \<Rightarrow> nats_errors \<Rightarrow> server \<Rightarrow> bus_state \<Rightarrow> gerror option \<Rightarrow> string
     \<Rightarrow> DurableHandler option \<Rightarrow> DurableSubscribeOption list \<Rightarrow> (nat \<times> string) result \<times> consumer_call list" where
  "SubscribeDurable_attach j ne sv s ctxErr topic handler opts =
     (let opt = fold apply_subscribe_option opts \<lparr>ConsumerName = '''', Replay = ReplayAll\<rparr>;
          create_error = (\<lambda>e. Errorf [Lit ''failed to create durable consumer '', Quoted (ConsumerName opt),
                                      Lit '' for '', Quoted topic, Lit '': '', Wrapped e])
      in if Option.is_none handler then (Inl (durably topic [Lit ''handler must not be nil'']), [])
      else case ctxErr of
        Some err \<Rightarrow> (Inl err, [])
      | None \<Rightarrow>
        if TrimSpace (ConsumerName opt) = '''' then
          (Inl (durably topic [Wrapped (Sentinel ''nats: SubscribeDurable requires a non-empty ConsumerName'')]), [])
        else if bs_closed s then (Inl (durably topic [Lit ''event bus is closed'']), [])
        else case ensureDurableConsumer j ne sv topic (ConsumerName opt)
                    (if Replay opt = ReplayNew then DeliverNewPolicy else DeliverAllPolicy) of
          (Inl err, calls) \<Rightarrow> (Inl (create_error err), calls)
        | (Inr (deliverPolicy, stream), calls) \<Rightarrow>
          (case sv_PullSubscribe sv (if deliverPolicy = DeliverNewPolicy then DeliverNewPolicy else DeliverAllPolicy) of
             Inl err \<Rightarrow> (Inl (create_error err), calls)
           | Inr sub \<Rightarrow> (Inr (sub, stream), calls)))"

definition SubscribeDurable_register :: "string \<Rightarrow> nat \<Rightarrow> bus_state \<Rightarrow> gerror option \<times> bus_state" where
  "SubscribeDurable_register topic sub s0 =
     (let s = s0\<lparr>bs_attached := bs_attached s0 @ [sub]\<rparr> in
      if bs_closed s
      then (Some (durably topic [Lit ''event bus is closed'']),
            s\<lparr>bs_cancelled := bs_cancelled s @ [sub], bs_unsubscribed := bs_unsubscribed s @ [sub]\<rparr>)
      else (None, s\<lparr>bs_durableSubs := bs_durableSubs s @ [sub], bs_running := bs_running s @ [sub]\<rparr>))"

text \<open>\<open>Close\<close> takes the subscriptions under the mutex and ends them after it; then it waits. The
  boolean of \<open>Close_mark\<close> tells a first call from a later one, which returns at once.\<close>

definition Close_mark :: "bus_state \<Rightarrow> bool \<times> bus_state" where
  "Close_mark s =
     (if bs_closed s then (False, s)
      else (True, s\<lparr>bs_closed := True, bs_closing := bs_durableSubs s, bs_durableSubs := []\<rparr>))"

definition Close_end :: "bus_state \<Rightarrow> bus_state" where
  "Close_end s = s\<lparr>bs_cancelled := bs_cancelled s @ bs_closing s,
                   bs_unsubscribed := bs_unsubscribed s @ bs_closing s, bs_closing := []\<rparr>"

text \<open>\<open>busshutdown.Wait\<close>: the flag tells which branch of the \<open>select\<close> is taken.\<close>

definition busshutdown_Wait :: "bool \<Rightarrow> gerror \<Rightarrow> string \<Rightarrow> gerror option" where
  "busshutdown_Wait done_first ctxErr name =
     (if done_first then None else Some (Errorf [Lit name, Lit '' close timed out: '', Wrapped ctxErr]))"

text \<open>The steps of concurrent callers: a registration, the two parts of \<open>Close\<close>, a loop that ends.\<close>

inductive bus_step :: "bus_state \<Rightarrow> bus_state \<Rightarrow> bool" where
  register: "sub \<notin> set (bs_attached s) \<Longrightarrow> bus_step s (snd (SubscribeDurable_register topic sub s))"
| mark: "bus_step s (snd (Close_mark s))"
| close_end: "bus_step s (Close_end s)"
| loop_end: "sub \<in> set (bs_running s) \<Longrightarrow> bus_step s (s\<lparr>bs_running := remove1 sub (bs_running s)\<rparr>)"

definition new_bus :: bus_state where
  "new_bus = \<lparr>bs_closed = False, bs_durableSubs = [], bs_closing = [], bs_attached = [], bs_unsubscribed = [],
              bs_cancelled = [], bs_running = []\<rparr>"

definition Publish :: "gerror option \<Rightarrow> gerror option \<Rightarrow> string \<Rightarrow> gerror option" where
  "Publish ctxErr publishErr topic =
     (case ctxErr of
        Some err \<Rightarrow> Some err
      | None \<Rightarrow>
        (case publishErr of
           Some err \<Rightarrow> Some (Errorf [Lit ''failed to publish to jetstream subject '', Quoted topic, Lit '': '', Wrapped err])
         | None \<Rightarrow> None))"


section \<open>Backoff and delays\<close>

lemma sint_double:
  fixes d :: duration
  assumes "0 < sint d" "sint d < 2 ^ 62"
  shows "sint (d * 2) = 2 * sint d"
proof -
  have "sint (d * 2) = signed_take_bit 63 (sint d * sint (2 :: duration))"
    by (simp add: sint_word_ariths)
  also have "\<dots> = signed_take_bit 63 (2 * sint d)"
    by (simp add: mult.commute)
  also have "\<dots> = 2 * sint d"
    using assms by (intro signed_take_bit_int_eq_self) simp_all
  finally show ?thesis .
qed

lemma sint_double_wraps:
  fixes d :: duration
  assumes "2 ^ 62 \<le> sint d"
  shows "sint (d * 2) \<le> 0"
proof -
  have "sint d < 2 ^ 63"
    using sint_lt [of d] by simp
  have "(2 * sint d + 2 ^ 63) mod 2 ^ 64 = (2 * sint d + 2 ^ 63 - 2 ^ 64) mod 2 ^ 64"
    by (rule minus_mod_self2 [symmetric])
  also have "\<dots> = 2 * sint d + 2 ^ 63 - 2 ^ 64"
    using assms \<open>sint d < 2 ^ 63\<close> by (intro mod_pos_pos_trivial) simp_all
  finally have "signed_take_bit 63 (2 * sint d) = 2 * sint d - 2 ^ 64"
    unfolding signed_take_bit_eq_take_bit_shift take_bit_eq_mod by simp
  moreover have "sint (d * 2) = signed_take_bit 63 (2 * sint d)"
    by (simp add: sint_word_ariths mult.commute)
  ultimately show ?thesis
    using \<open>sint d < 2 ^ 63\<close> by simp
qed

lemma nextDurableFetchBackoff_sint:
  assumes "0 < sint d"
  shows "sint (nextDurableFetchBackoff d) = min (2 * sint d) 30000000000"
proof (cases "sint d < 2 ^ 62")
  case True
  then show ?thesis
    using sint_double [OF assms True] assms
    by (simp add: nextDurableFetchBackoff_def maxDurableFetchBackoff_def word_sle_eq word_sless_alt Let_def)
next
  case False
  then show ?thesis
    using sint_double_wraps [of d]
    by (simp add: nextDurableFetchBackoff_def maxDurableFetchBackoff_def word_sle_eq word_sless_alt Let_def)
qed





section \<open>Every message is resolved\<close>









section \<open>The loop keeps the order and never spins\<close>

definition handled :: "loop_event list \<Rightarrow> message list" where
  "handled evs = concat (map (\<lambda>ev. case ev of Handled msg _ \<Rightarrow> [msg] | Waited _ \<Rightarrow> []) evs)"

definition fetched :: "round list \<Rightarrow> message list" where
  "fetched rds = concat (map (\<lambda>rd. case rd_fetch rd of Inl _ \<Rightarrow> [] | Inr ms \<Rightarrow> map fst ms) rds)"

definition waits :: "loop_event list \<Rightarrow> duration list" where
  "waits evs = concat (map (\<lambda>ev. case ev of Handled _ _ \<Rightarrow> [] | Waited d \<Rightarrow> [d]) evs)"

lemmas loop_views = handled_def fetched_def waits_def

lemma handleDurableBatch_order:
  "\<exists>rest. map fst ms = handled (snd (handleDurableBatch j topic ms)) @ rest \<and>
          (fst (handleDurableBatch j topic ms) \<longrightarrow> rest = []) \<and>
          waits (snd (handleDurableBatch j topic ms)) = []"
  by (induction ms rule: handleDurableBatch.induct) (auto simp: loop_views Let_def split: prod.splits)

lemma handleDurableFetchError_events:
  assumes "handleDurableFetchError j ne stream rd err backoff = (next_backoff, stop, evs)"
  shows "handled evs = []" "stop \<Longrightarrow> evs = []" "set (waits evs) \<subseteq> {backoff}"
    "\<not> stop \<Longrightarrow> next_backoff \<in> {initialDurableFetchBackoff, nextDurableFetchBackoff backoff}"
  using assms by (auto simp: handleDurableFetchError_def loop_views split: if_splits)

lemma backoff_range:
  assumes "100000000 \<le> sint d" "sint d \<le> 30000000000"
    and "d' \<in> {initialDurableFetchBackoff, nextDurableFetchBackoff d}"
  shows "100000000 \<le> sint d' \<and> sint d' \<le> 30000000000"
  using assms nextDurableFetchBackoff_sint [of d] by (auto simp: initialDurableFetchBackoff_def)

text \<open>What the events of a run promise for the fetched messages.\<close>

definition in_order :: "message list \<Rightarrow> bool \<times> loop_event list \<Rightarrow> bool" where
  "in_order ms run \<longleftrightarrow>
     (\<exists>rest. ms = handled (snd run) @ rest \<and> (\<not> fst run \<longrightarrow> rest = []) \<and>
        (\<forall>d\<in>set (waits (snd run)). 100000000 \<le> sint d \<and> sint d \<le> 30000000000))"

lemma loop_views_append:
  "handled (evs @ evs') = handled evs @ handled evs'" "waits (evs @ evs') = waits evs @ waits evs'"
  by (simp_all add: loop_views)

lemma in_order_append:
  assumes "in_order ms' run" "\<forall>d\<in>set (waits evs). 100000000 \<le> sint d \<and> sint d \<le> 30000000000"
  shows "in_order (handled evs @ ms') (fst run, evs @ snd run)"
proof -
  obtain rest where "ms' = handled (snd run) @ rest" "\<not> fst run \<longrightarrow> rest = []"
    and "\<forall>d\<in>set (waits (snd run)). 100000000 \<le> sint d \<and> sint d \<le> 30000000000"
    using assms(1) unfolding in_order_def by blast
  with assms(2) show ?thesis
    unfolding in_order_def fst_conv snd_conv loop_views_append
    by (intro exI [of _ rest]) (simp add: ball_Un)
qed

lemma durableConsumeLoop_Inl:
  assumes "\<not> rd_done_top rd" "rd_fetch rd = Inl err"
    and he: "handleDurableFetchError j ne stream rd err backoff = (b, stop, evs)"
    and range: "100000000 \<le> sint backoff" "sint backoff \<le> 30000000000"
    and IH: "\<And>b. 100000000 \<le> sint b \<Longrightarrow> sint b \<le> 30000000000 \<Longrightarrow>
               in_order (fetched rds) (durableConsumeLoop j ne stream topic b rds)"
  shows "in_order (fetched (rd # rds)) (durableConsumeLoop j ne stream topic backoff (rd # rds))"
proof (cases stop)
  case True
  then have "durableConsumeLoop j ne stream topic backoff (rd # rds) = (True, [])"
    using assms(1,2) he handleDurableFetchError_events(2) [OF he] by simp
  then show ?thesis
    by (simp add: in_order_def handled_def waits_def)
next
  case False
  let ?r = "durableConsumeLoop j ne stream topic b rds"
  have "in_order (fetched rds) ?r"
    using IH backoff_range [OF range handleDurableFetchError_events(4) [OF he False]] by blast
  moreover have "\<forall>d\<in>set (waits evs). 100000000 \<le> sint d \<and> sint d \<le> 30000000000"
    using handleDurableFetchError_events(3) [OF he] range by blast
  ultimately have "in_order (handled evs @ fetched rds) (fst ?r, evs @ snd ?r)"
    by (rule in_order_append)
  moreover have "durableConsumeLoop j ne stream topic backoff (rd # rds) = (fst ?r, evs @ snd ?r)"
    using assms(1,2) he False by (simp add: case_prod_beta)
  ultimately show ?thesis
    using handleDurableFetchError_events(1) [OF he] assms(2) by (simp add: fetched_def)
qed

lemma durableConsumeLoop_Inr:
  assumes "\<not> rd_done_top rd" "rd_fetch rd = Inr ms"
    and IH: "in_order (fetched rds) (durableConsumeLoop j ne stream topic initialDurableFetchBackoff rds)"
  shows "in_order (fetched (rd # rds)) (durableConsumeLoop j ne stream topic backoff (rd # rds))"
proof -
  let ?r = "durableConsumeLoop j ne stream topic initialDurableFetchBackoff rds"
  obtain go evs where b: "handleDurableBatch j topic ms = (go, evs)"
    by (metis surj_pair)
  obtain rest where rest: "map fst ms = handled evs @ rest" "go \<Longrightarrow> rest = []" "waits evs = []"
    using handleDurableBatch_order [of ms j topic] b by auto
  have f: "fetched (rd # rds) = map fst ms @ fetched rds"
    using assms(2) by (simp add: fetched_def)
  show ?thesis
  proof (cases go)
    case True
    have "durableConsumeLoop j ne stream topic backoff (rd # rds) = (fst ?r, evs @ snd ?r)"
      using assms(1,2) b True by (simp add: case_prod_beta)
    then show ?thesis
      using in_order_append [OF IH, of evs] rest(1,3) rest(2) [OF True] f by simp
  next
    case False
    then have "durableConsumeLoop j ne stream topic backoff (rd # rds) = (True, evs)"
      using assms(1,2) b by simp
    then show ?thesis
      unfolding in_order_def using rest(1,3) f by simp
  qed
qed

lemma durableConsumeLoop_ordered:
  assumes "100000000 \<le> sint backoff" "sint backoff \<le> 30000000000"
  shows "in_order (fetched rds) (durableConsumeLoop j ne stream topic backoff rds)"
  using assms
proof (induction rds arbitrary: backoff)
  case Nil
  then show ?case
    by (simp add: in_order_def loop_views)
next
  case (Cons rd rds)
  show ?case
  proof (cases "rd_done_top rd")
    case True
    then show ?thesis
      by (simp add: in_order_def handled_def waits_def)
  next
    case top: False
    show ?thesis
    proof (cases "rd_fetch rd")
      case (Inl err)
      obtain b stop evs where "handleDurableFetchError j ne stream rd err backoff = (b, stop, evs)"
        by (metis prod_cases3)
      with top Inl show ?thesis
        using Cons.prems Cons.IH by (rule durableConsumeLoop_Inl)
    next
      case (Inr ms)
      show ?thesis
        by (rule durableConsumeLoop_Inr [OF top Inr]) (rule Cons.IH; simp add: initialDurableFetchBackoff_def)
    qed
  qed
qed

text \<open>C40. The pull loop resolves the fetched messages in the order the broker delivered them, each
  once and none skipped: what it has handled after any number of rounds is a prefix of what was
  fetched, all of it as long as the loop runs. It never spins on a failing broker: every wait between
  retries is at least 100 ms and at most 30 s.\<close>

theorem durableConsumeLoop_in_order:
  "\<exists>rest. fetched rds = handled (snd (durableConsumeLoop j ne stream topic initialDurableFetchBackoff rds)) @ rest \<and>
     (\<not> fst (durableConsumeLoop j ne stream topic initialDurableFetchBackoff rds) \<longrightarrow> rest = []) \<and>
     (\<forall>d\<in>set (waits (snd (durableConsumeLoop j ne stream topic initialDurableFetchBackoff rds))).
        100000000 \<le> sint d \<and> sint d \<le> 30000000000)"
  using durableConsumeLoop_ordered [of initialDurableFetchBackoff rds j ne stream topic]
  unfolding in_order_def by (simp add: initialDurableFetchBackoff_def)

definition sample_errors :: nats_errors where
  "sample_errors = \<lparr>ErrTimeout = Sentinel ''timeout'', ErrNoResponders = Sentinel ''no responders'',
     ErrConnectionClosed = Sentinel ''connection closed'', ErrConsumerNotFound = Sentinel ''consumer not found'',
     ErrConsumerDeleted = Sentinel ''consumer deleted'', ErrBadSubscription = Sentinel ''invalid subscription'',
     ErrSubscriptionClosed = Sentinel ''subscription closed'', ErrStreamNotFound = Sentinel ''stream not found''\<rparr>"

definition sample_rounds :: "round list" where
  "sample_rounds =
     [\<lparr>rd_done_top = False, rd_fetch = Inl (Sentinel ''no responders''), rd_probe = None, rd_done_err = False, rd_done_wait = False\<rparr>,
      \<lparr>rd_done_top = False, rd_fetch = Inr [(\<lparr>ms_Header = [], ms_Data = ''a'', ms_NumDelivered = Some 1\<rparr>, \<lambda>_. Returned Ack, False),
                                           (\<lparr>ms_Header = [], ms_Data = ''b'', ms_NumDelivered = Some 1\<rparr>, \<lambda>_. Panicked, False)],
       rd_probe = None, rd_done_err = False, rd_done_wait = False\<rparr>]"

theorem durableConsumeLoop_in_order_witness:
  "\<not> fst (durableConsumeLoop (NewJetStreamEventBus True []) sample_errors ''S'' ''t'' initialDurableFetchBackoff sample_rounds) \<and>
   map ms_Data (handled (snd (durableConsumeLoop (NewJetStreamEventBus True []) sample_errors ''S'' ''t''
     initialDurableFetchBackoff sample_rounds))) = [''a'', ''b''] \<and>
   100000000 \<in> set (waits (snd (durableConsumeLoop (NewJetStreamEventBus True []) sample_errors ''S'' ''t''
     initialDurableFetchBackoff sample_rounds)))"
proof -
  let ?run = "durableConsumeLoop (NewJetStreamEventBus True []) sample_errors ''S'' ''t'' initialDurableFetchBackoff sample_rounds"
  have "\<not> fst ?run" "100000000 \<in> set (waits (snd ?run))"
    by (simp_all add: sample_rounds_def sample_errors_def handleDurableFetchError_def classifyTerminalFetchError_def
        isTerminalFetchErrorMatch_def isDurableConsumerGone_def initialDurableFetchBackoff_def waits_def Let_def HasPrefix_def)
  moreover have "map ms_Data (fetched sample_rounds) = [''a'', ''b'']"
    by (simp add: sample_rounds_def fetched_def)
  ultimately show ?thesis
    using durableConsumeLoop_in_order [of sample_rounds "NewJetStreamEventBus True []" sample_errors "''S''" "''t''"] by auto
qed


section \<open>The consumer on the server\<close>

text \<open>The consumer stored on the server after the calls of a successful reconciliation.\<close>

fun stored_after :: "ConsumerConfig option \<Rightarrow> consumer_call list \<Rightarrow> ConsumerConfig option" where
  "stored_after c [] = c"
| "stored_after c (AddConsumer cfg # calls) = stored_after (Some cfg) calls"
| "stored_after c (UpdateConsumer cfg # calls) = stored_after (Some cfg) calls"

text \<open>When the lookup answers what is stored, a successful reconciliation leaves a consumer with the
  options of the bus, and with the delivery policy it had before if there was one.\<close>

theorem ensureDurableConsumer_reconciles:
  assumes "ensureDurableConsumer j ne sv topic name pol = (Inr (p, stream), calls)"
    and "case sv_ConsumerInfo sv of Inr cfg \<Rightarrow> stored = Some cfg | Inl _ \<Rightarrow> stored = None"
  shows "\<exists>cfg. stored_after stored calls = Some cfg \<and> cc_FilterSubject cfg = topic \<and> cc_AckPolicy cfg = AckExplicitPolicy \<and>
           cc_MaxDeliver cfg = durableMaxDeliver j \<and> cc_AckWait cfg = durableAckWait j \<and> cc_DeliverPolicy cfg = p \<and>
           p = (case stored of None \<Rightarrow> pol | Some old \<Rightarrow> cc_DeliverPolicy old) \<and> length calls \<le> 1"
  using assms
  by (auto simp: ensureDurableConsumer_def durableConsumerConfigMatches_def Let_def
      split: sum.splits option.splits if_splits)

text \<open>A consumer with another delivery policy than the two keeps it, but is attached with
  \<open>DeliverAll\<close>; a client that refuses an attachment whose policy is not the consumer's refuses it.\<close>

theorem other_policy_not_attached:
  assumes "sv_ConsumerInfo sv = Inr cfg" "cc_DeliverPolicy cfg = OtherPolicy n"
    and "\<And>p. p \<noteq> cc_DeliverPolicy cfg \<Longrightarrow> \<exists>e. sv_PullSubscribe sv p = Inl e"
  shows "\<exists>e calls. SubscribeDurable_attach j ne sv s ctxErr topic handler opts = (Inl e, calls)"
proof -
  obtain e where "sv_PullSubscribe sv DeliverAllPolicy = Inl e"
    using assms(2,3) by force
  moreover have "p = OtherPolicy n" if "ensureDurableConsumer j ne sv topic name pol = (Inr (p, stream), calls)"
      for name pol p stream calls
    using ensureDurableConsumer_reconciles [OF that, of "Some cfg"] assms(1,2) by auto
  ultimately show ?thesis
    by (fastforce simp: SubscribeDurable_attach_def Let_def split: option.splits prod.splits sum.splits)
qed


section \<open>A closed bus leaves nothing running\<close>

inductive bus_reachable :: "bus_state \<Rightarrow> bool" where
  start: "bus_reachable new_bus"
| step: "bus_reachable s \<Longrightarrow> bus_step s s' \<Longrightarrow> bus_reachable s'"

lemmas bus_defs = SubscribeDurable_register_def Close_mark_def Close_end_def new_bus_def

definition bus_inv :: "bus_state \<Rightarrow> bool" where
  "bus_inv s \<longleftrightarrow>
     set (bs_attached s) = set (bs_durableSubs s) \<union> set (bs_closing s) \<union> set (bs_unsubscribed s) \<and>
     set (bs_running s) \<subseteq> set (bs_attached s) \<and> set (bs_unsubscribed s) \<subseteq> set (bs_cancelled s) \<and>
     (bs_closed s \<longrightarrow> bs_durableSubs s = []) \<and> (\<not> bs_closed s \<longrightarrow> bs_closing s = [])"

lemma bus_step_inv: "bus_step s s' \<Longrightarrow> bus_inv s \<Longrightarrow> bus_inv s'"
  by (induction rule: bus_step.induct)
     (auto simp: bus_inv_def bus_defs Let_def dest: notin_set_remove1 set_remove1_subset [THEN subsetD])

lemma bus_reachable_inv: "bus_reachable s \<Longrightarrow> bus_inv s"
  by (induction rule: bus_reachable.induct) (auto simp: bus_inv_def new_bus_def dest: bus_step_inv [unfolded bus_inv_def])

text \<open>Whatever the order in which subscribers and \<open>Close\<close> run, once \<open>Close\<close> has ended what it took
  over, every subscription ever attached on the server has been ended there and every pull loop still
  running has had its context cancelled; a subscriber that lost the race ends its own.\<close>

theorem closed_bus_leaves_nothing:
  assumes "bus_reachable s" "bs_closed s" "bs_closing s = []"
  shows "set (bs_attached s) = set (bs_unsubscribed s) \<and> set (bs_running s) \<subseteq> set (bs_cancelled s)"
  using bus_reachable_inv [OF assms(1)] assms(2,3) by (auto simp: bus_inv_def)

definition sample_closed :: bus_state where
  "sample_closed = snd (SubscribeDurable_register ''t'' 2 (Close_end (snd (Close_mark
     (snd (SubscribeDurable_register ''t'' 1 new_bus))))))"

theorem closed_bus_leaves_nothing_witness:
  "bs_closed sample_closed \<and> bs_attached sample_closed = [1, 2] \<and> bs_running sample_closed = [1] \<and>
   set (bs_attached sample_closed) = set (bs_unsubscribed sample_closed) \<and>
   set (bs_running sample_closed) \<subseteq> set (bs_cancelled sample_closed)"
proof -
  have "bus_reachable sample_closed"
    unfolding sample_closed_def
    by (intro bus_reachable.step [OF _ bus_step.register] bus_reachable.step [OF _ bus_step.close_end]
        bus_reachable.step [OF _ bus_step.mark] bus_reachable.start) (simp_all add: bus_defs)
  moreover have "bs_closed sample_closed" "bs_closing sample_closed = []" "bs_attached sample_closed = [1, 2]"
    "bs_running sample_closed = [1]"
    by (simp_all add: sample_closed_def bus_defs)
  ultimately show ?thesis
    using closed_bus_leaves_nothing [of sample_closed] by simp
qed

end
